theory Spec2Isabelle
  imports Complex_Main "HOL-Library.Sublist" "HOL-Library.Log_Nat"
begin

section \<open>Constants and stage configurations (constant.js, stages.js)\<close>

text \<open>
  \<^verbatim>\<open>GAME_CONSTANTS\<close> encodes a cell as a number: \<open>EMPTY = 0\<close>, \<open>BLACK = 1\<close>,
  \<open>WHITE = 2\<close>, \<open>BLOCKED = 3\<close>. A player is one of the two colours; a cell is empty,
  holds a disc of a colour, or is blocked.
\<close>

datatype player = BLACK | WHITE

datatype cell = EMPTY | Disc player | BLOCKED

type_synonym pos = "int \<times> int"

type_synonym board = "cell list list"

definition MAX_AI_TIME_PER_GAME :: real where
  "MAX_AI_TIME_PER_GAME = 10000"

text \<open>
  A stage object. The two rule toggles are optional properties in the source and are read
  as \<^verbatim>\<open>stageConfig.ignoreOcclusion || false\<close>; an absent toggle is \<open>False\<close> here. An
  absent or zero \<open>boardSize\<close> is \<open>0\<close> (the source reads \<^verbatim>\<open>stageConfig.boardSize || 8\<close>).
\<close>

record stage =
  name :: string
  boardSize :: nat
  initialBlocked :: "pos list"
  initialPlayer1 :: "pos list"
  initialPlayer2 :: "pos list"
  ignoreOcclusion :: bool
  fewerPiecesContinue :: bool

definition stages :: "stage list" where
  "stages =
    [ \<lparr> name = ''Standard 8x8'', boardSize = 8, initialBlocked = [],
        initialPlayer1 = [(3, 4), (4, 3)], initialPlayer2 = [(3, 3), (4, 4)],
        ignoreOcclusion = False, fewerPiecesContinue = False \<rparr>,
      \<lparr> name = ''Small Board (6x6)'', boardSize = 6, initialBlocked = [],
        initialPlayer1 = [(2, 3), (3, 2)], initialPlayer2 = [(2, 2), (3, 3)],
        ignoreOcclusion = False, fewerPiecesContinue = False \<rparr>,
      \<lparr> name = ''8x8 (Partial C-Squares-cw)'', boardSize = 8,
        initialBlocked = [(0, 1), (1, 7), (7, 6), (6, 0)],
        initialPlayer1 = [(3, 4), (4, 3)], initialPlayer2 = [(3, 3), (4, 4)],
        ignoreOcclusion = False, fewerPiecesContinue = False \<rparr> ]"

section \<open>Module state\<close>

text \<open>
  The private variables of \<^verbatim>\<open>OthelloCore\<close> (game-core.js), the per-player timers of
  \<^verbatim>\<open>GameController\<close>, the lists of \<^verbatim>\<open>GameLogger\<close> (game-logger.js) and the winner
  that \<^verbatim>\<open>endGame\<close> hands to the status display, gathered in one record that every
  operation takes and returns.

  The logger holds the log of the game in progress (\<open>moves\<close> with the player of each
  move, and \<open>capturedCounts\<close>) and \<open>previousGames\<close>, the logs of the games that have
  ended, each with the two scores \<^verbatim>\<open>saveGameWithLog\<close> was given. The entry that
  \<^verbatim>\<open>saveGameWithLog\<close> adds to \<^verbatim>\<open>gameResults\<close> repeats those scores and the
  length of the log.
\<close>

datatype outcome = Winner player | Tie

record saved_game =
  savedMoves :: "(player \<times> pos) list"
  savedCaptured :: "nat list"
  blackScore :: nat
  whiteScore :: nat

record arena =
  board :: board
  BOARD_SIZE :: nat
  currentStage :: "stage option"
  currentPlayer :: player
  gameRunning :: bool
  gameOver :: bool
  blackTimeUsed :: real
  whiteTimeUsed :: real
  moves :: "(player \<times> pos) list"
  capturedCounts :: "nat list"
  previousGames :: "saved_game list"
  status :: "outcome option"

section \<open>Board engine (game-core.js)\<close>

definition isWithinBoard :: "nat \<Rightarrow> int \<Rightarrow> int \<Rightarrow> bool" where
  "isWithinBoard N r c \<longleftrightarrow> r \<ge> 0 \<and> r < int N \<and> c \<ge> 0 \<and> c < int N"

text \<open>
  Reading \<^verbatim>\<open>b[r][c]\<close>. \<open>None\<close> is JavaScript's \<^verbatim>\<open>undefined\<close>, the value of a read
  past the end of a row; it is different from every cell constant. A read in a missing
  row raises a TypeError in the source; the engine only reads cells that
  \<open>isWithinBoard\<close> admits, so on a square board of side \<open>BOARD_SIZE\<close> (\<open>wf_board\<close>
  below, the shape \<^verbatim>\<open>initializeBoard\<close> sets up) neither case arises.
\<close>

definition cellAt :: "board \<Rightarrow> int \<Rightarrow> int \<Rightarrow> cell option" where
  "cellAt b r c =
     (if 0 \<le> r \<and> nat r < length b \<and> 0 \<le> c \<and> nat c < length (b ! nat r)
      then Some (b ! nat r ! nat c) else None)"

definition wf_board :: "nat \<Rightarrow> board \<Rightarrow> bool" where
  "wf_board N b \<longleftrightarrow> length b = N \<and> list_all (\<lambda>row. length row = N) b"

definition opponentOf :: "player \<Rightarrow> player" where
  "opponentOf p = (if p = BLACK then WHITE else BLACK)"

text \<open>
  The eight entries of the \<^verbatim>\<open>directions\<close> array, in the source's order:
  \<^verbatim>\<open>[-1,-1], [-1,0], [-1,1], [0,-1], [0,1], [1,-1], [1,0], [1,1]\<close>.
\<close>

datatype direction = NW | NN | NE | WW | EE | SW | SS | SE

fun dr :: "direction \<Rightarrow> int" where
  "dr NW = -1" | "dr NN = -1" | "dr NE = -1"
| "dr WW = 0" | "dr EE = 0"
| "dr SW = 1" | "dr SS = 1" | "dr SE = 1"

fun dc :: "direction \<Rightarrow> int" where
  "dc NW = -1" | "dc NN = 0" | "dc NE = 1"
| "dc WW = -1" | "dc EE = 1"
| "dc SW = -1" | "dc SS = 0" | "dc SE = 1"

definition directions :: "direction list" where
  "directions = [NW, NN, NE, WW, EE, SW, SS, SE]"

definition stageOf :: "arena \<Rightarrow> stage" where
  "stageOf st = (case currentStage st of None \<Rightarrow> stages ! 0 | Some s \<Rightarrow> s)"

text \<open>Steps left before a scan from \<open>(r, c)\<close> in direction \<open>d\<close> leaves the board.\<close>

definition stepsLeft :: "nat \<Rightarrow> direction \<Rightarrow> int \<Rightarrow> int \<Rightarrow> nat" where
  "stepsLeft N d r c =
     (if dr d = 1 then nat (int N - r)
      else if dr d = -1 then nat (r + 1)
      else if dc d = 1 then nat (int N - c)
      else nat (c + 1))"

text \<open>
  The \<^verbatim>\<open>while (isWithinBoard(r, c))\<close> loop of \<^verbatim>\<open>isValidMove\<close> for one direction:
  the result is \<open>True\<close> where the source executes \<^verbatim>\<open>return true\<close>, and \<open>False\<close> where
  it leaves the loop by \<^verbatim>\<open>break\<close> or by running off the board.
\<close>

function scanValid ::
  "nat \<Rightarrow> bool \<Rightarrow> board \<Rightarrow> player \<Rightarrow> direction \<Rightarrow> int \<Rightarrow> int \<Rightarrow> bool \<Rightarrow> bool \<Rightarrow> bool" where
  "scanValid N ign b p d r c foundOpponent foundBlocked =
     (if isWithinBoard N r c then
        (if cellAt b r c = Some (Disc (opponentOf p)) then
           scanValid N ign b p d (r + dr d) (c + dc d) True foundBlocked
         else if cellAt b r c = Some BLOCKED then
           (if \<not> ign then False
            else scanValid N ign b p d (r + dr d) (c + dc d) foundOpponent True)
         else if cellAt b r c = Some EMPTY then False
         else if cellAt b r c = Some (Disc p) then
           (foundOpponent \<and> (\<not> foundBlocked \<or> ign))
         else scanValid N ign b p d (r + dr d) (c + dc d) foundOpponent foundBlocked)
      else False)"
  by pat_completeness auto
termination
proof (relation "measure (\<lambda>(N, ign, b, p, d, r, c, fo, fb). stepsLeft N d r c)")
  have step: "stepsLeft N d (r + dr d) (c + dc d) < stepsLeft N d r c"
    if "isWithinBoard N r c" for N d r c
    using that by (cases d) (auto simp: isWithinBoard_def stepsLeft_def)
  fix N :: nat and ign :: bool and b :: board and p :: player and d :: direction
    and r c :: int and foundOpponent foundBlocked :: bool
  assume w: "isWithinBoard N r c"
  show "((N, ign, b, p, d, r + dr d, c + dc d, True, foundBlocked),
         (N, ign, b, p, d, r, c, foundOpponent, foundBlocked))
        \<in> measure (\<lambda>(N, ign, b, p, d, r, c, fo, fb). stepsLeft N d r c)"
    using step [OF w] by simp
  show "((N, ign, b, p, d, r + dr d, c + dc d, foundOpponent, True),
         (N, ign, b, p, d, r, c, foundOpponent, foundBlocked))
        \<in> measure (\<lambda>(N, ign, b, p, d, r, c, fo, fb). stepsLeft N d r c)"
    using step [OF w] by simp
  show "((N, ign, b, p, d, r + dr d, c + dc d, foundOpponent, foundBlocked),
         (N, ign, b, p, d, r, c, foundOpponent, foundBlocked))
        \<in> measure (\<lambda>(N, ign, b, p, d, r, c, fo, fb). stepsLeft N d r c)"
    using step [OF w] by simp
qed simp

declare scanValid.simps [simp del]

definition isValidMove :: "arena \<Rightarrow> int \<Rightarrow> int \<Rightarrow> player \<Rightarrow> board \<Rightarrow> bool" where
  "isValidMove st row col p currentBoard =
     (if \<not> isWithinBoard (BOARD_SIZE st) row col \<or> cellAt currentBoard row col \<noteq> Some EMPTY
      then False
      else
        (let ign = ignoreOcclusion (stageOf st)
         in list_ex (\<lambda>d. scanValid (BOARD_SIZE st) ign currentBoard p d
                            (row + dr d) (col + dc d) False False) directions))"

text \<open>
  The two nested \<^verbatim>\<open>for\<close> loops of \<^verbatim>\<open>getValidMoves\<close>, rows outside and columns
  inside, pushing each cell that \<open>isValidMove\<close> accepts.
\<close>

definition getValidMoves :: "arena \<Rightarrow> player \<Rightarrow> board \<Rightarrow> pos list" where
  "getValidMoves st p currentBoard =
     (let size = length currentBoard
      in concat (map (\<lambda>r. concat (map (\<lambda>c.
           if isValidMove st (int r) (int c) p currentBoard then [(int r, int c)] else [])
           [0..<size])) [0..<size]))"

text \<open>The assignment \<^verbatim>\<open>b[r][c] = v\<close> on a cell of the grid.\<close>

definition setCell :: "board \<Rightarrow> int \<Rightarrow> int \<Rightarrow> cell \<Rightarrow> board" where
  "setCell b r c v = b[nat r := (b ! nat r)[nat c := v]]"

text \<open>
  The \<^verbatim>\<open>while\<close> loop of \<^verbatim>\<open>makeMove\<close> for one direction. \<open>Some toFlip\<close> is the
  exit through the flipping branch, with the cells collected so far; \<open>None\<close> is every
  other exit, where nothing is flipped.
\<close>

function scanFlip ::
  "nat \<Rightarrow> bool \<Rightarrow> board \<Rightarrow> player \<Rightarrow> direction \<Rightarrow> int \<Rightarrow> int \<Rightarrow> pos list \<Rightarrow> bool \<Rightarrow> bool
     \<Rightarrow> pos list option" where
  "scanFlip N ign b p d r c toFlip foundBlocked foundOpponent =
     (if isWithinBoard N r c then
        (if cellAt b r c = Some (Disc (opponentOf p)) then
           scanFlip N ign b p d (r + dr d) (c + dc d) (toFlip @ [(r, c)]) foundBlocked True
         else if cellAt b r c = Some BLOCKED then
           (if \<not> ign then None
            else scanFlip N ign b p d (r + dr d) (c + dc d) toFlip True foundOpponent)
         else if cellAt b r c = Some EMPTY then None
         else if cellAt b r c = Some (Disc p) then
           (if foundOpponent \<and> length toFlip > 0 \<and> (\<not> foundBlocked \<or> ign)
            then Some toFlip else None)
         else scanFlip N ign b p d (r + dr d) (c + dc d) toFlip foundBlocked foundOpponent)
      else None)"
  by pat_completeness auto
termination
proof (relation "measure (\<lambda>(N, ign, b, p, d, r, c, tf, fb, fo). stepsLeft N d r c)")
  have step: "stepsLeft N d (r + dr d) (c + dc d) < stepsLeft N d r c"
    if "isWithinBoard N r c" for N d r c
    using that by (cases d) (auto simp: isWithinBoard_def stepsLeft_def)
  fix N :: nat and ign :: bool and b :: board and p :: player and d :: direction
    and r c :: int and toFlip :: "pos list" and foundBlocked foundOpponent :: bool
  assume w: "isWithinBoard N r c"
  show "((N, ign, b, p, d, r + dr d, c + dc d, toFlip @ [(r, c)], foundBlocked, True),
         (N, ign, b, p, d, r, c, toFlip, foundBlocked, foundOpponent))
        \<in> measure (\<lambda>(N, ign, b, p, d, r, c, tf, fb, fo). stepsLeft N d r c)"
    using step [OF w] by simp
  show "((N, ign, b, p, d, r + dr d, c + dc d, toFlip, True, foundOpponent),
         (N, ign, b, p, d, r, c, toFlip, foundBlocked, foundOpponent))
        \<in> measure (\<lambda>(N, ign, b, p, d, r, c, tf, fb, fo). stepsLeft N d r c)"
    using step [OF w] by simp
  show "((N, ign, b, p, d, r + dr d, c + dc d, toFlip, foundBlocked, foundOpponent),
         (N, ign, b, p, d, r, c, toFlip, foundBlocked, foundOpponent))
        \<in> measure (\<lambda>(N, ign, b, p, d, r, c, tf, fb, fo). stepsLeft N d r c)"
    using step [OF w] by simp
qed simp

declare scanFlip.simps [simp del]

text \<open>
  One round of the \<^verbatim>\<open>for (const [dr, dc] of directions)\<close> loop of \<^verbatim>\<open>makeMove\<close>,
  on the board as the earlier rounds left it: the accumulator is the board, the
  \<^verbatim>\<open>capturedPieces\<close> array and the \<^verbatim>\<open>flipped\<close> flag.
\<close>

definition flipAll :: "player \<Rightarrow> board \<Rightarrow> pos list \<Rightarrow> board" where
  "flipAll p b toFlip = foldl (\<lambda>b' (fr, fc). setCell b' fr fc (Disc p)) b toFlip"

definition flipDirection ::
  "nat \<Rightarrow> bool \<Rightarrow> player \<Rightarrow> int \<Rightarrow> int \<Rightarrow> board \<times> pos list \<times> bool \<Rightarrow> direction
     \<Rightarrow> board \<times> pos list \<times> bool" where
  "flipDirection N ign p row col acc d =
     (case acc of (b, capturedPieces, flipped) \<Rightarrow>
        (case scanFlip N ign b p d (row + dr d) (col + dc d) [] False False of
           None \<Rightarrow> (b, capturedPieces, flipped)
         | Some toFlip \<Rightarrow> (flipAll p b toFlip, capturedPieces @ toFlip, True)))"

text \<open>
  \<^verbatim>\<open>makeMove(row, col, player)\<close> works on the module's own board. The result is the new
  state and the returned flag. The call of \<^verbatim>\<open>GameLogger.logMove\<close> appends the move and
  the number of captured pieces to the logger's lists.
\<close>

definition makeMove :: "arena \<Rightarrow> int \<Rightarrow> int \<Rightarrow> player \<Rightarrow> arena \<times> bool" where
  "makeMove st row col p =
     (if \<not> isWithinBoard (BOARD_SIZE st) row col \<or> cellAt (board st) row col \<noteq> Some EMPTY
      then (st, False)
      else
        (let b0 = setCell (board st) row col (Disc p);
             ign = ignoreOcclusion (stageOf st)
         in case foldl (flipDirection (BOARD_SIZE st) ign p row col) (b0, [], False) directions of
              (b', capturedPieces, flipped) \<Rightarrow>
                (st\<lparr> board := b',
                     moves := moves st @ [(p, (row, col))],
                     capturedCounts := capturedCounts st @ [length capturedPieces] \<rparr>,
                 flipped)))"

text \<open>\<^verbatim>\<open>countDiscs\<close>: one pass over every cell of every row; the result is \<open>(black, white)\<close>.\<close>

definition countDiscs :: "board \<Rightarrow> nat \<times> nat" where
  "countDiscs boardState =
     foldl (\<lambda>(black, white) x.
              if x = Disc BLACK then (black + 1, white)
              else if x = Disc WHITE then (black, white + 1)
              else (black, white))
       (0, 0) (concat boardState)"

definition determineNextPlayer :: "arena \<Rightarrow> player" where
  "determineNextPlayer st =
     (if \<not> fewerPiecesContinue (stageOf st)
      then (if currentPlayer st = BLACK then WHITE else BLACK)
      else
        (case countDiscs (board st) of (black, white) \<Rightarrow>
           if black < white then BLACK
           else if white < black then WHITE
           else (if currentPlayer st = BLACK then WHITE else BLACK)))"

text \<open>
  \<^verbatim>\<open>endGame(winner = null)\<close>: does nothing unless the game is running; otherwise stops
  the game, hands the winner (computed from the disc counts when none is given) to the
  status display, and calls \<^verbatim>\<open>GameLogger.saveGameWithLog\<close> with the two disc counts:
  the log of the game is copied to \<open>previousGames\<close>, and \<^verbatim>\<open>reset()\<close> then empties the
  lists of the game in progress.
\<close>

definition endGame :: "arena \<Rightarrow> player option \<Rightarrow> arena" where
  "endGame st winner =
     (if \<not> gameRunning st then st
      else
        (case countDiscs (board st) of (black, white) \<Rightarrow>
           st\<lparr> gameRunning := False, gameOver := True,
               status := Some (case winner of
                   Some w \<Rightarrow> Winner w
                 | None \<Rightarrow>
                     if black > white then Winner BLACK
                     else if white > black then Winner WHITE
                     else Tie),
               previousGames := previousGames st @
                 [\<lparr> savedMoves = moves st, savedCaptured = capturedCounts st,
                    blackScore = black, whiteScore = white \<rparr>],
               moves := [], capturedCounts := [] \<rparr>))"

section \<open>Time limit (game-ui.js)\<close>

definition checkTimeLimit :: "arena \<Rightarrow> player \<Rightarrow> real \<Rightarrow> arena \<times> bool" where
  "checkTimeLimit st p timeUsed =
     (if timeUsed > MAX_AI_TIME_PER_GAME then
        (let opponent = (if p = BLACK then WHITE else BLACK);
             winningColor = Disc opponent;
             b' = map (map (\<lambda>x. if x \<noteq> BLOCKED \<and> x \<noteq> winningColor then winningColor else x))
                    (board st)
         in (endGame (st\<lparr> board := b' \<rparr>) (Some opponent), True))
      else (st, False))"

section \<open>Initial board (game-core.js)\<close>

text \<open>
  \<^verbatim>\<open>createInitialBoard\<close> tests each placement with \<open>isWithinBoard\<close>, that is against
  the module variable \<open>BOARD_SIZE\<close>, and writes into the fresh grid of side
  \<^verbatim>\<open>stageConfig.boardSize || 8\<close>. Where the two sizes differ a write can land outside
  the grid: in a missing row the source raises a TypeError; past the end of a row it
  grows that row, leaving holes, which the type \<open>board\<close> cannot hold and the model
  reports as \<open>OffGrid\<close>.
\<close>

datatype fault = TypeError | OffGrid

definition writeCell :: "board \<Rightarrow> int \<Rightarrow> int \<Rightarrow> cell \<Rightarrow> fault + board" where
  "writeCell b r c v =
     (if \<not> (0 \<le> r \<and> nat r < length b) then Inl TypeError
      else if \<not> (0 \<le> c \<and> nat c < length (b ! nat r)) then Inl OffGrid
      else Inr (setCell b r c v))"

definition placeBlocked :: "nat \<Rightarrow> board \<Rightarrow> pos \<Rightarrow> fault + board" where
  "placeBlocked N b q =
     (case q of (r, c) \<Rightarrow>
        if isWithinBoard N r c then writeCell b r c BLOCKED else Inr b)"

definition placePiece :: "nat \<Rightarrow> player \<Rightarrow> board \<Rightarrow> pos \<Rightarrow> fault + board" where
  "placePiece N pl b q =
     (case q of (r, c) \<Rightarrow>
        if isWithinBoard N r c then
          (if \<not> (0 \<le> r \<and> nat r < length b) then Inl TypeError
           else if cellAt b r c = Some EMPTY then writeCell b r c (Disc pl)
           else Inr b)
        else Inr b)"

text \<open>\<^verbatim>\<open>forEach\<close> over a placement list; an exception ends the whole call.\<close>

fun forEachPlace :: "(board \<Rightarrow> pos \<Rightarrow> fault + board) \<Rightarrow> board \<Rightarrow> pos list \<Rightarrow> fault + board" where
  "forEachPlace f b [] = Inr b"
| "forEachPlace f b (q # qs) =
     (case f b q of Inl e \<Rightarrow> Inl e | Inr b' \<Rightarrow> forEachPlace f b' qs)"

text \<open>
  The argument is \<open>None\<close> for a missing stage, which the source replaces by
  \<^verbatim>\<open>stages[0]\<close>; after that replacement the source's \<^verbatim>\<open>else\<close> branch (the default
  four-disc setup) cannot be reached.
\<close>

definition effectiveSize :: "stage \<Rightarrow> nat" where
  "effectiveSize stageConfig = (if boardSize stageConfig = 0 then 8 else boardSize stageConfig)"

definition createInitialBoard :: "nat \<Rightarrow> stage option \<Rightarrow> fault + board" where
  "createInitialBoard N cfg =
     (let stageConfig = (case cfg of None \<Rightarrow> stages ! 0 | Some s \<Rightarrow> s);
          size = effectiveSize stageConfig;
          newBoard = replicate size (replicate size EMPTY)
      in case forEachPlace (placeBlocked N) newBoard (initialBlocked stageConfig) of
           Inl e \<Rightarrow> Inl e
         | Inr b1 \<Rightarrow>
             (case forEachPlace (placePiece N BLACK) b1 (initialPlayer1 stageConfig) of
                Inl e \<Rightarrow> Inl e
              | Inr b2 \<Rightarrow> forEachPlace (placePiece N WHITE) b2 (initialPlayer2 stageConfig)))"

definition initializeBoard :: "arena \<Rightarrow> stage option \<Rightarrow> bool \<Rightarrow> fault + arena" where
  "initializeBoard st cfg isPreview =
     (let N = (case cfg of None \<Rightarrow> 8 | Some s \<Rightarrow> boardSize s)
      in case createInitialBoard N cfg of
           Inl e \<Rightarrow> Inl e
         | Inr b \<Rightarrow>
             (let st1 = st\<lparr> currentStage := cfg, BOARD_SIZE := N, board := b \<rparr>
              in if \<not> isPreview
                 then Inr (st1\<lparr> currentPlayer := BLACK, gameOver := False, gameRunning := False \<rparr>)
                 else Inr (st1\<lparr> gameOver := True \<rparr>)))"

section \<open>Time used (game-controller.js)\<close>

text \<open>
  The two clocks are JavaScript numbers, that is binary64 values, and
  \<^verbatim>\<open>blackTimeUsed += moveTime\<close> is a floating-point addition: the exact sum, rounded to
  the nearest binary64 value, to the one with an even significand when two are equally
  near. A finite binary64 value is a real number here. \<open>binade x\<close> is the exponent \<open>e\<close>
  with \<open>2^e \<le> \<bar>x\<bar> < 2^(e + 1)\<close>; the binary64 values in that range are the multiples
  of \<open>2^(e - 52)\<close>, and those below \<open>2^(-1022)\<close> are the multiples of \<open>2^(-1074)\<close>. A sum
  of magnitude \<open>2^1024\<close> or more, \<^verbatim>\<open>Infinity\<close> in the source, is outside this model; a
  clock is a sum of elapsed times in milliseconds and stays far below it.
\<close>

definition pow2 :: "int \<Rightarrow> real" where
  "pow2 k = (if 0 \<le> k then 2 ^ nat k else 1 / 2 ^ nat (- k))"

definition binade :: "real \<Rightarrow> int" where
  "binade x =
     (if 1 \<le> \<bar>x\<bar> then bitlen \<lfloor>\<bar>x\<bar>\<rfloor> - 1 else - bitlen (\<lceil>1 / \<bar>x\<bar>\<rceil> - 1))"

definition roundHalfEven :: "real \<Rightarrow> int" where
  "roundHalfEven x =
     (let n = \<lfloor>x\<rfloor>; f = x - of_int n
      in if f < 1 / 2 then n
         else if 1 / 2 < f then n + 1
         else if even n then n else n + 1)"

definition toDouble :: "real \<Rightarrow> real" where
  "toDouble x =
     (if x = 0 then 0
      else
        (let q = pow2 (max (binade x - 52) (- 1074))
         in of_int (roundHalfEven (x / q)) * q))"

definition jsAdd :: "real \<Rightarrow> real \<Rightarrow> real" where
  "jsAdd x y = toDouble (x + y)"

definition timeUsedOf :: "arena \<Rightarrow> player \<Rightarrow> real" where
  "timeUsedOf st p = (if p = BLACK then blackTimeUsed st else whiteTimeUsed st)"

definition addTime :: "arena \<Rightarrow> player \<Rightarrow> real \<Rightarrow> arena" where
  "addTime st p t =
     (if p = BLACK then st\<lparr> blackTimeUsed := jsAdd (blackTimeUsed st) t \<rparr>
      else st\<lparr> whiteTimeUsed := jsAdd (whiteTimeUsed st) t \<rparr>)"

section \<open>Strategies\<close>

text \<open>
  A strategy written as a function of its arguments only: it is called with a copy of
  the board, the player and the list of valid moves, and returns a move or \<^verbatim>\<open>null\<close>
  (\<open>None\<close>), or throws; the extra argument is the value that \<^verbatim>\<open>Math.random()\<close> yields
  to a strategy that draws one. The section on the analysis pipeline takes the
  strategies it registers in this form.
\<close>

datatype call_result = Threw | Returned "pos option"

type_synonym strategy = "board \<Rightarrow> player \<Rightarrow> pos list \<Rightarrow> real \<Rightarrow> call_result"

text \<open>
  What the scheduler calls is foreign code, and the call
  \<^verbatim>\<open>strategyFn(currentBoardState, currentPlayer, validMoves, OthelloCore.makeMove)\<close>
  hands it the array \<^verbatim>\<open>validMoves\<close> itself and the engine's own \<^verbatim>\<open>makeMove\<close>. Every
  call it makes of \<^verbatim>\<open>makeMove\<close> acts on the module state, and every write to the array
  is seen by the scheduler afterwards. So the call is a step on the state: from the
  state, the player, the valid moves and the value of \<^verbatim>\<open>Math.random()\<close> it gives the
  state it leaves, the contents of the array it leaves, and its answer.

  The answer is \<open>Failed\<close> when the call throws, rejects or loses the race against the
  timer (each resolves to \<^verbatim>\<open>null\<close>), and otherwise the value returned: \<open>None\<close> for
  \<^verbatim>\<open>null\<close>, \<^verbatim>\<open>undefined\<close> or another value that counts as false, and
  \<open>Some (row, col)\<close> for any other value, with the values of its properties \<^verbatim>\<open>row\<close>
  and \<^verbatim>\<open>col\<close>. A property is a finite number, \<^verbatim>\<open>null\<close>, or missing
  (\<^verbatim>\<open>undefined\<close>). An element of the array is \<^verbatim>\<open>null\<close> or \<^verbatim>\<open>undefined\<close> (\<open>None\<close>),
  or an object with its two properties.
\<close>

datatype property = Number real | NullValue | Absent

type_synonym jsmove = "(property \<times> property) option"

datatype reply = Failed | Resolved jsmove

type_synonym agent = "arena \<Rightarrow> player \<Rightarrow> pos list \<Rightarrow> real \<Rightarrow> arena \<times> jsmove list \<times> reply"

text \<open>The object \<^verbatim>\<open>{ row: r, col: c }\<close> that \<^verbatim>\<open>getValidMoves\<close> pushes.\<close>

definition moveObject :: "pos \<Rightarrow> jsmove" where
  "moveObject m = Some (Number (of_int (fst m)), Number (of_int (snd m)))"

text \<open>
  A strategy that is a function of its arguments, as the scheduler sees it: the state
  and the array are left as they were.
\<close>

definition played :: "strategy \<Rightarrow> agent" where
  "played f st p validMoves rnd =
     (st, map moveObject validMoves,
      case f (board st) p validMoves rnd of
        Threw \<Rightarrow> Failed
      | Returned None \<Rightarrow> Resolved None
      | Returned (Some m) \<Rightarrow> Resolved (moveObject m))"

text \<open>What the player's selector holds: a human, or the result of \<^verbatim>\<open>getCompiledStrategy\<close>.\<close>

datatype controller = Human | AI "agent option"

section \<open>The engine called with a returned move (game-core.js)\<close>

text \<open>
  \<^verbatim>\<open>isValidMove\<close> and \<^verbatim>\<open>makeMove\<close> both start with
  \<^verbatim>\<open>if (!isWithinBoard(row, col) || board[row][col] !== EMPTY) return false\<close>. With the
  properties of a returned object for \<^verbatim>\<open>row\<close> and \<^verbatim>\<open>col\<close>: in a comparison with a
  number \<^verbatim>\<open>null\<close> counts as 0 and \<^verbatim>\<open>undefined\<close> as \<^verbatim>\<open>NaN\<close>, which fails every
  comparison. \<^verbatim>\<open>board[row]\<close> is a row only when \<^verbatim>\<open>row\<close> is a whole number that is an
  index of the array, and \<^verbatim>\<open>undefined\<close> otherwise; reading \<^verbatim>\<open>[col]\<close> of
  \<^verbatim>\<open>undefined\<close> raises a TypeError. In a row, a \<^verbatim>\<open>col\<close> that is not an index of it
  reads \<^verbatim>\<open>undefined\<close>, which is not \<^verbatim>\<open>EMPTY\<close>.
\<close>

definition atLeastZero :: "property \<Rightarrow> bool" where
  "atLeastZero v = (case v of Number x \<Rightarrow> 0 \<le> x | NullValue \<Rightarrow> True | Absent \<Rightarrow> False)"

definition lessThanSize :: "property \<Rightarrow> nat \<Rightarrow> bool" where
  "lessThanSize v N =
     (case v of Number x \<Rightarrow> x < real N | NullValue \<Rightarrow> 0 < N | Absent \<Rightarrow> False)"

definition isWithinBoardJs :: "nat \<Rightarrow> property \<Rightarrow> property \<Rightarrow> bool" where
  "isWithinBoardJs N r c \<longleftrightarrow>
     atLeastZero r \<and> lessThanSize r N \<and> atLeastZero c \<and> lessThanSize c N"

definition asIndex :: "property \<Rightarrow> nat option" where
  "asIndex v =
     (case v of
        Number x \<Rightarrow> if 0 \<le> x \<and> x = of_int \<lfloor>x\<rfloor> then Some (nat \<lfloor>x\<rfloor>) else None
      | NullValue \<Rightarrow> None
      | Absent \<Rightarrow> None)"

text \<open>
  The guard: \<open>Inl TypeError\<close> where it throws, \<open>Inr None\<close> where it makes the function
  return \<^verbatim>\<open>false\<close>, and \<open>Inr (Some (r, c))\<close> where it lets the call through, with the
  indices of the empty cell.
\<close>

definition guardCell :: "arena \<Rightarrow> property \<Rightarrow> property \<Rightarrow> fault + pos option" where
  "guardCell st row col =
     (if \<not> isWithinBoardJs (BOARD_SIZE st) row col then Inr None
      else
        (case asIndex row of
           None \<Rightarrow> Inl TypeError
         | Some r \<Rightarrow>
             if length (board st) \<le> r then Inl TypeError
             else
               (case asIndex col of
                  None \<Rightarrow> Inr None
                | Some c \<Rightarrow>
                    if cellAt (board st) (int r) (int c) = Some EMPTY
                    then Inr (Some (int r, int c)) else Inr None)))"

definition isValidMoveJs :: "arena \<Rightarrow> property \<Rightarrow> property \<Rightarrow> player \<Rightarrow> fault + bool" where
  "isValidMoveJs st row col p =
     (case guardCell st row col of
        Inl e \<Rightarrow> Inl e
      | Inr None \<Rightarrow> Inr False
      | Inr (Some (r, c)) \<Rightarrow> Inr (isValidMove st r c p (board st)))"

definition makeMoveJs :: "arena \<Rightarrow> property \<Rightarrow> property \<Rightarrow> player \<Rightarrow> fault + arena \<times> bool" where
  "makeMoveJs st row col p =
     (case guardCell st row col of
        Inl e \<Rightarrow> Inl e
      | Inr None \<Rightarrow> Inr (st, False)
      | Inr (Some (r, c)) \<Rightarrow> Inr (makeMove st r c p))"

section \<open>Turn scheduler (game-controller.js)\<close>

text \<open>
  \<^verbatim>\<open>xs[Math.floor(Math.random() * xs.length)]\<close>, with \<open>u\<close> the value of
  \<^verbatim>\<open>Math.random()\<close>; \<open>None\<close> is \<^verbatim>\<open>undefined\<close>.
\<close>

definition pickRandom :: "real \<Rightarrow> 'a list \<Rightarrow> 'a option" where
  "pickRandom u xs =
     (let i = \<lfloor>u * real (length xs)\<rfloor>
      in if 0 \<le> i \<and> nat i < length xs then Some (xs ! nat i) else None)"

text \<open>
  \<^verbatim>\<open>makeMove\<close>, \<^verbatim>\<open>determineNextPlayer\<close>, \<^verbatim>\<open>setCurrentPlayer\<close>: the tail shared by
  \<^verbatim>\<open>makeAIMove\<close> and \<^verbatim>\<open>useFallbackMove\<close>, for a move with whole-number indices and for
  the properties of a move object. The call of \<^verbatim>\<open>makeAIMove\<close> that follows it starts the
  next ply.
\<close>

definition executeMove :: "arena \<Rightarrow> pos \<Rightarrow> player \<Rightarrow> arena" where
  "executeMove st m p =
     (case makeMove st (fst m) (snd m) p of
        (st1, flipped) \<Rightarrow> st1\<lparr> currentPlayer := determineNextPlayer st1 \<rparr>)"

definition executeMoveJs :: "arena \<Rightarrow> property \<times> property \<Rightarrow> player \<Rightarrow> fault + arena" where
  "executeMoveJs st m p =
     (case makeMoveJs st (fst m) (snd m) p of
        Inl e \<Rightarrow> Inl e
      | Inr (st1, flipped) \<Rightarrow> Inr (st1\<lparr> currentPlayer := determineNextPlayer st1 \<rparr>))"

definition passOrEnd :: "arena \<Rightarrow> player \<Rightarrow> arena" where
  "passOrEnd st p =
     (let opponent = (if p = BLACK then WHITE else BLACK)
      in if getValidMoves st opponent (board st) = [] then endGame st None
         else st\<lparr> currentPlayer := opponent \<rparr>)"

text \<open>
  \<^verbatim>\<open>useFallbackMove(player, isTournament)\<close>, with \<open>u'\<close> the value that \<^verbatim>\<open>Math.random()\<close>
  yields in it. The list is a fresh result of \<^verbatim>\<open>getValidMoves\<close>. Reading
  \<^verbatim>\<open>randomMove.row\<close> of an \<^verbatim>\<open>undefined\<close> move raises a TypeError; \<^verbatim>\<open>Math.random()\<close>
  lies in \<open>[0, 1)\<close>, and for such a value the move is defined.
\<close>

definition useFallbackMove :: "arena \<Rightarrow> player \<Rightarrow> real \<Rightarrow> fault + arena" where
  "useFallbackMove st p u' =
     (let validMoves = getValidMoves st p (board st)
      in if validMoves = [] then Inr (passOrEnd st p)
         else
           (let randomStrategyTime = 100;
                st1 = addTime st p randomStrategyTime
            in case checkTimeLimit st1 p (timeUsedOf st1 p) of
                 (st2, exceeded) \<Rightarrow>
                   if exceeded then Inr st2
                   else
                     (case pickRandom u' validMoves of
                        None \<Rightarrow> Inl TypeError
                      | Some randomMove \<Rightarrow> Inr (executeMove st2 randomMove p))))"

text \<open>
  \<^verbatim>\<open>validMoves.some(v => v.row === move.row && v.col === move.col)\<close> for a move that is
  an object: the elements are visited in order up to the first match, and reading
  \<^verbatim>\<open>v.row\<close> of an element that is \<^verbatim>\<open>null\<close> or \<^verbatim>\<open>undefined\<close> raises a TypeError.
\<close>

fun someMatches :: "jsmove list \<Rightarrow> property \<times> property \<Rightarrow> fault + bool" where
  "someMatches [] m = Inr False"
| "someMatches (None # vs) m = Inl TypeError"
| "someMatches (Some v # vs) m =
     (if fst v = fst m \<and> snd v = snd m then Inr True else someMatches vs m)"

text \<open>
  Lines 1838-1867, the choice of \<^verbatim>\<open>actualMove\<close>: the returned move when it is in the
  array, and otherwise, after the diagnostic call of \<^verbatim>\<open>OthelloCore.isValidMove\<close> for a
  move that is an object, the element of the array at the index drawn with \<open>u\<close>. The
  result is \<open>Inl\<close> where an exception is raised, and \<open>Inr None\<close> where the element drawn
  is \<^verbatim>\<open>undefined\<close> or \<^verbatim>\<open>null\<close> (\<^verbatim>\<open>!actualMove\<close>).
\<close>

definition pickElement :: "real \<Rightarrow> jsmove list \<Rightarrow> jsmove" where
  "pickElement u validMoves = (case pickRandom u validMoves of None \<Rightarrow> None | Some e \<Rightarrow> e)"

definition chooseMove ::
  "arena \<Rightarrow> player \<Rightarrow> jsmove list \<Rightarrow> jsmove \<Rightarrow> real \<Rightarrow> fault + jsmove" where
  "chooseMove st p validMoves move u =
     (case move of
        None \<Rightarrow> Inr (pickElement u validMoves)
      | Some m \<Rightarrow>
          (case someMatches validMoves m of
             Inl e \<Rightarrow> Inl e
           | Inr isReturnedMoveInList \<Rightarrow>
               if isReturnedMoveInList then Inr (Some m)
               else
                 (case isValidMoveJs st (fst m) (snd m) p of
                    Inl e \<Rightarrow> Inl e
                  | Inr info \<Rightarrow> Inr (pickElement u validMoves))))"

text \<open>
  The \<^verbatim>\<open>catch\<close> block of the deferred body (lines 1901-1920): the time check, then
  \<^verbatim>\<open>useFallbackMove\<close>.
\<close>

definition recover :: "arena \<Rightarrow> player \<Rightarrow> real \<Rightarrow> fault + arena" where
  "recover st p u' =
     (case checkTimeLimit st p (timeUsedOf st p) of
        (st1, exceeded) \<Rightarrow> if exceeded then Inr st1 else useFallbackMove st1 p u')"

text \<open>
  The deferred body of \<^verbatim>\<open>makeAIMove\<close>. The strategy is called first; \<open>moveTime\<close> is the
  elapsed time measured around the race; \<open>u\<close> is the value that \<^verbatim>\<open>Math.random()\<close>
  yields at line 1858 and \<open>u'\<close> the value it yields in \<^verbatim>\<open>useFallbackMove\<close>, where the
  ply gets there. An exception of the \<^verbatim>\<open>try\<close> block comes from the choice of the move
  or from the guard of \<^verbatim>\<open>makeMove\<close>, and is raised before the state is changed, so the
  \<^verbatim>\<open>catch\<close> block starts from the state after the time check. \<open>useFallbackMove\<close>
  raises none for a value of \<^verbatim>\<open>Math.random()\<close> in \<open>[0, 1)\<close>; its \<open>Inl\<close> for a value
  outside that range is passed on.
\<close>

definition aiTurn ::
  "arena \<Rightarrow> player \<Rightarrow> pos list \<Rightarrow> agent \<Rightarrow> real \<Rightarrow> real \<Rightarrow> real \<Rightarrow> real \<Rightarrow> fault + arena" where
  "aiTurn st p validMoves strategyFn rnd moveTime u u' =
     (if \<not> gameRunning st \<or> gameOver st then Inr st
      else
        (case strategyFn st p validMoves rnd of
           (st0, validMoves', answer) \<Rightarrow>
             (let move = (case answer of Failed \<Rightarrow> None | Resolved m \<Rightarrow> m);
                  st1 = addTime st0 p moveTime
              in case checkTimeLimit st1 p (timeUsedOf st1 p) of
                   (st2, exceeded) \<Rightarrow>
                     if exceeded then Inr st2
                     else
                       (case chooseMove st2 p validMoves' move u of
                          Inl e \<Rightarrow> recover st2 p u'
                        | Inr None \<Rightarrow> useFallbackMove st2 p u'
                        | Inr (Some actualMove) \<Rightarrow>
                            (case executeMoveJs st2 actualMove p of
                               Inl e \<Rightarrow> recover st2 p u'
                             | Inr st3 \<Rightarrow> Inr st3)))))"

text \<open>One ply of \<^verbatim>\<open>makeAIMove\<close>, up to the call that starts the next one.\<close>

definition makeAIMove ::
  "arena \<Rightarrow> (player \<Rightarrow> controller) \<Rightarrow> real \<Rightarrow> real \<Rightarrow> real \<Rightarrow> real \<Rightarrow> fault + arena" where
  "makeAIMove st controllerOf rnd moveTime u u' =
     (if \<not> gameRunning st \<or> gameOver st then Inr st
      else
        (let p = currentPlayer st
         in case controllerOf p of
              Human \<Rightarrow> Inr st
            | AI None \<Rightarrow> useFallbackMove st p u'
            | AI (Some strategyFn) \<Rightarrow>
                (let validMoves = getValidMoves st p (board st)
                 in if validMoves = [] then Inr (passOrEnd st p)
                    else aiTurn st p validMoves strategyFn rnd moveTime u u')))"

section \<open>Uploads and the analysis pipeline (strategies.js, app.js, intelligent-system-loader.js)\<close>

text \<open>\<^verbatim>\<open>s.includes(sub)\<close>: \<open>sub\<close> occurs in \<open>s\<close> as a contiguous run of characters.\<close>

definition includesText :: "string \<Rightarrow> string \<Rightarrow> bool" where
  "includesText s sub \<longleftrightarrow> sublist sub s"

text \<open>\<^verbatim>\<open>file.name.replace(/\.js$/, '')\<close>.\<close>

definition stripJs :: "string \<Rightarrow> string" where
  "stripJs fileName =
     (if suffix ''.js'' fileName then take (length fileName - 3) fileName else fileName)"

text \<open>
  \<^verbatim>\<open>name.replace(/\s+/g, '_')\<close> on the ASCII white space characters: every maximal run
  becomes one underscore.
\<close>

definition isSpace :: "char \<Rightarrow> bool" where
  "isSpace ch \<longleftrightarrow> ch \<in> set [CHR '' '', CHR 0x09, CHR 0x0A, CHR 0x0B, CHR 0x0C, CHR 0x0D]"

function replaceSpaces :: "string \<Rightarrow> string" where
  "replaceSpaces [] = []"
| "replaceSpaces (x # xs) =
     (if isSpace x then CHR ''_'' # replaceSpaces (dropWhile isSpace xs)
      else x # replaceSpaces xs)"
  by pat_completeness auto
termination
  by (relation "measure length") (auto simp: length_dropWhile_le less_Suc_eq_le)

text \<open>
  A saved strategy is a source text: one that a user uploaded, or the wrapper
  \<^verbatim>\<open>studentStrategy\<close> that the analysis pipeline writes for an entry of
  \<^verbatim>\<open>window.compiledIntelligentSystems\<close>.
\<close>

datatype source = Uploaded string | Generated string

record sandbox =
  savedStrategies :: "string \<rightharpoonup> source"
  compiledIntelligentSystems :: "string \<rightharpoonup> strategy"

datatype upload_error =
    EmptyFileOrInvalidName
  | MustImplementStudentStrategy
  | DoNotUploadIntelligentSystem
  | NoSystemCode
  | MustImplementAnalyzeStage
  | FailedToExtractAnalyzeStage
  | AnalysisThrewError

text \<open>The body of \<^verbatim>\<open>reader.onload\<close> in \<^verbatim>\<open>importStrategiesFromFiles\<close>, for one file.\<close>

definition importStrategyFile :: "sandbox \<Rightarrow> string \<Rightarrow> string \<Rightarrow> upload_error + sandbox" where
  "importStrategyFile sb fileName code =
     (let name = stripJs fileName
      in if code = [] \<or> name = [] then Inl EmptyFileOrInvalidName
         else if \<not> includesText code ''studentStrategy'' \<and> \<not> includesText code ''function(''
           then Inl MustImplementStudentStrategy
         else if includesText code ''analyzeStage'' then Inl DoNotUploadIntelligentSystem
         else Inr (sb\<lparr> savedStrategies := (savedStrategies sb)(name \<mapsto> Uploaded code) \<rparr>))"

text \<open>What the analysis function returned, by \<^verbatim>\<open>typeof\<close>.\<close>

datatype js_value =
    JsUndefined | JsNull | JsBoolean bool | JsNumber real | JsString string | JsObject
  | JsFunction strategy

datatype analysis_result = AnalysisThrew | AnalysisReturned js_value

definition fallbackStrategy :: strategy where
  "fallbackStrategy b p validMoves rnd =
     (if validMoves = [] then Returned None else Returned (pickRandom rnd validMoves))"

definition generatedStrategyName :: "string \<Rightarrow> stage \<Rightarrow> string" where
  "generatedStrategyName systemName stageConfig =
     ''intelligent_'' @ systemName @ ''_'' @ replaceSpaces (name stageConfig)"

text \<open>
  \<^verbatim>\<open>analyzeStageWithSystem\<close>. \<open>compiled\<close> says whether \<^verbatim>\<open>compileSystem\<close> extracted a
  function from the text, and \<open>run\<close> is what calling that function on the stage did;
  \<open>Inl\<close> is the source's \<^verbatim>\<open>return false\<close> with the error it reports.
\<close>

definition analyzeStageWithSystem ::
  "sandbox \<Rightarrow> string \<Rightarrow> stage \<Rightarrow> string \<Rightarrow> bool \<Rightarrow> analysis_result \<Rightarrow> upload_error + sandbox" where
  "analyzeStageWithSystem sb systemName stageConfig systemCode compiled run =
     (if systemCode = [] then Inl NoSystemCode
      else if \<not> includesText systemCode ''function analyzeStage''
              \<and> \<not> includesText systemCode ''analyzeStage ='' then Inl MustImplementAnalyzeStage
      else if \<not> compiled then Inl FailedToExtractAnalyzeStage
      else
        (case run of
           AnalysisThrew \<Rightarrow> Inl AnalysisThrewError
         | AnalysisReturned result \<Rightarrow>
             (let strategyFunction =
                    (case result of JsFunction f \<Rightarrow> f | _ \<Rightarrow> fallbackStrategy);
                  generated = generatedStrategyName systemName stageConfig
              in Inr (sb\<lparr> compiledIntelligentSystems :=
                             (compiledIntelligentSystems sb)(generated \<mapsto> strategyFunction),
                          savedStrategies :=
                             (savedStrategies sb)(generated \<mapsto> Generated generated) \<rparr>))))"

text \<open>The body of \<^verbatim>\<open>reader.onload\<close> in \<^verbatim>\<open>uploadIntelligentSystem\<close>.\<close>

definition uploadIntelligentSystem ::
  "sandbox \<Rightarrow> string \<Rightarrow> string \<Rightarrow> stage \<Rightarrow> bool \<Rightarrow> analysis_result \<Rightarrow> upload_error + sandbox" where
  "uploadIntelligentSystem sb fileName code stageConfig compiled run =
     (let systemName = stripJs fileName
      in if \<not> includesText code ''function analyzeStage'' \<and> \<not> includesText code ''analyzeStage =''
         then Inl MustImplementAnalyzeStage
         else analyzeStageWithSystem sb systemName stageConfig code compiled run)"

text \<open>
  The wrapper \<^verbatim>\<open>studentStrategy\<close> saved under the generated name: it looks the compiled
  function up, calls it, and answers with the first valid move (or \<^verbatim>\<open>null\<close>) when the
  entry is missing or the call throws.
\<close>

definition firstOrNull :: "pos list \<Rightarrow> pos option" where
  "firstOrNull validMoves = (case validMoves of [] \<Rightarrow> None | v # _ \<Rightarrow> Some v)"

definition generatedStudentStrategy :: "sandbox \<Rightarrow> string \<Rightarrow> strategy" where
  "generatedStudentStrategy sb generated b p validMoves rnd =
     (case compiledIntelligentSystems sb generated of
        None \<Rightarrow> Returned (firstOrNull validMoves)
      | Some f \<Rightarrow>
          (case f b p validMoves rnd of
             Threw \<Rightarrow> Returned (firstOrNull validMoves)
           | Returned m \<Rightarrow> Returned m))"

section \<open>Notions used to state the properties\<close>

definition rowMajorBefore :: "pos \<Rightarrow> pos \<Rightarrow> bool" where
  "rowMajorBefore a b \<longleftrightarrow> fst a < fst b \<or> (fst a = fst b \<and> snd a < snd b)"

text \<open>
  A cell by its position, and the \<open>i\<close>-th cell of the scan that starts next to
  \<open>(row, col)\<close> and runs in direction \<open>d\<close>.
\<close>

definition cellOf :: "board \<Rightarrow> pos \<Rightarrow> cell option" where
  "cellOf b q = cellAt b (fst q) (snd q)"

definition onBoard :: "nat \<Rightarrow> pos \<Rightarrow> bool" where
  "onBoard N q \<longleftrightarrow> isWithinBoard N (fst q) (snd q)"

definition rayCell :: "int \<Rightarrow> int \<Rightarrow> direction \<Rightarrow> nat \<Rightarrow> pos" where
  "rayCell row col d i = (row + int i * dr d, col + int i * dc d)"

text \<open>
  Board \<open>b'\<close> differs from board \<open>b\<close> at most in cells that held a disc of the opponent
  of \<open>p\<close> and now hold a disc of \<open>p\<close>.
\<close>

definition flippedOnly :: "player \<Rightarrow> nat \<Rightarrow> board \<Rightarrow> board \<Rightarrow> bool" where
  "flippedOnly p N b b' \<longleftrightarrow>
     wf_board N b'
     \<and> (\<forall>q. onBoard N q \<longrightarrow>
           cellOf b' q = cellOf b q
           \<or> (cellOf b q = Some (Disc (opponentOf p)) \<and> cellOf b' q = Some (Disc p)))"

text \<open>An upload or an analysis is accepted when it ends without an error.\<close>

definition accepted :: "'e + 'a \<Rightarrow> bool" where
  "accepted res \<longleftrightarrow> \<not> isl res"

definition discsOf :: "player \<Rightarrow> board \<Rightarrow> nat" where
  "discsOf p b = count_list (concat b) (Disc p)"

section \<open>Example positions\<close>

text \<open>The opening position of the stage "Standard 8x8", with Black to move.\<close>

definition standardBoard :: board where
  "standardBoard =
     [ replicate 8 EMPTY, replicate 8 EMPTY, replicate 8 EMPTY,
       [EMPTY, EMPTY, EMPTY, Disc WHITE, Disc BLACK, EMPTY, EMPTY, EMPTY],
       [EMPTY, EMPTY, EMPTY, Disc BLACK, Disc WHITE, EMPTY, EMPTY, EMPTY],
       replicate 8 EMPTY, replicate 8 EMPTY, replicate 8 EMPTY ]"

definition standardArena :: arena where
  "standardArena =
     \<lparr> board = standardBoard, BOARD_SIZE = 8, currentStage = Some (stages ! 0),
       currentPlayer = BLACK, gameRunning = True, gameOver = False,
       blackTimeUsed = 0, whiteTimeUsed = 0, moves = [], capturedCounts = [],
       previousGames = [], status = None \<rparr>"

text \<open>
  The position after Black has opened at row 2, column 3, with White to move; the same
  with 9950 ms already on White's clock; and a strategy that returns the first valid
  move.
\<close>

definition afterOpening :: arena where
  "afterOpening = executeMove standardArena (2, 3) BLACK"

definition openedBoard :: board where
  "openedBoard =
     [ replicate 8 EMPTY, replicate 8 EMPTY,
       [EMPTY, EMPTY, EMPTY, Disc BLACK, EMPTY, EMPTY, EMPTY, EMPTY],
       [EMPTY, EMPTY, EMPTY, Disc BLACK, Disc BLACK, EMPTY, EMPTY, EMPTY],
       [EMPTY, EMPTY, EMPTY, Disc BLACK, Disc WHITE, EMPTY, EMPTY, EMPTY],
       replicate 8 EMPTY, replicate 8 EMPTY, replicate 8 EMPTY ]"

definition whiteNearlyOut :: arena where
  "whiteNearlyOut = afterOpening\<lparr> whiteTimeUsed := 9950 \<rparr>"

definition firstMoveStrategy :: strategy where
  "firstMoveStrategy b p validMoves rnd = Returned (firstOrNull validMoves)"

text \<open>
  The same stage with the rule \<open>fewerPiecesContinue\<close> switched on, and three positions on
  it: Black has fewer discs and is to move, White has fewer discs and is to move, and the
  counts are equal.
\<close>

definition fewerStage :: stage where
  "fewerStage = (stages ! 0)\<lparr> fewerPiecesContinue := True \<rparr>"

definition blackBehind :: arena where
  "blackBehind =
     standardArena\<lparr> currentStage := Some fewerStage,
       board := standardBoard[2 := [EMPTY, EMPTY, EMPTY, Disc WHITE, EMPTY, EMPTY, EMPTY, EMPTY]] \<rparr>"

definition whiteBehind :: arena where
  "whiteBehind =
     standardArena\<lparr> currentStage := Some fewerStage, currentPlayer := WHITE,
       board := standardBoard[2 := [EMPTY, EMPTY, EMPTY, Disc BLACK, EMPTY, EMPTY, EMPTY, EMPTY]] \<rparr>"

definition level :: arena where
  "level = standardArena\<lparr> currentStage := Some fewerStage \<rparr>"

text \<open>
  A position under the same rule in which Black, to move, has one disc against six; the
  move at row 0, column 2 flips one disc, and Black is still behind after it.
\<close>

definition blackFarBehind :: arena where
  "blackFarBehind =
     standardArena\<lparr> currentStage := Some fewerStage,
       board :=
         [ [Disc BLACK, Disc WHITE, EMPTY, EMPTY, EMPTY, EMPTY, EMPTY, EMPTY],
           replicate 8 EMPTY, replicate 8 EMPTY, replicate 8 EMPTY, replicate 8 EMPTY,
           replicate 8 EMPTY, replicate 8 EMPTY,
           [Disc WHITE, Disc WHITE, Disc WHITE, Disc WHITE, Disc WHITE, EMPTY, EMPTY, EMPTY] ] \<rparr>"

text \<open>
  A 6x6 stage with \<open>ignoreOcclusion\<close> on. In row 2, from left to right: an empty cell,
  two white discs, a blocked cell, a white disc, a black disc. The second position is
  the same board under a stage with the rule off.
\<close>

definition occlusionStage :: stage where
  "occlusionStage =
     \<lparr> name = ''Occlusion'', boardSize = 6, initialBlocked = [(2, 3)],
       initialPlayer1 = [(2, 5)], initialPlayer2 = [(2, 1), (2, 2), (2, 4)],
       ignoreOcclusion = True, fewerPiecesContinue = False \<rparr>"

definition occlusionBoard :: board where
  "occlusionBoard =
     [ replicate 6 EMPTY, replicate 6 EMPTY,
       [EMPTY, Disc WHITE, Disc WHITE, BLOCKED, Disc WHITE, Disc BLACK],
       replicate 6 EMPTY, replicate 6 EMPTY, replicate 6 EMPTY ]"

definition occlusionArena :: arena where
  "occlusionArena =
     \<lparr> board = occlusionBoard, BOARD_SIZE = 6, currentStage = Some occlusionStage,
       currentPlayer = BLACK, gameRunning = True, gameOver = False,
       blackTimeUsed = 0, whiteTimeUsed = 0, moves = [], capturedCounts = [],
       previousGames = [], status = None \<rparr>"

definition plainArena :: arena where
  "plainArena =
     occlusionArena\<lparr> currentStage := Some (occlusionStage\<lparr> ignoreOcclusion := False \<rparr>) \<rparr>"

text \<open>A strategy that always returns \<^verbatim>\<open>null\<close>, playing both colours.\<close>

definition nullStrategy :: strategy where
  "nullStrategy b p validMoves rnd = Returned None"

definition nullPlayers :: "player \<Rightarrow> controller" where
  "nullPlayers p = AI (Some (played nullStrategy))"

text \<open>
  A strategy that calls the \<^verbatim>\<open>makeMove\<close> it is handed, at row 2, column 3, and then
  returns \<^verbatim>\<open>null\<close>; a strategy that returns \<^verbatim>\<open>{ row: 2.5, col: 3 }\<close>; and the opening
  position with 9950 ms already on Black's clock.
\<close>

definition eagerStrategy :: agent where
  "eagerStrategy st p validMoves rnd =
     (fst (makeMove st 2 3 p), map moveObject validMoves, Resolved None)"

definition eagerPlayers :: "player \<Rightarrow> controller" where
  "eagerPlayers p = AI (Some eagerStrategy)"

definition halfRowStrategy :: agent where
  "halfRowStrategy st p validMoves rnd =
     (st, map moveObject validMoves, Resolved (Some (Number (5 / 2), Number 3)))"

definition halfRowPlayers :: "player \<Rightarrow> controller" where
  "halfRowPlayers p = AI (Some halfRowStrategy)"

definition blackNearlyOut :: arena where
  "blackNearlyOut = standardArena\<lparr> blackTimeUsed := 9950 \<rparr>"

text \<open>
  An empty registry; two uploads, a strategy file without the name \<open>studentStrategy\<close>
  and an analysis file that uses it; the strategy that the second one returns; and the
  registry after an analysis that returned \<^verbatim>\<open>null\<close>.
\<close>

definition emptySandbox :: sandbox where
  "emptySandbox = \<lparr> savedStrategies = Map.empty, compiledIntelligentSystems = Map.empty \<rparr>"

definition anonymousCode :: string where
  "anonymousCode = ''var f = function(b, p, v) { return v[0]; };''"

definition namedAnalysisCode :: string where
  "namedAnalysisCode =
     ''function analyzeStage(s, b, v, api) { return function studentStrategy(b, p, v) { return v[0]; }; }''"

definition nullAnalysisCode :: string where
  "nullAnalysisCode = ''function analyzeStage(s, b, v, api) { return null; }''"

definition analysedNull :: sandbox where
  "analysedNull =
     projr (analyzeStageWithSystem emptySandbox ''sys'' (stages ! 0) nullAnalysisCode True
              (AnalysisReturned JsNull))"


section \<open>Legal moves\<close>

lemma standard_start: "createInitialBoard 8 (Some (stages ! 0)) = Inr standardBoard"
  by code_simp

lemma standard_black_moves:
  "getValidMoves standardArena BLACK standardBoard = [(2, 3), (3, 2), (4, 5), (5, 4)]"
  by code_simp

lemma isValidMove_within:
  "isValidMove st r c p b \<Longrightarrow> isWithinBoard (BOARD_SIZE st) r c"
  by (auto simp: isValidMove_def split: if_splits)

lemma isValidMove_empty:
  "isValidMove st r c p b \<Longrightarrow> cellAt b r c = Some EMPTY"
  by (auto simp: isValidMove_def split: if_splits)

lemma in_concat_mapI:
  "x \<in> set xs \<Longrightarrow> a \<in> set (f x) \<Longrightarrow> a \<in> set (concat (map f xs))"
  by auto

lemma set_getValidMoves:
  "(r, c) \<in> set (getValidMoves st p b) \<longleftrightarrow>
     0 \<le> r \<and> r < int (length b) \<and> 0 \<le> c \<and> c < int (length b) \<and> isValidMove st r c p b"
proof
  assume "(r, c) \<in> set (getValidMoves st p b)"
  then show "0 \<le> r \<and> r < int (length b) \<and> 0 \<le> c \<and> c < int (length b)
      \<and> isValidMove st r c p b"
    by (auto simp: getValidMoves_def Let_def split: if_splits)
next
  assume a: "0 \<le> r \<and> r < int (length b) \<and> 0 \<le> c \<and> c < int (length b)
      \<and> isValidMove st r c p b"
  define i j where "i = nat r" and "j = nat c"
  with a have ij: "i < length b" "j < length b" "r = int i" "c = int j"
    by auto
  with a have v: "isValidMove st (int i) (int j) p b"
    by simp
  have inner: "(int i, int j) \<in> set (concat (map (\<lambda>c.
           if isValidMove st (int i) (int c) p b then [(int i, int c)] else [])
           [0..<length b]))"
    using ij(2) v by auto
  have "(int i, int j) \<in> set (getValidMoves st p b)"
    unfolding getValidMoves_def Let_def
    by (rule in_concat_mapI [where x = i]) (use ij(1) inner in simp_all)
  then show "(r, c) \<in> set (getValidMoves st p b)"
    using ij by simp
qed

lemma sorted_wrt_concat_blocks:
  assumes "\<And>x. x \<in> set xs \<Longrightarrow> sorted_wrt R (f x)"
    and "sorted_wrt (\<lambda>x y. \<forall>a\<in>set (f x). \<forall>b\<in>set (f y). R a b) xs"
  shows "sorted_wrt R (concat (map f xs))"
  using assms by (induction xs) (auto simp: sorted_wrt_append)

lemma sorted_wrt_upt_rel:
  assumes "\<And>i j. i < j \<Longrightarrow> j < n \<Longrightarrow> Q i j"
  shows "sorted_wrt Q [0..<n]"
  using assms by (simp add: sorted_wrt_iff_nth_less)

lemma sorted_getValidMoves: "sorted_wrt rowMajorBefore (getValidMoves st p b)"
  unfolding getValidMoves_def Let_def
proof (rule sorted_wrt_concat_blocks)
  fix r
  show "sorted_wrt rowMajorBefore (concat (map (\<lambda>c.
           if isValidMove st (int r) (int c) p b then [(int r, int c)] else [])
           [0..<length b]))"
    by (rule sorted_wrt_concat_blocks)
       (auto intro!: sorted_wrt_upt_rel simp: rowMajorBefore_def)
next
  show "sorted_wrt (\<lambda>x y. \<forall>a\<in>set (concat (map (\<lambda>c.
           if isValidMove st (int x) (int c) p b then [(int x, int c)] else [])
           [0..<length b])). \<forall>ba\<in>set (concat (map (\<lambda>c.
           if isValidMove st (int y) (int c) p b then [(int y, int c)] else [])
           [0..<length b])). rowMajorBefore a ba) [0..<length b]"
    by (rule sorted_wrt_upt_rel) (auto simp: rowMajorBefore_def split: if_splits)
qed

text \<open>
  Claim C4. On a board that has as many rows as \<open>BOARD_SIZE\<close>, the list that
  \<open>getValidMoves\<close> returns holds exactly the coordinates that \<open>isValidMove\<close> accepts:
  every listed coordinate is accepted and every accepted coordinate is listed. The list
  is in row-major order: each entry comes strictly before the next, by row and then by
  column, so it starts at the top left, ends at the bottom right and repeats nothing.
\<close>

theorem getValidMoves_consistent:
  assumes "length b = BOARD_SIZE st"
  shows "(\<forall>r c. (r, c) \<in> set (getValidMoves st p b) \<longleftrightarrow> isValidMove st r c p b)
         \<and> sorted_wrt rowMajorBefore (getValidMoves st p b)"
  using assms isValidMove_within [of st _ _ p b]
  by (auto simp: set_getValidMoves sorted_getValidMoves isWithinBoard_def)

theorem getValidMoves_consistent_witness:
  "length standardBoard = BOARD_SIZE standardArena
   \<and> (\<forall>r c. (r, c) \<in> set (getValidMoves standardArena BLACK standardBoard)
          \<longleftrightarrow> isValidMove standardArena r c BLACK standardBoard)
   \<and> sorted_wrt rowMajorBefore (getValidMoves standardArena BLACK standardBoard)"
proof -
  have h: "length standardBoard = BOARD_SIZE standardArena"
    by (simp add: standardBoard_def standardArena_def)
  show ?thesis
    using h getValidMoves_consistent [OF h, of BLACK] by blast
qed

section \<open>Applying a move\<close>

text \<open>
  Claim C1. The claim is that \<open>makeMove\<close> leaves the board as it was whenever the move is
  illegal. On the opening position of the standard stage, Black at row 0, column 0 is not
  a legal move: the cell is empty and nothing is bracketed. \<open>makeMove\<close> returns
  \<open>False\<close> for it, and has put a black disc on the cell: the board is not the one it was.
\<close>

theorem makeMove_illegal_changes_board:
  "\<not> isValidMove standardArena 0 0 BLACK (board standardArena)
   \<and> snd (makeMove standardArena 0 0 BLACK) = False
   \<and> cellAt (board standardArena) 0 0 = Some EMPTY
   \<and> cellAt (board (fst (makeMove standardArena 0 0 BLACK))) 0 0 = Some (Disc BLACK)
   \<and> board (fst (makeMove standardArena 0 0 BLACK)) \<noteq> board standardArena"
  by code_simp

theorem makeMove_illegal_changes_board_witness:
  "board (fst (makeMove standardArena 0 0 BLACK)) \<noteq> board standardArena"
  using makeMove_illegal_changes_board by simp

text \<open>
  What does hold: a move onto a cell that is off the board or not empty changes nothing.
\<close>

lemma makeMove_rejected:
  "\<not> isWithinBoard (BOARD_SIZE st) row col \<or> cellAt (board st) row col \<noteq> Some EMPTY
     \<Longrightarrow> makeMove st row col p = (st, False)"
  by (simp add: makeMove_def)

section \<open>The next player\<close>

lemma countDiscs_foldl:
  "foldl (\<lambda>(black, white) x.
              if x = Disc BLACK then (black + 1, white)
              else if x = Disc WHITE then (black, white + 1)
              else (black, white)) (k, w) xs
   = (k + count_list xs (Disc BLACK), w + count_list xs (Disc WHITE))"
  by (induction xs arbitrary: k w) auto

lemma countDiscs_eq: "countDiscs b = (discsOf BLACK b, discsOf WHITE b)"
  by (simp add: countDiscs_def discsOf_def countDiscs_foldl)

lemma example_counts:
  "discsOf BLACK (board blackBehind) = 2" "discsOf WHITE (board blackBehind) = 3"
  "discsOf BLACK (board whiteBehind) = 3" "discsOf WHITE (board whiteBehind) = 2"
  "discsOf BLACK (board level) = 2" "discsOf WHITE (board level) = 2"
  by code_simp+

lemma makeMove_keeps:
  "currentPlayer (fst (makeMove st row col p)) = currentPlayer st"
  "stageOf (fst (makeMove st row col p)) = stageOf st"
  by (auto simp: makeMove_def stageOf_def Let_def split: prod.splits)

lemma example_after_move:
  "fewerPiecesContinue (stageOf blackFarBehind)" "currentPlayer blackFarBehind = BLACK"
  "isValidMove blackFarBehind 0 2 BLACK (board blackFarBehind)"
  "discsOf BLACK (board (fst (makeMove blackFarBehind 0 2 BLACK))) = 3"
  "discsOf WHITE (board (fst (makeMove blackFarBehind 0 2 BLACK))) = 5"
  by code_simp+

lemma example_stages:
  "\<not> fewerPiecesContinue (stageOf standardArena)"
  "fewerPiecesContinue (stageOf blackBehind)"
  "fewerPiecesContinue (stageOf whiteBehind)"
  "fewerPiecesContinue (stageOf level)"
  "currentPlayer standardArena = BLACK" "currentPlayer blackBehind = BLACK"
  "currentPlayer whiteBehind = WHITE" "currentPlayer level = BLACK"
  by code_simp+

text \<open>
  Claim C5. With the rule \<open>fewerPiecesContinue\<close> off, \<open>determineNextPlayer\<close> returns the
  opponent of the current player. With the rule on, it returns the player who has
  strictly fewer discs on the board, and the opponent of the current player when both
  have the same number. The scheduler calls it right after \<open>makeMove\<close>, while the mover
  is still the current player: when the mover's discs on the resulting board are
  strictly fewer than the opponent's, it returns the mover.
\<close>

theorem determineNextPlayer_rule:
  "(\<not> fewerPiecesContinue (stageOf st) \<longrightarrow>
      determineNextPlayer st = opponentOf (currentPlayer st))
   \<and> (fewerPiecesContinue (stageOf st) \<longrightarrow>
        (discsOf BLACK (board st) < discsOf WHITE (board st) \<longrightarrow> determineNextPlayer st = BLACK)
      \<and> (discsOf WHITE (board st) < discsOf BLACK (board st) \<longrightarrow> determineNextPlayer st = WHITE)
      \<and> (discsOf BLACK (board st) = discsOf WHITE (board st) \<longrightarrow>
            determineNextPlayer st = opponentOf (currentPlayer st))
      \<and> (discsOf (currentPlayer st) (board st) < discsOf (opponentOf (currentPlayer st)) (board st)
            \<longrightarrow> determineNextPlayer st = currentPlayer st)
      \<and> (discsOf (currentPlayer st) (board (fst (makeMove st row col (currentPlayer st))))
            < discsOf (opponentOf (currentPlayer st))
                (board (fst (makeMove st row col (currentPlayer st))))
            \<longrightarrow> determineNextPlayer (fst (makeMove st row col (currentPlayer st)))
                  = currentPlayer st))"
  by (cases "currentPlayer st")
     (auto simp: determineNextPlayer_def countDiscs_eq opponentOf_def makeMove_keeps)

theorem determineNextPlayer_rule_witness:
  "(\<not> fewerPiecesContinue (stageOf standardArena)
      \<and> determineNextPlayer standardArena = WHITE)
   \<and> (fewerPiecesContinue (stageOf blackBehind)
      \<and> discsOf BLACK (board blackBehind) < discsOf WHITE (board blackBehind)
      \<and> currentPlayer blackBehind = BLACK
      \<and> determineNextPlayer blackBehind = BLACK)
   \<and> (fewerPiecesContinue (stageOf whiteBehind)
      \<and> discsOf WHITE (board whiteBehind) < discsOf BLACK (board whiteBehind)
      \<and> currentPlayer whiteBehind = WHITE
      \<and> determineNextPlayer whiteBehind = WHITE)
   \<and> (fewerPiecesContinue (stageOf level)
      \<and> discsOf BLACK (board level) = discsOf WHITE (board level)
      \<and> currentPlayer level = BLACK
      \<and> determineNextPlayer level = WHITE)
   \<and> (fewerPiecesContinue (stageOf blackFarBehind)
      \<and> isValidMove blackFarBehind 0 2 BLACK (board blackFarBehind)
      \<and> discsOf BLACK (board (fst (makeMove blackFarBehind 0 2 BLACK)))
          < discsOf WHITE (board (fst (makeMove blackFarBehind 0 2 BLACK)))
      \<and> determineNextPlayer (fst (makeMove blackFarBehind 0 2 BLACK)) = BLACK)"
  using determineNextPlayer_rule [of standardArena] determineNextPlayer_rule [of blackBehind]
    determineNextPlayer_rule [of whiteBehind] determineNextPlayer_rule [of level]
    determineNextPlayer_rule [of blackFarBehind 0 2]
  by (simp add: example_counts example_stages example_after_move opponentOf_def)

section \<open>Rounding\<close>

text \<open>\<open>binade\<close> is the whole part of the logarithm to base 2.\<close>

lemma pow2_powr: "pow2 k = 2 powr (real_of_int k)"
  by (simp add: pow2_def powr_int)

lemma binade_log:
  assumes "x \<noteq> 0"
  shows "binade x = \<lfloor>log 2 \<bar>x\<bar>\<rfloor>"
proof (cases "1 \<le> \<bar>x\<bar>")
  case True
  define n where "n = \<lfloor>\<bar>x\<bar>\<rfloor>"
  have n: "1 \<le> n" "of_int n \<le> \<bar>x\<bar>" "\<bar>x\<bar> < of_int n + 1"
    using True by (auto simp: n_def le_floor_iff)
  define k where "k = bitlen n - 1"
  have k0: "0 \<le> k"
    using n(1) bitlen_bounds [of n] by (cases "bitlen n \<le> 0") (auto simp: k_def)
  have b: "2 ^ nat k \<le> n" "n < 2 ^ nat (k + 1)"
    using bitlen_bounds [of n] n(1) by (auto simp: k_def)
  have lo: "2 powr (real_of_int k) \<le> \<bar>x\<bar>"
  proof -
    have "2 powr (real_of_int k) = real_of_int (2 ^ nat k)"
      using k0 by (simp add: powr_int)
    also have "\<dots> \<le> real_of_int n" using b(1) by linarith
    finally show ?thesis using n(2) by linarith
  qed
  have hi: "\<bar>x\<bar> < 2 powr (real_of_int (k + 1))"
  proof -
    have "n + 1 \<le> 2 ^ nat (k + 1)" using b(2) by linarith
    then have "real_of_int (n + 1) \<le> real_of_int (2 ^ nat (k + 1))" by linarith
    moreover have "2 powr (real_of_int (k + 1)) = real_of_int (2 ^ nat (k + 1))"
      using k0 powr_int [of 2 "k + 1"] by simp
    ultimately show ?thesis using n(3) by simp
  qed
  have "\<lfloor>log 2 \<bar>x\<bar>\<rfloor> = k"
    using lo hi assms floor_log_eq_powr_iff [of "\<bar>x\<bar>" 2 k] by simp
  then show ?thesis using True by (simp add: binade_def k_def n_def)
next
  case False
  define y where "y = 1 / \<bar>x\<bar>"
  have x: "0 < \<bar>x\<bar>" "\<bar>x\<bar> < 1" using assms False by auto
  have y: "1 < y" using x by (simp add: y_def)
  define m where "m = \<lceil>y\<rceil> - 1"
  have m: "1 \<le> m" "of_int m < y" "y \<le> of_int m + 1"
  proof -
    show "1 \<le> m" using y by (simp add: m_def less_ceiling_iff)
    show "of_int m < y" unfolding m_def by linarith
    show "y \<le> of_int m + 1" unfolding m_def by linarith
  qed
  define j where "j = bitlen m"
  have j1: "1 \<le> j"
    using m(1) bitlen_bounds [of m] by (cases "bitlen m \<le> 0") (auto simp: j_def)
  have b: "2 ^ nat (j - 1) \<le> m" "m < 2 ^ nat j"
    using bitlen_bounds [of m] m(1) by (auto simp: j_def)
  have p1: "2 powr (real_of_int (- j)) = 1 / real_of_int (2 ^ nat j)"
    using j1 powr_int [of 2 "- j"] by simp
  have p2: "2 powr (real_of_int (- j + 1)) = 1 / real_of_int (2 ^ nat (j - 1))"
    using j1 powr_int [of 2 "- j + 1"] by (cases "j = 1") simp_all
  have lo: "2 powr (real_of_int (- j)) \<le> \<bar>x\<bar>"
  proof -
    have "m + 1 \<le> 2 ^ nat j" using b(2) by linarith
    then have "real_of_int (m + 1) \<le> real_of_int (2 ^ nat j)" by linarith
    then have "y \<le> real_of_int (2 ^ nat j)" using m(3) by simp
    then have "1 / real_of_int (2 ^ nat j) \<le> 1 / y"
      using y by (intro divide_left_mono) auto
    moreover have "1 / y = \<bar>x\<bar>" by (simp add: y_def)
    ultimately have "1 / real_of_int (2 ^ nat j) \<le> \<bar>x\<bar>" by simp
    then show ?thesis unfolding p1 .
  qed
  have hi: "\<bar>x\<bar> < 2 powr (real_of_int (- j + 1))"
  proof -
    have "real_of_int (2 ^ nat (j - 1)) \<le> real_of_int m" using b(1) by linarith
    then have "real_of_int (2 ^ nat (j - 1)) < y" using m(2) by linarith
    then have "1 / y < 1 / real_of_int (2 ^ nat (j - 1))"
      using y by (intro divide_strict_left_mono) auto
    moreover have "1 / y = \<bar>x\<bar>" by (simp add: y_def)
    ultimately have "\<bar>x\<bar> < 1 / real_of_int (2 ^ nat (j - 1))" by simp
    then show ?thesis unfolding p2 .
  qed
  have "\<lfloor>log 2 \<bar>x\<bar>\<rfloor> = - j"
    using x(1) by (subst floor_log_eq_powr_iff) (use lo hi in simp_all)
  then show ?thesis using False by (simp add: binade_def j_def m_def y_def)
qed

section \<open>Forfeit on time\<close>

text \<open>
  Sums of whole milliseconds are exact, and a sum is rounded where it is not: a clock at
  10000 ms stays there when less than half a unit in the last place is added. The last
  three lines are \<^verbatim>\<open>0.1 + 0.2\<close> and two ties.
\<close>

lemma jsAdd_examples:
  "jsAdd 0 5 = 5" "jsAdd 0 100 = 100" "jsAdd 5 100 = 105" "jsAdd 0 10001 = 10001"
  "jsAdd 9950 5 = 9955" "jsAdd 9955 100 = 10055" "jsAdd 9950 100 = 10050"
  "jsAdd 10000 (1 / 2 ^ 41) = 10000" "jsAdd 10000 (3 / 2 ^ 41) = 10000 + 1 / 2 ^ 39"
  "jsAdd (3602879701896397 / 2 ^ 55) (3602879701896397 / 2 ^ 54) = 1351079888211149 / 2 ^ 52"
  "jsAdd 1 (1 / 2 ^ 53) = 1" "jsAdd (1 + 1 / 2 ^ 52) (1 / 2 ^ 53) = 1 + 1 / 2 ^ 51"
  by code_simp+

lemma recolour_eq:
  "(\<lambda>x. if x \<noteq> BLOCKED \<and> x \<noteq> Disc q then Disc q else x)
     = (\<lambda>x. if x = BLOCKED then BLOCKED else Disc q)"
  by auto

lemma checkTimeLimit_over:
  assumes "MAX_AI_TIME_PER_GAME < timeUsed" and "gameRunning st"
  shows "checkTimeLimit st p timeUsed =
           (st\<lparr> board := map (map (\<lambda>x. if x = BLOCKED then BLOCKED else Disc (opponentOf p))) (board st),
                gameRunning := False, gameOver := True,
                status := Some (Winner (opponentOf p)),
                previousGames := previousGames st @
                  [\<lparr> savedMoves = moves st, savedCaptured = capturedCounts st,
                     blackScore = discsOf BLACK
                       (map (map (\<lambda>x. if x = BLOCKED then BLOCKED else Disc (opponentOf p))) (board st)),
                     whiteScore = discsOf WHITE
                       (map (map (\<lambda>x. if x = BLOCKED then BLOCKED else Disc (opponentOf p))) (board st)) \<rparr>],
                moves := [], capturedCounts := [] \<rparr>, True)"
  using assms
  by (cases p)
     (simp_all add: checkTimeLimit_def endGame_def Let_def opponentOf_def recolour_eq countDiscs_eq
        cong: if_cong)

lemma addTime_fields:
  "board (addTime st p t) = board st" "gameRunning (addTime st p t) = gameRunning st"
  "gameOver (addTime st p t) = gameOver st" "moves (addTime st p t) = moves st"
  "capturedCounts (addTime st p t) = capturedCounts st"
  "previousGames (addTime st p t) = previousGames st"
  "BOARD_SIZE (addTime st p t) = BOARD_SIZE st" "currentStage (addTime st p t) = currentStage st"
  "currentPlayer (addTime st p t) = currentPlayer st"
  "timeUsedOf (addTime st p t) p = jsAdd (timeUsedOf st p) t"
  by (auto simp: addTime_def timeUsedOf_def)

text \<open>
  Claim C3. While a game is running, a time check that finds the player's cumulative
  time above \<open>MAX_AI_TIME_PER_GAME\<close> (10000 ms) reports so and ends the game with
  the opponent as winner; every cell that is not blocked then holds a disc of the
  opponent, whether it held a disc of the player, a disc of the opponent or nothing,
  and blocked cells stay blocked. The log of the game is saved as it stood, with the
  disc counts of the forfeited board, and the log of the game in progress is emptied.

  In the middle of a turn, when the time measured for the strategy's call, added to the
  player's clock, gives a value above the budget, the turn stops at that check: the
  state is the forfeited one of the state that the strategy's call left, and the
  scheduler has applied no move. The same holds in \<open>useFallbackMove\<close> when the penalty
  of 100 ms takes the clock above the budget.
\<close>

theorem time_forfeit:
  assumes "gameRunning st" and "\<not> gameOver st"
  shows "(MAX_AI_TIME_PER_GAME < timeUsed \<longrightarrow>
            (\<exists>st'. checkTimeLimit st p timeUsed = (st', True)
               \<and> gameOver st' \<and> \<not> gameRunning st'
               \<and> status st' = Some (Winner (opponentOf p))
               \<and> board st' = map (map (\<lambda>x. if x = BLOCKED then BLOCKED
                                           else Disc (opponentOf p))) (board st)
               \<and> moves st' = []
               \<and> previousGames st' = previousGames st @
                    [\<lparr> savedMoves = moves st, savedCaptured = capturedCounts st,
                       blackScore = discsOf BLACK (board st'),
                       whiteScore = discsOf WHITE (board st') \<rparr>]))
       \<and> (fst (strategyFn st p validMoves rnd) = st0 \<and> gameRunning st0
            \<and> MAX_AI_TIME_PER_GAME < jsAdd (timeUsedOf st0 p) moveTime \<longrightarrow>
            (\<exists>st'. aiTurn st p validMoves strategyFn rnd moveTime u u' = Inr st'
               \<and> gameOver st' \<and> \<not> gameRunning st'
               \<and> status st' = Some (Winner (opponentOf p))
               \<and> board st' = map (map (\<lambda>x. if x = BLOCKED then BLOCKED
                                           else Disc (opponentOf p))) (board st0)
               \<and> moves st' = []
               \<and> previousGames st' = previousGames st0 @
                    [\<lparr> savedMoves = moves st0, savedCaptured = capturedCounts st0,
                       blackScore = discsOf BLACK (board st'),
                       whiteScore = discsOf WHITE (board st') \<rparr>]))
       \<and> (getValidMoves st p (board st) \<noteq> []
            \<and> MAX_AI_TIME_PER_GAME < jsAdd (timeUsedOf st p) 100 \<longrightarrow>
            (\<exists>st'. useFallbackMove st p u' = Inr st'
               \<and> gameOver st' \<and> \<not> gameRunning st'
               \<and> status st' = Some (Winner (opponentOf p))
               \<and> board st' = map (map (\<lambda>x. if x = BLOCKED then BLOCKED
                                           else Disc (opponentOf p))) (board st)
               \<and> moves st' = []
               \<and> previousGames st' = previousGames st @
                    [\<lparr> savedMoves = moves st, savedCaptured = capturedCounts st,
                       blackScore = discsOf BLACK (board st'),
                       whiteScore = discsOf WHITE (board st') \<rparr>]))"
proof (intro conjI impI)
  assume "MAX_AI_TIME_PER_GAME < timeUsed"
  then show "\<exists>st'. checkTimeLimit st p timeUsed = (st', True)
               \<and> gameOver st' \<and> \<not> gameRunning st'
               \<and> status st' = Some (Winner (opponentOf p))
               \<and> board st' = map (map (\<lambda>x. if x = BLOCKED then BLOCKED
                                           else Disc (opponentOf p))) (board st)
               \<and> moves st' = []
               \<and> previousGames st' = previousGames st @
                    [\<lparr> savedMoves = moves st, savedCaptured = capturedCounts st,
                       blackScore = discsOf BLACK (board st'),
                       whiteScore = discsOf WHITE (board st') \<rparr>]"
    using assms(1) by (simp add: checkTimeLimit_over)
next
  assume a: "fst (strategyFn st p validMoves rnd) = st0 \<and> gameRunning st0
            \<and> MAX_AI_TIME_PER_GAME < jsAdd (timeUsedOf st0 p) moveTime"
  obtain arr answer where r: "strategyFn st p validMoves rnd = (st0, arr, answer)"
    using a by (cases "strategyFn st p validMoves rnd") auto
  have c: "checkTimeLimit (addTime st0 p moveTime) p (timeUsedOf (addTime st0 p moveTime) p)
      = checkTimeLimit (addTime st0 p moveTime) p (jsAdd (timeUsedOf st0 p) moveTime)"
    by (simp add: addTime_fields)
  show "\<exists>st'. aiTurn st p validMoves strategyFn rnd moveTime u u' = Inr st'
               \<and> gameOver st' \<and> \<not> gameRunning st'
               \<and> status st' = Some (Winner (opponentOf p))
               \<and> board st' = map (map (\<lambda>x. if x = BLOCKED then BLOCKED
                                           else Disc (opponentOf p))) (board st0)
               \<and> moves st' = []
               \<and> previousGames st' = previousGames st0 @
                    [\<lparr> savedMoves = moves st0, savedCaptured = capturedCounts st0,
                       blackScore = discsOf BLACK (board st'),
                       whiteScore = discsOf WHITE (board st') \<rparr>]"
    using assms a
    by (simp add: aiTurn_def r Let_def c checkTimeLimit_over addTime_fields)
next
  assume a: "getValidMoves st p (board st) \<noteq> []
            \<and> MAX_AI_TIME_PER_GAME < jsAdd (timeUsedOf st p) 100"
  show "\<exists>st'. useFallbackMove st p u' = Inr st'
               \<and> gameOver st' \<and> \<not> gameRunning st'
               \<and> status st' = Some (Winner (opponentOf p))
               \<and> board st' = map (map (\<lambda>x. if x = BLOCKED then BLOCKED
                                           else Disc (opponentOf p))) (board st)
               \<and> moves st' = []
               \<and> previousGames st' = previousGames st @
                    [\<lparr> savedMoves = moves st, savedCaptured = capturedCounts st,
                       blackScore = discsOf BLACK (board st'),
                       whiteScore = discsOf WHITE (board st') \<rparr>]"
    using assms a
    by (simp add: useFallbackMove_def Let_def checkTimeLimit_over addTime_fields)
qed


lemma afterOpening_fields:
  "gameRunning afterOpening" "\<not> gameOver afterOpening" "currentPlayer afterOpening = WHITE"
  "board afterOpening = openedBoard" "BOARD_SIZE afterOpening = 8"
  "blackTimeUsed afterOpening = 0" "whiteTimeUsed afterOpening = 0"
  "moves afterOpening = [(BLACK, (2, 3))]" "capturedCounts afterOpening = [1]"
  "previousGames afterOpening = []"
  by code_simp+

lemma afterOpening_white_moves:
  "getValidMoves afterOpening WHITE openedBoard = [(2, 2), (2, 4), (4, 2)]"
  by code_simp

lemma openedBoard_forfeited:
  "map (map (\<lambda>x. if x = BLOCKED then BLOCKED else Disc BLACK)) openedBoard
     = replicate 8 (replicate 8 (Disc BLACK))"
  by code_simp

lemma full_board_counts:
  "discsOf BLACK (replicate 8 (replicate 8 (Disc BLACK))) = 64"
  "discsOf WHITE (replicate 8 (replicate 8 (Disc BLACK))) = 0"
  "discsOf BLACK (replicate 8 (replicate 8 (Disc WHITE))) = 0"
  "discsOf WHITE (replicate 8 (replicate 8 (Disc WHITE))) = 64"
  by code_simp+

lemma whiteNearlyOut_fields:
  "gameRunning whiteNearlyOut" "\<not> gameOver whiteNearlyOut"
  "board whiteNearlyOut = openedBoard" "whiteTimeUsed whiteNearlyOut = 9950"
  "moves whiteNearlyOut = [(BLACK, (2, 3))]" "capturedCounts whiteNearlyOut = [1]"
  "previousGames whiteNearlyOut = []"
  by (simp_all add: whiteNearlyOut_def afterOpening_fields)

lemma whiteNearlyOut_moves:
  "getValidMoves whiteNearlyOut WHITE openedBoard = [(2, 2), (2, 4), (4, 2)]"
proof -
  have a: "BOARD_SIZE whiteNearlyOut = BOARD_SIZE afterOpening"
    "stageOf whiteNearlyOut = stageOf afterOpening"
    by (simp_all add: stageOf_def whiteNearlyOut_def)
  have "getValidMoves whiteNearlyOut WHITE openedBoard = getValidMoves afterOpening WHITE openedBoard"
    unfolding getValidMoves_def isValidMove_def a ..
  then show ?thesis by (simp add: afterOpening_white_moves)
qed

theorem time_forfeit_witness:
  "gameRunning afterOpening \<and> \<not> gameOver afterOpening
   \<and> moves afterOpening = [(BLACK, (2, 3))]
   \<and> MAX_AI_TIME_PER_GAME < 10001
   \<and> (\<exists>st'. checkTimeLimit afterOpening WHITE 10001 = (st', True)
          \<and> gameOver st' \<and> \<not> gameRunning st'
          \<and> status st' = Some (Winner BLACK)
          \<and> board st' = replicate 8 (replicate 8 (Disc BLACK))
          \<and> moves st' = []
          \<and> previousGames st' =
               [\<lparr> savedMoves = [(BLACK, (2, 3))], savedCaptured = [1],
                  blackScore = 64, whiteScore = 0 \<rparr>])
   \<and> fst (played firstMoveStrategy afterOpening WHITE [(2, 2), (2, 4), (4, 2)] 0) = afterOpening
   \<and> MAX_AI_TIME_PER_GAME < jsAdd (timeUsedOf afterOpening WHITE) 10001
   \<and> (\<exists>st'. aiTurn afterOpening WHITE [(2, 2), (2, 4), (4, 2)] (played firstMoveStrategy)
                 0 10001 0 0 = Inr st'
          \<and> gameOver st' \<and> \<not> gameRunning st'
          \<and> status st' = Some (Winner BLACK)
          \<and> board st' = replicate 8 (replicate 8 (Disc BLACK))
          \<and> moves st' = []
          \<and> previousGames st' =
               [\<lparr> savedMoves = [(BLACK, (2, 3))], savedCaptured = [1],
                  blackScore = 64, whiteScore = 0 \<rparr>])
   \<and> gameRunning whiteNearlyOut \<and> \<not> gameOver whiteNearlyOut
   \<and> getValidMoves whiteNearlyOut WHITE (board whiteNearlyOut) \<noteq> []
   \<and> MAX_AI_TIME_PER_GAME < jsAdd (timeUsedOf whiteNearlyOut WHITE) 100
   \<and> (\<exists>st'. useFallbackMove whiteNearlyOut WHITE 0 = Inr st'
          \<and> gameOver st' \<and> \<not> gameRunning st'
          \<and> status st' = Some (Winner BLACK)
          \<and> board st' = replicate 8 (replicate 8 (Disc BLACK))
          \<and> moves st' = []
          \<and> previousGames st' =
               [\<lparr> savedMoves = [(BLACK, (2, 3))], savedCaptured = [1],
                  blackScore = 64, whiteScore = 0 \<rparr>])"
proof -
  have t: "MAX_AI_TIME_PER_GAME < 10001" by (simp add: MAX_AI_TIME_PER_GAME_def)
  have s: "fst (played firstMoveStrategy afterOpening WHITE [(2, 2), (2, 4), (4, 2)] 0)
      = afterOpening"
    by (simp add: played_def)
  have t2: "MAX_AI_TIME_PER_GAME < jsAdd (timeUsedOf afterOpening WHITE) 10001"
    by (simp add: timeUsedOf_def afterOpening_fields jsAdd_examples MAX_AI_TIME_PER_GAME_def)
  have v: "getValidMoves whiteNearlyOut WHITE (board whiteNearlyOut) \<noteq> []"
    by (simp add: whiteNearlyOut_fields whiteNearlyOut_moves)
  have t3: "MAX_AI_TIME_PER_GAME < jsAdd (timeUsedOf whiteNearlyOut WHITE) 100"
    by (simp add: timeUsedOf_def whiteNearlyOut_fields jsAdd_examples MAX_AI_TIME_PER_GAME_def)
  note inst = time_forfeit [OF afterOpening_fields(1,2), where p = WHITE and timeUsed = 10001
      and strategyFn = "played firstMoveStrategy" and validMoves = "[(2, 2), (2, 4), (4, 2)]"
      and rnd = 0 and ?st0.0 = afterOpening and moveTime = 10001 and u = 0 and u' = 0]
  have 1: "\<exists>st'. checkTimeLimit afterOpening WHITE 10001 = (st', True)
          \<and> gameOver st' \<and> \<not> gameRunning st'
          \<and> status st' = Some (Winner BLACK)
          \<and> board st' = replicate 8 (replicate 8 (Disc BLACK))
          \<and> moves st' = []
          \<and> previousGames st' =
               [\<lparr> savedMoves = [(BLACK, (2, 3))], savedCaptured = [1],
                  blackScore = 64, whiteScore = 0 \<rparr>]"
    using t inst
    by (simp add: afterOpening_fields openedBoard_forfeited full_board_counts opponentOf_def
        cong: if_cong conj_cong)
  have 2: "\<exists>st'. aiTurn afterOpening WHITE [(2, 2), (2, 4), (4, 2)] (played firstMoveStrategy)
                 0 10001 0 0 = Inr st'
          \<and> gameOver st' \<and> \<not> gameRunning st'
          \<and> status st' = Some (Winner BLACK)
          \<and> board st' = replicate 8 (replicate 8 (Disc BLACK))
          \<and> moves st' = []
          \<and> previousGames st' =
               [\<lparr> savedMoves = [(BLACK, (2, 3))], savedCaptured = [1],
                  blackScore = 64, whiteScore = 0 \<rparr>]"
    using s t2 inst
    by (simp add: afterOpening_fields openedBoard_forfeited full_board_counts opponentOf_def
        cong: if_cong conj_cong)
  have 3: "\<exists>st'. useFallbackMove whiteNearlyOut WHITE 0 = Inr st'
          \<and> gameOver st' \<and> \<not> gameRunning st'
          \<and> status st' = Some (Winner BLACK)
          \<and> board st' = replicate 8 (replicate 8 (Disc BLACK))
          \<and> moves st' = []
          \<and> previousGames st' =
               [\<lparr> savedMoves = [(BLACK, (2, 3))], savedCaptured = [1],
                  blackScore = 64, whiteScore = 0 \<rparr>]"
    using v t3 time_forfeit [OF whiteNearlyOut_fields(1,2), where p = WHITE and u' = 0]
    by (simp add: whiteNearlyOut_fields openedBoard_forfeited full_board_counts opponentOf_def
        cong: if_cong conj_cong)
  show ?thesis
    by (intro conjI afterOpening_fields(1,2,8) t 1 s t2 2 whiteNearlyOut_fields(1,2) v t3 3)
qed

section \<open>Upload validation\<close>

lemma includesText_iff: "includesText s sub \<longleftrightarrow> (\<exists>a b. s = a @ sub @ b)"
  by (simp add: includesText_def sublist_def)

lemma includesText_trans:
  "includesText s mid \<Longrightarrow> includesText mid sub \<Longrightarrow> includesText s sub"
  unfolding includesText_def by (meson sublist_order.order_trans)

lemma analyzeStage_in_patterns:
  "includesText ''function analyzeStage'' ''analyzeStage''"
  "includesText ''analyzeStage ='' ''analyzeStage''"
  unfolding includesText_def by code_simp+

lemma includes_nonempty: "includesText s sub \<Longrightarrow> sub \<noteq> [] \<Longrightarrow> s \<noteq> []"
  by (auto simp: includesText_def)

lemma named_analysis_accepted:
  "accepted (uploadIntelligentSystem emptySandbox ''s.js'' namedAnalysisCode (stages ! 0) True
        (AnalysisReturned (JsFunction firstMoveStrategy)))"
  unfolding accepted_def uploadIntelligentSystem_def
    analyzeStageWithSystem_def includesText_def stripJs_def Let_def namedAnalysisCode_def
  by code_simp

text \<open>
  Claim C9, as stated, fails twice. A strategy file that never mentions
  \<open>studentStrategy\<close> is accepted because it contains \<open>function(\<close>; and an analysis
  file that defines \<open>analyzeStage\<close> and also uses the name \<open>studentStrategy\<close> is
  accepted, since nothing on the analysis path looks for that name.
\<close>

theorem upload_validation_counterexample:
  "accepted (importStrategyFile emptySandbox ''a.js'' anonymousCode)
   \<and> \<not> includesText anonymousCode ''studentStrategy''
   \<and> accepted (uploadIntelligentSystem emptySandbox ''s.js'' namedAnalysisCode (stages ! 0) True
        (AnalysisReturned (JsFunction firstMoveStrategy)))
   \<and> includesText namedAnalysisCode ''studentStrategy''"
  unfolding accepted_def importStrategyFile_def uploadIntelligentSystem_def
    analyzeStageWithSystem_def includesText_def stripJs_def Let_def
    anonymousCode_def namedAnalysisCode_def
  by code_simp

text \<open>
  Claim C9, amended. A strategy upload is accepted exactly when the text and the name
  left of \<open>.js\<close> are not empty, the text contains \<open>studentStrategy\<close> or
  \<open>function(\<close>, and it does not contain \<open>analyzeStage\<close>. An analysis upload is
  accepted exactly when the text contains \<open>function analyzeStage\<close> or
  \<open>analyzeStage =\<close>, a function could be extracted from it and its call did not throw;
  so an accepted analysis upload contains \<open>analyzeStage\<close>. Every one of these tests is
  a substring test.
\<close>

theorem upload_validation:
  "(accepted (importStrategyFile sb fileName code) \<longleftrightarrow>
      code \<noteq> [] \<and> stripJs fileName \<noteq> []
      \<and> (includesText code ''studentStrategy'' \<or> includesText code ''function('')
      \<and> \<not> includesText code ''analyzeStage'')
   \<and> (accepted (uploadIntelligentSystem sb fileName code stageConfig compiled run) \<longleftrightarrow>
        (includesText code ''function analyzeStage'' \<or> includesText code ''analyzeStage ='')
        \<and> compiled \<and> run \<noteq> AnalysisThrew)
   \<and> (accepted (uploadIntelligentSystem sb fileName code stageConfig compiled run) \<longrightarrow>
        includesText code ''analyzeStage'')
   \<and> (includesText code sub \<longleftrightarrow> (\<exists>a b. code = a @ sub @ b))"
proof -
  have 1: "accepted (importStrategyFile sb fileName code) \<longleftrightarrow>
      code \<noteq> [] \<and> stripJs fileName \<noteq> []
      \<and> (includesText code ''studentStrategy'' \<or> includesText code ''function('')
      \<and> \<not> includesText code ''analyzeStage''"
    by (auto simp: accepted_def importStrategyFile_def Let_def)
  have ne: "code \<noteq> []"
    if "includesText code ''function analyzeStage'' \<or> includesText code ''analyzeStage =''"
    using that includes_nonempty by fastforce
  have 2: "accepted (uploadIntelligentSystem sb fileName code stageConfig compiled run) \<longleftrightarrow>
        (includesText code ''function analyzeStage'' \<or> includesText code ''analyzeStage ='')
        \<and> compiled \<and> run \<noteq> AnalysisThrew"
    using ne
    by (cases run)
       (auto simp: accepted_def uploadIntelligentSystem_def analyzeStageWithSystem_def Let_def)
  have 3: "includesText code ''analyzeStage''"
    if "includesText code ''function analyzeStage'' \<or> includesText code ''analyzeStage =''"
    using that includesText_trans analyzeStage_in_patterns by blast
  show ?thesis
    using 1 2 3 includesText_iff by blast
qed

theorem upload_validation_witness:
  "accepted (uploadIntelligentSystem emptySandbox ''s.js'' namedAnalysisCode (stages ! 0) True
        (AnalysisReturned (JsFunction firstMoveStrategy)))
   \<and> includesText namedAnalysisCode ''analyzeStage''"
  using named_analysis_accepted
    upload_validation [of emptySandbox "''s.js''" namedAnalysisCode "stages ! 0" True
      "AnalysisReturned (JsFunction firstMoveStrategy)"]
  by blast

section \<open>The strategy an analysis leaves behind\<close>

lemma pickRandom_in_range:
  assumes "xs \<noteq> []" and "0 \<le> u" and "u < 1"
  shows "nat \<lfloor>u * real (length xs)\<rfloor> < length xs"
    and "pickRandom u xs = Some (xs ! nat \<lfloor>u * real (length xs)\<rfloor>)"
proof -
  have n: "0 < real (length xs)" using assms(1) by simp
  have lo: "0 \<le> u * real (length xs)" using assms(2) by simp
  have hi: "u * real (length xs) < real (length xs)"
    using assms(3) n by simp
  have f0: "0 \<le> \<lfloor>u * real (length xs)\<rfloor>" using lo by simp
  have f1: "\<lfloor>u * real (length xs)\<rfloor> < int (length xs)"
    using hi by (simp add: floor_less_iff)
  show i: "nat \<lfloor>u * real (length xs)\<rfloor> < length xs"
    using f0 f1 nat_less_iff by blast
  show "pickRandom u xs = Some (xs ! nat \<lfloor>u * real (length xs)\<rfloor>)"
    using f0 i by (simp add: pickRandom_def Let_def)
qed

lemma pickRandom_member:
  assumes "xs \<noteq> []" and "0 \<le> u" and "u < 1"
  shows "\<exists>m. pickRandom u xs = Some m \<and> m \<in> set xs"
  using pickRandom_in_range [OF assms] by simp

lemma half_of_four: "pickRandom (1 / 2) [(2, 3), (3, 2), (4, 5), (5, 4 :: int)] = Some (4, 5 :: int)"
  by (simp add: pickRandom_def)

text \<open>
  Claim C8, as stated, fails: after an analysis that returned \<^verbatim>\<open>null\<close>, the
  strategy saved under the generated name does not pick the first legal move. On the
  four opening moves and with \<^verbatim>\<open>Math.random()\<close> yielding one half, it picks the third.
\<close>

theorem analysis_fallback_counterexample:
  "generatedStudentStrategy analysedNull (generatedStrategyName ''sys'' (stages ! 0))
      standardBoard BLACK [(2, 3), (3, 2), (4, 5), (5, 4)] (1 / 2) = Returned (Some (4, 5))
   \<and> firstOrNull [(2, 3), (3, 2), (4, 5), (5, 4)] = Some (2, 3)"
  unfolding analysedNull_def nullAnalysisCode_def
  by (simp add: analyzeStageWithSystem_def includesText_def generatedStudentStrategy_def
      fallbackStrategy_def half_of_four firstOrNull_def Let_def)

text \<open>
  Claim C8, amended. When the analysis function returns a value that is not a function,
  the analysis still succeeds: under the generated name it registers the fallback
  strategy and saves the wrapper for it. That strategy answers \<^verbatim>\<open>null\<close> on an empty
  list of moves and otherwise the move at index
  \<^verbatim>\<open>Math.floor(Math.random() * validMoves.length)\<close>, a random member of the list, not
  necessarily the first.
\<close>

theorem analysis_fallback:
  assumes "includesText systemCode ''function analyzeStage''
           \<or> includesText systemCode ''analyzeStage =''"
    and "\<forall>f. result \<noteq> JsFunction f"
  shows "\<exists>sb'. analyzeStageWithSystem sb systemName stageConfig systemCode True
                  (AnalysisReturned result) = Inr sb'
           \<and> savedStrategies sb' (generatedStrategyName systemName stageConfig)
               = Some (Generated (generatedStrategyName systemName stageConfig))
           \<and> compiledIntelligentSystems sb' (generatedStrategyName systemName stageConfig)
               = Some fallbackStrategy
           \<and> (\<forall>b p validMoves rnd.
                 generatedStudentStrategy sb' (generatedStrategyName systemName stageConfig)
                     b p validMoves rnd
                   = (if validMoves = [] then Returned None
                      else Returned (pickRandom rnd validMoves)))
           \<and> (\<forall>validMoves rnd. validMoves \<noteq> [] \<and> 0 \<le> rnd \<and> rnd < 1 \<longrightarrow>
                 (\<exists>m. pickRandom rnd validMoves = Some m \<and> m \<in> set validMoves))"
proof -
  have ne: "systemCode \<noteq> []"
    using assms(1) by (auto simp: includesText_def)
  have sel: "(case result of JsFunction f \<Rightarrow> f | _ \<Rightarrow> fallbackStrategy) = fallbackStrategy"
    using assms(2) by (cases result) auto
  show ?thesis
    using ne assms(1) pickRandom_member
    by (auto simp: analyzeStageWithSystem_def Let_def sel generatedStudentStrategy_def
        fallbackStrategy_def)
qed

lemma null_analysis_pattern: "includesText nullAnalysisCode ''function analyzeStage''"
  unfolding includesText_def nullAnalysisCode_def by code_simp

theorem analysis_fallback_witness:
  "includesText nullAnalysisCode ''function analyzeStage''
   \<and> accepted (analyzeStageWithSystem emptySandbox ''sys'' (stages ! 0) nullAnalysisCode True
        (AnalysisReturned JsNull))
   \<and> compiledIntelligentSystems analysedNull (generatedStrategyName ''sys'' (stages ! 0))
        = Some fallbackStrategy
   \<and> generatedStudentStrategy analysedNull (generatedStrategyName ''sys'' (stages ! 0))
        standardBoard BLACK [] 0 = Returned None"
proof -
  let ?g = "generatedStrategyName ''sys'' (stages ! 0)"
  have h1: "includesText nullAnalysisCode ''function analyzeStage''
           \<or> includesText nullAnalysisCode ''analyzeStage =''"
    using null_analysis_pattern by simp
  have h2: "\<forall>f. JsNull \<noteq> JsFunction f" by simp
  have "\<exists>sb'. analyzeStageWithSystem emptySandbox ''sys'' (stages ! 0) nullAnalysisCode True
                  (AnalysisReturned JsNull) = Inr sb'
           \<and> savedStrategies sb' ?g = Some (Generated ?g)
           \<and> compiledIntelligentSystems sb' ?g = Some fallbackStrategy
           \<and> (\<forall>b p validMoves rnd.
                 generatedStudentStrategy sb' ?g b p validMoves rnd
                   = (if validMoves = [] then Returned None
                      else Returned (pickRandom rnd validMoves)))
           \<and> (\<forall>validMoves rnd. validMoves \<noteq> [] \<and> 0 \<le> rnd \<and> rnd < 1 \<longrightarrow>
                 (\<exists>m. pickRandom rnd validMoves = Some m \<and> m \<in> set validMoves))"
    by (rule analysis_fallback [OF h1 h2])
  then obtain sb' where
    a: "analyzeStageWithSystem emptySandbox ''sys'' (stages ! 0) nullAnalysisCode True
          (AnalysisReturned JsNull) = Inr sb'"
    and c: "compiledIntelligentSystems sb' ?g = Some fallbackStrategy"
    and g: "\<forall>b p validMoves rnd.
                 generatedStudentStrategy sb' ?g b p validMoves rnd
                   = (if validMoves = [] then Returned None
                      else Returned (pickRandom rnd validMoves))"
    by (elim exE conjE)
  have e: "analysedNull = sb'"
    unfolding analysedNull_def a by simp
  have 1: "accepted (analyzeStageWithSystem emptySandbox ''sys'' (stages ! 0) nullAnalysisCode True
        (AnalysisReturned JsNull))"
    unfolding a accepted_def by simp
  have 2: "compiledIntelligentSystems analysedNull ?g = Some fallbackStrategy"
    unfolding e by (rule c)
  have "generatedStudentStrategy sb' ?g standardBoard BLACK [] 0
          = (if ([] :: pos list) = [] then Returned None else Returned (pickRandom 0 []))"
    using g by (elim allE)
  then have 3: "generatedStudentStrategy analysedNull ?g standardBoard BLACK [] 0 = Returned None"
    unfolding e by simp
  show ?thesis
    by (intro conjI null_analysis_pattern 1 2 3)
qed

section \<open>The initial board\<close>

lemma wf_board_cellAt:
  "wf_board N b \<Longrightarrow> isWithinBoard N r c \<Longrightarrow> cellAt b r c = Some (b ! nat r ! nat c)"
  by (auto simp: wf_board_def isWithinBoard_def cellAt_def list_all_iff)

lemma wf_board_setCell:
  assumes "wf_board N b"
  shows "wf_board N (setCell b r c v)"
proof (cases "nat r < length b")
  case True
  then have "length (b ! nat r) = N"
    using assms by (simp add: wf_board_def list_all_iff)
  then show ?thesis
    using assms
    by (auto simp: wf_board_def setCell_def list_all_iff
        dest!: set_update_subset_insert [THEN subsetD])
next
  case False
  then have "b[nat r := (b ! nat r)[nat c := v]] = b"
    by (simp add: list_update_beyond)
  then show ?thesis
    using assms by (simp add: setCell_def)
qed

lemma cellAt_setCell:
  assumes "wf_board N b" and "isWithinBoard N r0 c0" and "isWithinBoard N r c"
  shows "cellAt (setCell b r0 c0 v) r c = (if (r, c) = (r0, c0) then Some v else cellAt b r c)"
proof -
  have len: "nat r < length b" "nat r0 < length b" "nat c < length (b ! nat r)"
    "nat c0 < length (b ! nat r0)" "0 \<le> r" "0 \<le> c" "0 \<le> r0" "0 \<le> c0"
    using assms by (auto simp: wf_board_def isWithinBoard_def list_all_iff)
  show ?thesis
    using len by (auto simp: cellAt_def setCell_def nth_list_update)
qed

lemma writeCell_ok:
  "wf_board N b \<Longrightarrow> isWithinBoard N r c \<Longrightarrow> writeCell b r c v = Inr (setCell b r c v)"
  by (auto simp: writeCell_def wf_board_def isWithinBoard_def list_all_iff)

lemma placeBlocked_pass:
  assumes "wf_board N b"
  shows "\<exists>b'. forEachPlace (placeBlocked N) b qs = Inr b' \<and> wf_board N b'
     \<and> (\<forall>r c. isWithinBoard N r c \<longrightarrow>
           cellAt b' r c = (if (r, c) \<in> set qs then Some BLOCKED else cellAt b r c))"
  using assms
proof (induction qs arbitrary: b)
  case Nil
  then show ?case by simp
next
  case (Cons q qs)
  obtain r0 c0 where q: "q = (r0, c0)" by (cases q)
  show ?case
  proof (cases "isWithinBoard N r0 c0")
    case True
    let ?b1 = "setCell b r0 c0 BLOCKED"
    have s: "placeBlocked N b q = Inr ?b1"
      using True Cons.prems by (simp add: placeBlocked_def q writeCell_ok)
    have w1: "wf_board N ?b1" using Cons.prems by (rule wf_board_setCell)
    from Cons.IH [OF w1] obtain b' where b':
      "forEachPlace (placeBlocked N) ?b1 qs = Inr b'" "wf_board N b'"
      "\<forall>r c. isWithinBoard N r c \<longrightarrow>
           cellAt b' r c = (if (r, c) \<in> set qs then Some BLOCKED else cellAt ?b1 r c)"
      by blast
    show ?thesis
      using s b' True Cons.prems by (auto simp: q cellAt_setCell)
  next
    case False
    have s: "placeBlocked N b q = Inr b"
      using False by (simp add: placeBlocked_def q)
    from Cons.IH [OF Cons.prems] obtain b' where b':
      "forEachPlace (placeBlocked N) b qs = Inr b'" "wf_board N b'"
      "\<forall>r c. isWithinBoard N r c \<longrightarrow>
           cellAt b' r c = (if (r, c) \<in> set qs then Some BLOCKED else cellAt b r c)"
      by blast
    show ?thesis
      using s b' False by (auto simp: q)
  qed
qed

lemma placePiece_pass:
  assumes "wf_board N b"
  shows "\<exists>b'. forEachPlace (placePiece N pl) b qs = Inr b' \<and> wf_board N b'
     \<and> (\<forall>r c. isWithinBoard N r c \<longrightarrow>
           cellAt b' r c = (if (r, c) \<in> set qs \<and> cellAt b r c = Some EMPTY
                            then Some (Disc pl) else cellAt b r c))"
  using assms
proof (induction qs arbitrary: b)
  case Nil
  then show ?case by simp
next
  case (Cons q qs)
  obtain r0 c0 where q: "q = (r0, c0)" by (cases q)
  show ?case
  proof (cases "isWithinBoard N r0 c0 \<and> cellAt b r0 c0 = Some EMPTY")
    case True
    let ?b1 = "setCell b r0 c0 (Disc pl)"
    have inr: "0 \<le> r0 \<and> nat r0 < length b"
      using True Cons.prems by (auto simp: wf_board_def isWithinBoard_def)
    have s: "placePiece N pl b q = Inr ?b1"
      using True Cons.prems inr by (simp add: placePiece_def q writeCell_ok)
    have w1: "wf_board N ?b1" using Cons.prems by (rule wf_board_setCell)
    from Cons.IH [OF w1] obtain b' where b':
      "forEachPlace (placePiece N pl) ?b1 qs = Inr b'" "wf_board N b'"
      "\<forall>r c. isWithinBoard N r c \<longrightarrow>
           cellAt b' r c = (if (r, c) \<in> set qs \<and> cellAt ?b1 r c = Some EMPTY
                            then Some (Disc pl) else cellAt ?b1 r c)"
      by blast
    show ?thesis
      using s b' True Cons.prems by (auto simp: q cellAt_setCell)
  next
    case False
    have inr: "isWithinBoard N r0 c0 \<Longrightarrow> 0 \<le> r0 \<and> nat r0 < length b"
      using Cons.prems by (auto simp: wf_board_def isWithinBoard_def)
    have s: "placePiece N pl b q = Inr b"
      using False inr by (auto simp: placePiece_def q)
    from Cons.IH [OF Cons.prems] obtain b' where b':
      "forEachPlace (placePiece N pl) b qs = Inr b'" "wf_board N b'"
      "\<forall>r c. isWithinBoard N r c \<longrightarrow>
           cellAt b' r c = (if (r, c) \<in> set qs \<and> cellAt b r c = Some EMPTY
                            then Some (Disc pl) else cellAt b r c)"
      by blast
    show ?thesis
      using s b' False by (auto simp: q)
  qed
qed

lemma fresh_board:
  "wf_board n (replicate n (replicate n EMPTY))"
  "isWithinBoard n r c \<Longrightarrow> cellAt (replicate n (replicate n EMPTY)) r c = Some EMPTY"
  by (auto simp: wf_board_def list_all_iff cellAt_def isWithinBoard_def)

text \<open>
  When the module's \<open>BOARD_SIZE\<close> equals the side of the board being built, as it does
  when \<open>initializeBoard\<close> makes the call for a stage with a positive \<open>boardSize\<close>, the
  result is a square board on which a cell is blocked if it is listed as blocked,
  otherwise black if listed for player 1, otherwise white if listed for player 2,
  otherwise empty; placements off the board leave no trace.
\<close>

lemma createInitialBoard_matching_size:
  assumes "N = effectiveSize stageConfig"
  shows "\<exists>b. createInitialBoard N (Some stageConfig) = Inr b \<and> wf_board N b
     \<and> (\<forall>r c. isWithinBoard N r c \<longrightarrow>
           cellAt b r c =
             Some (if (r, c) \<in> set (initialBlocked stageConfig) then BLOCKED
                   else if (r, c) \<in> set (initialPlayer1 stageConfig) then Disc BLACK
                   else if (r, c) \<in> set (initialPlayer2 stageConfig) then Disc WHITE
                   else EMPTY))"
proof -
  let ?new = "replicate N (replicate N EMPTY)"
  have w0: "wf_board N ?new" by (rule fresh_board)
  from placeBlocked_pass [OF w0, of "initialBlocked stageConfig"] obtain b1 where b1:
    "forEachPlace (placeBlocked N) ?new (initialBlocked stageConfig) = Inr b1" "wf_board N b1"
    "\<forall>r c. isWithinBoard N r c \<longrightarrow> cellAt b1 r c =
        (if (r, c) \<in> set (initialBlocked stageConfig) then Some BLOCKED else cellAt ?new r c)"
    by blast
  from placePiece_pass [OF b1(2), of BLACK "initialPlayer1 stageConfig"] obtain b2 where b2:
    "forEachPlace (placePiece N BLACK) b1 (initialPlayer1 stageConfig) = Inr b2" "wf_board N b2"
    "\<forall>r c. isWithinBoard N r c \<longrightarrow> cellAt b2 r c =
        (if (r, c) \<in> set (initialPlayer1 stageConfig) \<and> cellAt b1 r c = Some EMPTY
         then Some (Disc BLACK) else cellAt b1 r c)"
    by blast
  from placePiece_pass [OF b2(2), of WHITE "initialPlayer2 stageConfig"] obtain b3 where b3:
    "forEachPlace (placePiece N WHITE) b2 (initialPlayer2 stageConfig) = Inr b3" "wf_board N b3"
    "\<forall>r c. isWithinBoard N r c \<longrightarrow> cellAt b3 r c =
        (if (r, c) \<in> set (initialPlayer2 stageConfig) \<and> cellAt b2 r c = Some EMPTY
         then Some (Disc WHITE) else cellAt b2 r c)"
    by blast
  have c: "createInitialBoard N (Some stageConfig) = Inr b3"
    using assms b1(1) b2(1) b3(1) by (simp add: createInitialBoard_def Let_def)
  have cells: "cellAt b3 r c =
             Some (if (r, c) \<in> set (initialBlocked stageConfig) then BLOCKED
                   else if (r, c) \<in> set (initialPlayer1 stageConfig) then Disc BLACK
                   else if (r, c) \<in> set (initialPlayer2 stageConfig) then Disc WHITE
                   else EMPTY)" if "isWithinBoard N r c" for r c
    using that b1(3) b2(3) b3(3) fresh_board(2) [OF that] by simp
  show ?thesis
    using c b3(2) cells by blast
qed

text \<open>
  Claim C10. The claim is that a placement is ignored only when it lies outside the
  board, so that a listed blocked cell on the board ends up blocked. The bounds test
  uses the module's \<open>BOARD_SIZE\<close>, not the size of the board being built. With
  \<open>BOARD_SIZE\<close> at 6, as a game on the 6x6 stage leaves it, the 8x8 stage with partial
  C-squares lists the blocked cell \<open>(1, 7)\<close>, which lies on its 8x8 board; the call
  succeeds and the cell is empty. With \<open>BOARD_SIZE\<close> at 8 the same cell is blocked.
\<close>

theorem createInitialBoard_stale_size:
  "effectiveSize (stages ! 2) = 8
   \<and> isWithinBoard 8 1 7
   \<and> (1, 7) \<in> set (initialBlocked (stages ! 2))
   \<and> accepted (createInitialBoard 6 (Some (stages ! 2)))
   \<and> cellOf (projr (createInitialBoard 6 (Some (stages ! 2)))) (1, 7) = Some EMPTY
   \<and> cellOf (projr (createInitialBoard 8 (Some (stages ! 2)))) (1, 7) = Some BLOCKED"
  unfolding accepted_def by code_simp

theorem createInitialBoard_stale_size_witness:
  "cellOf (projr (createInitialBoard 6 (Some (stages ! 2)))) (1, 7) = Some EMPTY"
  using createInitialBoard_stale_size by simp

section \<open>Scans through blocked cells\<close>

lemma opponentOf_neq: "opponentOf p \<noteq> p" "p \<noteq> opponentOf p"
  by (cases p; simp add: opponentOf_def)+

lemma ray_step:
  "row + int i * dr d + dr d = row + int (Suc i) * dr d"
  "col + int i * dc d + dc d = col + int (Suc i) * dc d"
  by (simp_all add: algebra_simps)

lemma scanValid_through:
  assumes "\<forall>i. i0 \<le> i \<and> i < k \<longrightarrow> onBoard N (rayCell row col d i)
              \<and> (cellOf b (rayCell row col d i) = Some (Disc (opponentOf p))
                 \<or> cellOf b (rayCell row col d i) = Some BLOCKED)"
    and "onBoard N (rayCell row col d k)"
    and "cellOf b (rayCell row col d k) = Some (Disc p)"
    and "i0 \<le> k"
    and "fo \<or> (\<exists>i. i0 \<le> i \<and> i < k \<and> cellOf b (rayCell row col d i) = Some (Disc (opponentOf p)))"
  shows "scanValid N True b p d (row + int i0 * dr d) (col + int i0 * dc d) fo fb"
  using assms
proof (induction "k - i0" arbitrary: i0 fo fb)
  case (0 i0 fo fb)
  then have e: "i0 = k" by simp
  with 0 have fo by auto
  then show ?case
    using 0(3,4) opponentOf_neq [of p]
    by (subst scanValid.simps) (simp add: e onBoard_def cellOf_def rayCell_def)
next
  case (Suc n i0 fo fb)
  then have lt: "i0 < k" by simp
  from Suc.prems(1) lt have here: "onBoard N (rayCell row col d i0)"
    "cellOf b (rayCell row col d i0) = Some (Disc (opponentOf p))
      \<or> cellOf b (rayCell row col d i0) = Some BLOCKED"
    by auto
  have rest: "\<forall>i. Suc i0 \<le> i \<and> i < k \<longrightarrow> onBoard N (rayCell row col d i)
              \<and> (cellOf b (rayCell row col d i) = Some (Disc (opponentOf p))
                 \<or> cellOf b (rayCell row col d i) = Some BLOCKED)"
    using Suc.prems(1) by auto
  have n: "n = k - Suc i0" using Suc.hyps(2) by simp
  show ?case
  proof (cases "cellOf b (rayCell row col d i0) = Some (Disc (opponentOf p))")
    case True
    have "scanValid N True b p d (row + int (Suc i0) * dr d) (col + int (Suc i0) * dc d) True fb"
      using Suc.hyps(1) [OF n rest Suc.prems(2,3)] lt by simp
    then show ?thesis
      using here(1) True
      by (subst scanValid.simps) (simp add: onBoard_def cellOf_def rayCell_def ray_step)
  next
    case False
    with here(2) have bl: "cellOf b (rayCell row col d i0) = Some BLOCKED" by simp
    have later: "fo \<or> (\<exists>i. Suc i0 \<le> i \<and> i < k
         \<and> cellOf b (rayCell row col d i) = Some (Disc (opponentOf p)))"
      using Suc.prems(5) False by (metis Suc_leI le_neq_implies_less)
    have "scanValid N True b p d (row + int (Suc i0) * dr d) (col + int (Suc i0) * dc d) fo True"
      using Suc.hyps(1) [OF n rest Suc.prems(2,3) _ later] lt by simp
    then show ?thesis
      using here(1) bl
      by (subst scanValid.simps) (simp add: onBoard_def cellOf_def rayCell_def ray_step)
  qed
qed

lemma scanFlip_through:
  assumes "\<forall>i. i0 \<le> i \<and> i < k \<longrightarrow> onBoard N (rayCell row col d i)
              \<and> (cellOf b (rayCell row col d i) = Some (Disc (opponentOf p))
                 \<or> cellOf b (rayCell row col d i) = Some BLOCKED)"
    and "onBoard N (rayCell row col d k)"
    and "cellOf b (rayCell row col d k) = Some (Disc p)"
    and "i0 \<le> k"
    and "(fo \<and> tf \<noteq> [])
         \<or> (\<exists>i. i0 \<le> i \<and> i < k \<and> cellOf b (rayCell row col d i) = Some (Disc (opponentOf p)))"
  shows "scanFlip N True b p d (row + int i0 * dr d) (col + int i0 * dc d) tf fb fo
         = Some (tf @ filter (\<lambda>q. cellOf b q = Some (Disc (opponentOf p)))
                        (map (rayCell row col d) [i0..<k]))"
  using assms
proof (induction "k - i0" arbitrary: i0 tf fo fb)
  case (0 i0 tf fo fb)
  then have e: "i0 = k" by simp
  with 0 have "fo \<and> tf \<noteq> []" by auto
  then show ?case
    using 0(3,4) opponentOf_neq [of p]
    by (subst scanFlip.simps) (simp add: e onBoard_def cellOf_def rayCell_def)
next
  case (Suc n i0 tf fo fb)
  then have lt: "i0 < k" by simp
  from Suc.prems(1) lt have here: "onBoard N (rayCell row col d i0)"
    "cellOf b (rayCell row col d i0) = Some (Disc (opponentOf p))
      \<or> cellOf b (rayCell row col d i0) = Some BLOCKED"
    by auto
  have rest: "\<forall>i. Suc i0 \<le> i \<and> i < k \<longrightarrow> onBoard N (rayCell row col d i)
              \<and> (cellOf b (rayCell row col d i) = Some (Disc (opponentOf p))
                 \<or> cellOf b (rayCell row col d i) = Some BLOCKED)"
    using Suc.prems(1) by auto
  have n: "n = k - Suc i0" using Suc.hyps(2) by simp
  have le: "Suc i0 \<le> k" using lt by simp
  have upt: "[i0..<k] = i0 # [Suc i0..<k]" using lt by (simp add: upt_conv_Cons)
  show ?case
  proof (cases "cellOf b (rayCell row col d i0) = Some (Disc (opponentOf p))")
    case True
    have "scanFlip N True b p d (row + int (Suc i0) * dr d) (col + int (Suc i0) * dc d)
            (tf @ [rayCell row col d i0]) fb True
          = Some ((tf @ [rayCell row col d i0])
                  @ filter (\<lambda>q. cellOf b q = Some (Disc (opponentOf p)))
                       (map (rayCell row col d) [Suc i0..<k]))"
      by (rule Suc.hyps(1) [OF n rest Suc.prems(2,3) le]) simp
    then show ?thesis
      using here(1) True
      by (subst scanFlip.simps)
         (simp add: onBoard_def cellOf_def rayCell_def ray_step upt)
  next
    case False
    with here(2) have bl: "cellOf b (rayCell row col d i0) = Some BLOCKED" by simp
    have later: "(fo \<and> tf \<noteq> []) \<or> (\<exists>i. Suc i0 \<le> i \<and> i < k
         \<and> cellOf b (rayCell row col d i) = Some (Disc (opponentOf p)))"
      using Suc.prems(5) False by (metis Suc_leI le_neq_implies_less)
    have "scanFlip N True b p d (row + int (Suc i0) * dr d) (col + int (Suc i0) * dc d)
            tf True fo
          = Some (tf @ filter (\<lambda>q. cellOf b q = Some (Disc (opponentOf p)))
                       (map (rayCell row col d) [Suc i0..<k]))"
      by (rule Suc.hyps(1) [OF n rest Suc.prems(2,3) le later])
    then show ?thesis
      using here(1) bl
      by (subst scanFlip.simps)
         (simp add: onBoard_def cellOf_def rayCell_def ray_step upt)
  qed
qed

lemma scan_stops_at_blocked:
  assumes "\<forall>i. i0 \<le> i \<and> i < k \<longrightarrow> onBoard N (rayCell row col d i)
              \<and> (cellOf b (rayCell row col d i) = Some (Disc (opponentOf p))
                 \<or> cellOf b (rayCell row col d i) = Some BLOCKED)"
    and "\<exists>j. i0 \<le> j \<and> j < k \<and> cellOf b (rayCell row col d j) = Some BLOCKED"
  shows "\<not> scanValid N False b p d (row + int i0 * dr d) (col + int i0 * dc d) fo fb
         \<and> scanFlip N False b p d (row + int i0 * dr d) (col + int i0 * dc d) tf fb fo = None"
  using assms
proof (induction "k - i0" arbitrary: i0 tf fo fb)
  case (0 i0 tf fo fb)
  then show ?case by auto
next
  case (Suc n i0 tf fo fb)
  then have lt: "i0 < k" by simp
  from Suc.prems(1) lt have here: "onBoard N (rayCell row col d i0)"
    "cellOf b (rayCell row col d i0) = Some (Disc (opponentOf p))
      \<or> cellOf b (rayCell row col d i0) = Some BLOCKED"
    by auto
  have rest: "\<forall>i. Suc i0 \<le> i \<and> i < k \<longrightarrow> onBoard N (rayCell row col d i)
              \<and> (cellOf b (rayCell row col d i) = Some (Disc (opponentOf p))
                 \<or> cellOf b (rayCell row col d i) = Some BLOCKED)"
    using Suc.prems(1) by auto
  have n: "n = k - Suc i0" using Suc.hyps(2) by simp
  show ?case
  proof (cases "cellOf b (rayCell row col d i0) = Some (Disc (opponentOf p))")
    case True
    have later: "\<exists>j. Suc i0 \<le> j \<and> j < k \<and> cellOf b (rayCell row col d j) = Some BLOCKED"
      using Suc.prems(2) True by (metis Suc_leI le_neq_implies_less cell.distinct(5) option.inject)
    have "\<not> scanValid N False b p d (row + int (Suc i0) * dr d) (col + int (Suc i0) * dc d) True fb
         \<and> scanFlip N False b p d (row + int (Suc i0) * dr d) (col + int (Suc i0) * dc d)
             (tf @ [rayCell row col d i0]) fb True = None"
      by (rule Suc.hyps(1) [OF n rest later])
    then show ?thesis
      using here(1) True
      by (subst scanValid.simps, subst scanFlip.simps)
         (simp add: onBoard_def cellOf_def rayCell_def ray_step)
  next
    case False
    with here(2) have bl: "cellOf b (rayCell row col d i0) = Some BLOCKED" by simp
    show ?thesis
      using here(1) bl
      by (subst scanValid.simps, subst scanFlip.simps)
         (simp add: onBoard_def cellOf_def rayCell_def)
  qed
qed

lemma ray_disjoint:
  "d \<noteq> d' \<Longrightarrow> 1 \<le> i \<Longrightarrow> 1 \<le> j \<Longrightarrow> rayCell row col d i \<noteq> rayCell row col d' j"
  by (cases d; cases d'; simp add: rayCell_def; linarith)

lemma ray_not_origin: "1 \<le> i \<Longrightarrow> rayCell row col d i \<noteq> (row, col)"
  by (cases d; simp add: rayCell_def)

lemma scanFlip_sound:
  assumes "scanFlip N ign b p d r c tf fb fo = Some tf'"
    and "(r, c) = rayCell row col d i0" and "1 \<le> i0"
  shows "\<forall>q\<in>set tf'. q \<in> set tf
           \<or> (onBoard N q \<and> cellOf b q = Some (Disc (opponentOf p))
               \<and> (\<exists>i\<ge>1. q = rayCell row col d i))"
  using assms
proof (induction N ign b p d r c tf fb fo arbitrary: i0 rule: scanFlip.induct)
  case (1 N ign b p d r c toFlip foundBlocked foundOpponent)
  have next_cell: "(r + dr d, c + dc d) = rayCell row col d (Suc i0)"
    using "1.prems"(2) by (simp add: rayCell_def algebra_simps)
  have i1: "1 \<le> Suc i0" by simp
  from "1.prems"(1) have w: "isWithinBoard N r c"
    by (subst (asm) scanFlip.simps) (simp split: if_splits)
  consider (opp) "cellAt b r c = Some (Disc (opponentOf p))"
    | (blk) "cellAt b r c \<noteq> Some (Disc (opponentOf p))" "cellAt b r c = Some BLOCKED"
    | (emp) "cellAt b r c \<noteq> Some (Disc (opponentOf p))" "cellAt b r c \<noteq> Some BLOCKED"
        "cellAt b r c = Some EMPTY"
    | (own) "cellAt b r c \<noteq> Some (Disc (opponentOf p))" "cellAt b r c \<noteq> Some BLOCKED"
        "cellAt b r c \<noteq> Some EMPTY" "cellAt b r c = Some (Disc p)"
    | (other) "cellAt b r c \<noteq> Some (Disc (opponentOf p))" "cellAt b r c \<noteq> Some BLOCKED"
        "cellAt b r c \<noteq> Some EMPTY" "cellAt b r c \<noteq> Some (Disc p)"
    by blast
  then show ?case
  proof cases
    case opp
    from "1.prems"(1) w opp
    have rec: "scanFlip N ign b p d (r + dr d) (c + dc d) (toFlip @ [(r, c)]) foundBlocked True
                 = Some tf'"
      by (subst (asm) scanFlip.simps) simp
    have here: "onBoard N (r, c) \<and> cellOf b (r, c) = Some (Disc (opponentOf p))
                  \<and> (\<exists>i\<ge>1. (r, c) = rayCell row col d i)"
      using w opp "1.prems"(3) "1.prems"(2) [symmetric]
      by (auto simp: onBoard_def cellOf_def intro!: exI [of _ i0])
    from "1.IH"(1) [OF w opp rec next_cell i1] here show ?thesis
      by auto
  next
    case blk
    from "1.prems"(1) w blk
    have ign: ign and rec: "scanFlip N ign b p d (r + dr d) (c + dc d) toFlip True foundOpponent
                 = Some tf'"
      by (subst (asm) scanFlip.simps; simp split: if_splits)+
    from "1.IH"(2) [OF w blk(1) blk(2) _ rec next_cell i1] ign show ?thesis
      by auto
  next
    case emp
    with "1.prems"(1) w show ?thesis
      by (subst (asm) scanFlip.simps) simp
  next
    case own
    with "1.prems"(1) w have "tf' = toFlip"
      by (subst (asm) scanFlip.simps) (simp split: if_splits)
    then show ?thesis by simp
  next
    case other
    from "1.prems"(1) w other
    have rec: "scanFlip N ign b p d (r + dr d) (c + dc d) toFlip foundBlocked foundOpponent
                 = Some tf'"
      by (subst (asm) scanFlip.simps) simp
    from "1.IH"(3) [OF w other rec next_cell i1] show ?thesis
      by auto
  qed
qed

lemma cellOf_setCell:
  assumes "wf_board N b" and "onBoard N q0" and "onBoard N q"
  shows "cellOf (setCell b (fst q0) (snd q0) v) q = (if q = q0 then Some v else cellOf b q)"
  using cellAt_setCell [OF assms(1), of "fst q0" "snd q0" "fst q" "snd q" v] assms(2,3)
  by (auto simp: cellOf_def onBoard_def prod_eq_iff)

lemma flipAll_cells:
  assumes "wf_board N b" and "\<forall>q\<in>set tf. onBoard N q"
  shows "wf_board N (flipAll p b tf)
     \<and> (\<forall>q. onBoard N q \<longrightarrow>
           cellOf (flipAll p b tf) q = (if q \<in> set tf then Some (Disc p) else cellOf b q))"
  using assms
proof (induction tf arbitrary: b)
  case Nil
  then show ?case by (simp add: flipAll_def)
next
  case (Cons q0 tf)
  let ?b1 = "setCell b (fst q0) (snd q0) (Disc p)"
  have unfold: "flipAll p b (q0 # tf) = flipAll p ?b1 tf"
    by (simp add: flipAll_def case_prod_beta)
  have w1: "wf_board N ?b1" using Cons.prems(1) by (rule wf_board_setCell)
  have on0: "onBoard N q0" and onrest: "\<forall>q\<in>set tf. onBoard N q"
    using Cons.prems(2) by auto
  from Cons.IH [OF w1 onrest] show ?case
    unfolding unfold
    using cellOf_setCell [OF Cons.prems(1) on0] by auto
qed

lemma flippedOnly_refl: "wf_board N b \<Longrightarrow> flippedOnly p N b b"
  by (simp add: flippedOnly_def)

lemma flippedOnly_trans:
  "flippedOnly p N b b' \<Longrightarrow> flippedOnly p N b' b'' \<Longrightarrow> flippedOnly p N b b''"
  unfolding flippedOnly_def by metis

text \<open>One round of the direction loop: which cells it may change.\<close>

lemma flipDirection_step:
  assumes "wf_board N b"
    and "flipDirection N ign p row col (b, cap, fl) x = (b', cap', fl')"
  shows "flippedOnly p N b b' \<and> (fl \<longrightarrow> fl')
    \<and> (\<forall>q. onBoard N q \<longrightarrow> cellOf b' q \<noteq> cellOf b q \<longrightarrow> (\<exists>i\<ge>1. q = rayCell row col x i))"
proof (cases "scanFlip N ign b p x (row + dr x) (col + dc x) [] False False")
  case None
  then have "b' = b" "fl' = fl"
    using assms(2) by (auto simp: flipDirection_def)
  then show ?thesis
    using assms(1) by (simp add: flippedOnly_refl)
next
  case (Some tf)
  have start: "(row + dr x, col + dc x) = rayCell row col x 1"
    by (simp add: rayCell_def)
  from scanFlip_sound [OF Some start] have s:
    "\<forall>q\<in>set tf. onBoard N q \<and> cellOf b q = Some (Disc (opponentOf p))
             \<and> (\<exists>i\<ge>1. q = rayCell row col x i)"
    by simp
  have b': "b' = flipAll p b tf" and fl': "fl'"
    using assms(2) Some by (auto simp: flipDirection_def)
  from flipAll_cells [OF assms(1), of tf p] s have f:
    "wf_board N b'"
    "\<forall>q. onBoard N q \<longrightarrow> cellOf b' q = (if q \<in> set tf then Some (Disc p) else cellOf b q)"
    unfolding b' by auto
  have 1: "flippedOnly p N b b'"
    unfolding flippedOnly_def using f s by auto
  have 2: "\<forall>q. onBoard N q \<longrightarrow> cellOf b' q \<noteq> cellOf b q \<longrightarrow> (\<exists>i\<ge>1. q = rayCell row col x i)"
    using f(2) s by auto
  show ?thesis
    using 1 2 fl' by simp
qed

lemma fold_flippedOnly:
  assumes "flippedOnly p N b0 b"
    and "foldl (flipDirection N ign p row col) (b, cap, fl) ds = (b', cap', fl')"
  shows "flippedOnly p N b0 b' \<and> (fl \<longrightarrow> fl')"
  using assms
proof (induction ds arbitrary: b cap fl)
  case Nil
  then show ?case by simp
next
  case (Cons x ds)
  obtain b1 cap1 fl1 where s: "flipDirection N ign p row col (b, cap, fl) x = (b1, cap1, fl1)"
    by (cases "flipDirection N ign p row col (b, cap, fl) x")
  have wf: "wf_board N b" using Cons.prems(1) by (simp add: flippedOnly_def)
  from flipDirection_step [OF wf s] have st: "flippedOnly p N b b1" "fl \<longrightarrow> fl1"
    by simp_all
  have 1: "flippedOnly p N b0 b1"
    using Cons.prems(1) st(1) by (rule flippedOnly_trans)
  have 2: "foldl (flipDirection N ign p row col) (b1, cap1, fl1) ds = (b', cap', fl')"
    using Cons.prems(2) s by simp
  from Cons.IH [OF 1 2] st(2) show ?case by simp
qed

lemma fold_keeps_ray:
  assumes "wf_board N b" and "d \<notin> set ds"
    and "foldl (flipDirection N ign p row col) (b, cap, fl) ds = (b', cap', fl')"
  shows "wf_board N b'
     \<and> (\<forall>i\<ge>1. onBoard N (rayCell row col d i) \<longrightarrow>
            cellOf b' (rayCell row col d i) = cellOf b (rayCell row col d i))"
  using assms
proof (induction ds arbitrary: b cap fl)
  case Nil
  then show ?case by simp
next
  case (Cons x ds)
  obtain b1 cap1 fl1 where s: "flipDirection N ign p row col (b, cap, fl) x = (b1, cap1, fl1)"
    by (cases "flipDirection N ign p row col (b, cap, fl) x")
  from flipDirection_step [OF Cons.prems(1) s] have st: "flippedOnly p N b b1"
    "\<forall>q. onBoard N q \<longrightarrow> cellOf b1 q \<noteq> cellOf b q \<longrightarrow> (\<exists>i\<ge>1. q = rayCell row col x i)"
    by simp_all
  have wf1: "wf_board N b1" using st(1) by (simp add: flippedOnly_def)
  have xd: "d \<noteq> x" "d \<notin> set ds" using Cons.prems(2) by auto
  have same: "cellOf b1 (rayCell row col d i) = cellOf b (rayCell row col d i)"
    if "1 \<le> i" "onBoard N (rayCell row col d i)" for i
    using st(2) that ray_disjoint [OF xd(1) that(1)] by blast
  have 2: "foldl (flipDirection N ign p row col) (b1, cap1, fl1) ds = (b', cap', fl')"
    using Cons.prems(3) s by simp
  from Cons.IH [OF wf1 xd(2) 2] same show ?case by simp
qed

lemma directions_all: "d \<in> set directions"
  by (cases d) (simp_all add: directions_def)

lemma makeMove_accepted:
  assumes "isWithinBoard (BOARD_SIZE st) row col" and "cellAt (board st) row col = Some EMPTY"
  obtains b' cap fl where
    "foldl (flipDirection (BOARD_SIZE st) (ignoreOcclusion (stageOf st)) p row col)
        (setCell (board st) row col (Disc p), [], False) directions = (b', cap, fl)"
    "makeMove st row col p
       = (st\<lparr> board := b', moves := moves st @ [(p, (row, col))],
              capturedCounts := capturedCounts st @ [length cap] \<rparr>, fl)"
proof -
  obtain b' cap fl where f:
    "foldl (flipDirection (BOARD_SIZE st) (ignoreOcclusion (stageOf st)) p row col)
        (setCell (board st) row col (Disc p), [], False) directions = (b', cap, fl)"
    by (metis prod_cases3)
  then have "makeMove st row col p
       = (st\<lparr> board := b', moves := moves st @ [(p, (row, col))],
              capturedCounts := capturedCounts st @ [length cap] \<rparr>, fl)"
    using assms by (simp add: makeMove_def Let_def)
  with f show ?thesis by (rule that)
qed

text \<open>What an accepted move does to every cell.\<close>

lemma makeMove_cells:
  assumes "wf_board (BOARD_SIZE st) (board st)"
    and "isWithinBoard (BOARD_SIZE st) row col" and "cellAt (board st) row col = Some EMPTY"
  shows "wf_board (BOARD_SIZE st) (board (fst (makeMove st row col p)))
     \<and> cellAt (board (fst (makeMove st row col p))) row col = Some (Disc p)
     \<and> moves (fst (makeMove st row col p)) = moves st @ [(p, (row, col))]
     \<and> (\<forall>q. onBoard (BOARD_SIZE st) q \<and> q \<noteq> (row, col) \<longrightarrow>
           cellOf (board (fst (makeMove st row col p))) q = cellOf (board st) q
           \<or> (cellOf (board st) q = Some (Disc (opponentOf p))
               \<and> cellOf (board (fst (makeMove st row col p))) q = Some (Disc p)))"
proof -
  let ?N = "BOARD_SIZE st" and ?placed = "setCell (board st) row col (Disc p)"
  obtain b' cap fl where f:
    "foldl (flipDirection ?N (ignoreOcclusion (stageOf st)) p row col) (?placed, [], False) directions
       = (b', cap, fl)"
    and m: "makeMove st row col p
       = (st\<lparr> board := b', moves := moves st @ [(p, (row, col))],
              capturedCounts := capturedCounts st @ [length cap] \<rparr>, fl)"
    using makeMove_accepted [OF assms(2,3)] by blast
  have on: "onBoard ?N (row, col)" using assms(2) by (simp add: onBoard_def)
  have wf0: "wf_board ?N ?placed" using assms(1) by (rule wf_board_setCell)
  have c0: "cellOf ?placed q = (if q = (row, col) then Some (Disc p) else cellOf (board st) q)"
    if "onBoard ?N q" for q
    using cellOf_setCell [OF assms(1) on that] by simp
  from fold_flippedOnly [OF flippedOnly_refl [OF wf0] f] have fo: "flippedOnly p ?N ?placed b'"
    by simp
  have 1: "wf_board ?N b'" using fo by (simp add: flippedOnly_def)
  have 2: "cellOf b' q = cellOf ?placed q
           \<or> (cellOf ?placed q = Some (Disc (opponentOf p)) \<and> cellOf b' q = Some (Disc p))"
    if "onBoard ?N q" for q
    using fo that unfolding flippedOnly_def by blast
  have 3: "cellAt b' row col = Some (Disc p)"
    using 2 [OF on] c0 [OF on] by (auto simp: cellOf_def)
  have 4: "cellOf b' q = cellOf (board st) q
           \<or> (cellOf (board st) q = Some (Disc (opponentOf p)) \<and> cellOf b' q = Some (Disc p))"
    if "onBoard ?N q" "q \<noteq> (row, col)" for q
    using 2 [OF that(1)] c0 [OF that(1)] that(2) by simp
  show ?thesis
    unfolding m using 1 3 4 by simp
qed

lemma directions_split:
  obtains pre post where "directions = pre @ d # post" "d \<notin> set pre" "d \<notin> set post"
proof -
  have dist: "distinct directions" by (simp add: directions_def)
  from directions_all [of d] obtain pre post where s: "directions = pre @ d # post"
    by (meson split_list)
  from dist have "distinct (pre @ d # post)" unfolding s .
  then have "d \<notin> set pre" "d \<notin> set post" by auto
  with s show ?thesis by (rule that)
qed

text \<open>
  Claim C6. Take a well-formed board, an empty cell \<open>(row, col)\<close> and a direction \<open>d\<close>
  such that the cells at steps 1 to \<open>k - 1\<close> from the cell are all on the board and each
  holds an opponent disc or is blocked, at least one of them (step \<open>m\<close>) holds an opponent
  disc and at least one (step \<open>j\<close>) is blocked, and the cell at step \<open>k\<close> holds a disc of
  the mover. With \<open>ignoreOcclusion\<close> on, the move is legal, \<open>makeMove\<close> reports a flip,
  and afterwards every one of those cells that held an opponent disc, before or beyond
  a blocked cell, holds a disc of the mover, while every blocked one is still blocked.
  With \<open>ignoreOcclusion\<close> off, the scan of \<open>isValidMove\<close> in that direction ends
  without success, and \<open>makeMove\<close> leaves all those cells as they were.
\<close>

theorem occlusion_ray:
  assumes wf: "wf_board (BOARD_SIZE st) (board st)"
    and place: "isWithinBoard (BOARD_SIZE st) row col" "cellAt (board st) row col = Some EMPTY"
    and ray: "\<forall>i. 1 \<le> i \<and> i < k \<longrightarrow> onBoard (BOARD_SIZE st) (rayCell row col d i)
               \<and> (cellOf (board st) (rayCell row col d i) = Some (Disc (opponentOf p))
                  \<or> cellOf (board st) (rayCell row col d i) = Some BLOCKED)"
    and run: "1 \<le> m \<and> m < k \<and> cellOf (board st) (rayCell row col d m) = Some (Disc (opponentOf p))"
    and blk: "1 \<le> j \<and> j < k \<and> cellOf (board st) (rayCell row col d j) = Some BLOCKED"
    and own: "onBoard (BOARD_SIZE st) (rayCell row col d k)"
      "cellOf (board st) (rayCell row col d k) = Some (Disc p)"
  shows "(ignoreOcclusion (stageOf st) \<longrightarrow>
            isValidMove st row col p (board st)
          \<and> snd (makeMove st row col p)
          \<and> (\<forall>i. 1 \<le> i \<and> i < k \<longrightarrow>
                cellOf (board (fst (makeMove st row col p))) (rayCell row col d i)
                  = Some (if cellOf (board st) (rayCell row col d i) = Some BLOCKED
                          then BLOCKED else Disc p)))
       \<and> (\<not> ignoreOcclusion (stageOf st) \<longrightarrow>
            \<not> scanValid (BOARD_SIZE st) False (board st) p d (row + dr d) (col + dc d) False False
          \<and> (\<forall>i. 1 \<le> i \<and> i < k \<longrightarrow>
                cellOf (board (fst (makeMove st row col p))) (rayCell row col d i)
                  = cellOf (board st) (rayCell row col d i)))"
proof -
  let ?N = "BOARD_SIZE st" and ?b = "board st" and ?ign = "ignoreOcclusion (stageOf st)"
  let ?placed = "setCell ?b row col (Disc p)"
  let ?F = "flipDirection ?N ?ign p row col"
  have k1: "1 \<le> k" using run by simp
  obtain pre post where sp: "directions = pre @ d # post" "d \<notin> set pre" "d \<notin> set post"
    by (rule directions_split)
  obtain b' cap fl where f: "foldl ?F (?placed, [], False) directions = (b', cap, fl)"
    and m: "makeMove st row col p
       = (st\<lparr> board := b', moves := moves st @ [(p, (row, col))],
              capturedCounts := capturedCounts st @ [length cap] \<rparr>, fl)"
    using makeMove_accepted [OF place] by blast
  obtain b1 cap1 fl1 where f1: "foldl ?F (?placed, [], False) pre = (b1, cap1, fl1)"
    by (metis prod_cases3)
  obtain b2 cap2 fl2 where f2: "?F (b1, cap1, fl1) d = (b2, cap2, fl2)"
    by (metis prod_cases3)
  have "foldl ?F (?placed, [], False) (pre @ d # post) = (b', cap, fl)"
    using f unfolding sp(1) .
  then have f3: "foldl ?F (b2, cap2, fl2) post = (b', cap, fl)"
    by (simp add: f1 f2)
  have on: "onBoard ?N (row, col)" using place(1) by (simp add: onBoard_def)
  have wf0: "wf_board ?N ?placed" using wf by (rule wf_board_setCell)
  have c0: "cellOf ?placed (rayCell row col d i) = cellOf ?b (rayCell row col d i)"
    if "1 \<le> i" "onBoard ?N (rayCell row col d i)" for i
    using cellOf_setCell [OF wf on that(2)] ray_not_origin [OF that(1)] by simp
  from fold_keeps_ray [OF wf0 sp(2) f1] have wf1: "wf_board ?N b1"
    and c1': "\<forall>i\<ge>1. onBoard ?N (rayCell row col d i) \<longrightarrow>
            cellOf b1 (rayCell row col d i) = cellOf ?placed (rayCell row col d i)"
    by simp_all
  have c1: "cellOf b1 (rayCell row col d i) = cellOf ?b (rayCell row col d i)"
    if "1 \<le> i" "i \<le> k" for i
  proof -
    have "onBoard ?N (rayCell row col d i)"
      using that ray own(1) by (cases "i = k") auto
    then show ?thesis using c1' c0 that(1) by simp
  qed
  have ray1: "\<forall>i. 1 \<le> i \<and> i < k \<longrightarrow> onBoard ?N (rayCell row col d i)
               \<and> (cellOf b1 (rayCell row col d i) = Some (Disc (opponentOf p))
                  \<or> cellOf b1 (rayCell row col d i) = Some BLOCKED)"
    using ray c1 by simp
  have own1: "cellOf b1 (rayCell row col d k) = Some (Disc p)"
    using own(2) c1 [OF k1] by simp
  have first: "row + int 1 * dr d = row + dr d" "col + int 1 * dc d = col + dc d"
    by simp_all
  show ?thesis
  proof (cases ?ign)
    case True
    have opp1: "\<exists>i. 1 \<le> i \<and> i < k \<and> cellOf b1 (rayCell row col d i) = Some (Disc (opponentOf p))"
      using run c1 [of m] by auto
    define tf where "tf = filter (\<lambda>q. cellOf b1 q = Some (Disc (opponentOf p)))
                        (map (rayCell row col d) [1..<k])"
    have "scanFlip ?N True b1 p d (row + int 1 * dr d) (col + int 1 * dc d) [] False False
            = Some ([] @ tf)"
      unfolding tf_def by (rule scanFlip_through [OF ray1 own(1) own1 k1]) (use opp1 in simp)
    then have sf: "scanFlip ?N True b1 p d (row + dr d) (col + dc d) [] False False = Some tf"
      by simp
    have b2: "b2 = flipAll p b1 tf" and fl2: fl2
      using f2 sf True by (auto simp: flipDirection_def)
    have tfon: "\<forall>q\<in>set tf. onBoard ?N q"
      using ray by (auto simp: tf_def)
    from flipAll_cells [OF wf1 tfon, of p] have wf2: "wf_board ?N b2"
      unfolding b2 by blast
    have c2': "cellOf b2 q = (if q \<in> set tf then Some (Disc p) else cellOf b1 q)"
      if "onBoard ?N q" for q
      using flipAll_cells [OF wf1 tfon, of p] that unfolding b2 by blast
    have c2: "cellOf b2 (rayCell row col d i)
                = Some (if cellOf ?b (rayCell row col d i) = Some BLOCKED then BLOCKED else Disc p)"
      if "1 \<le> i" "i < k" for i
    proof -
      have o: "onBoard ?N (rayCell row col d i)" using ray that by simp
      have e: "cellOf b1 (rayCell row col d i) = cellOf ?b (rayCell row col d i)"
        using c1 that by simp
      show ?thesis
      proof (cases "cellOf ?b (rayCell row col d i) = Some BLOCKED")
        case True
        then have "rayCell row col d i \<notin> set tf" using e by (auto simp: tf_def)
        then show ?thesis using c2' [OF o] e True by simp
      next
        case False
        then have "cellOf b1 (rayCell row col d i) = Some (Disc (opponentOf p))"
          using ray that e by auto
        then have "rayCell row col d i \<in> set tf" using that by (auto simp: tf_def)
        then show ?thesis using c2' [OF o] False by simp
      qed
    qed
    from fold_flippedOnly [OF flippedOnly_refl [OF wf2] f3] fl2
    have fo: "flippedOnly p ?N b2 b'" and fl: fl by simp_all
    have c3: "cellOf b' (rayCell row col d i)
                = Some (if cellOf ?b (rayCell row col d i) = Some BLOCKED then BLOCKED else Disc p)"
      if "1 \<le> i" "i < k" for i
    proof -
      have o: "onBoard ?N (rayCell row col d i)" using ray that by simp
      have "cellOf b' (rayCell row col d i) = cellOf b2 (rayCell row col d i)
           \<or> (cellOf b2 (rayCell row col d i) = Some (Disc (opponentOf p))
               \<and> cellOf b' (rayCell row col d i) = Some (Disc p))"
        using fo o unfolding flippedOnly_def by blast
      then show ?thesis
        using c2 [OF that] opponentOf_neq [of p] by (auto split: if_splits)
    qed
    have "scanValid ?N True ?b p d (row + int 1 * dr d) (col + int 1 * dc d) False False"
    proof (rule scanValid_through [OF _ own k1])
      show "\<forall>i. 1 \<le> i \<and> i < k \<longrightarrow> onBoard ?N (rayCell row col d i)
               \<and> (cellOf ?b (rayCell row col d i) = Some (Disc (opponentOf p))
                  \<or> cellOf ?b (rayCell row col d i) = Some BLOCKED)"
        using ray by simp
      show "False \<or> (\<exists>i. 1 \<le> i \<and> i < k
               \<and> cellOf ?b (rayCell row col d i) = Some (Disc (opponentOf p)))"
        using run by auto
    qed
    then have sv: "scanValid ?N True ?b p d (row + dr d) (col + dc d) False False"
      by simp
    have v: "isValidMove st row col p ?b"
      using place True sv directions_all [of d]
      by (auto simp: isValidMove_def Let_def list_ex_iff)
    show ?thesis
      using True v fl c3 by (simp add: m)
  next
    case False
    have blk1: "\<exists>j. 1 \<le> j \<and> j < k \<and> cellOf b1 (rayCell row col d j) = Some BLOCKED"
      using blk c1 [of j] by auto
    have blk0: "\<exists>j. 1 \<le> j \<and> j < k \<and> cellOf ?b (rayCell row col d j) = Some BLOCKED"
      using blk by auto
    have "\<not> scanValid ?N False ?b p d (row + int 1 * dr d) (col + int 1 * dc d) False False
          \<and> scanFlip ?N False ?b p d (row + int 1 * dr d) (col + int 1 * dc d) [] False False
              = None"
      by (rule scan_stops_at_blocked [OF ray blk0])
    then have sv: "\<not> scanValid ?N False ?b p d (row + dr d) (col + dc d) False False"
      by simp
    have "\<not> scanValid ?N False b1 p d (row + int 1 * dr d) (col + int 1 * dc d) False False
          \<and> scanFlip ?N False b1 p d (row + int 1 * dr d) (col + int 1 * dc d) [] False False
              = None"
      by (rule scan_stops_at_blocked [OF ray1 blk1])
    then have sf: "scanFlip ?N False b1 p d (row + dr d) (col + dc d) [] False False = None"
      by simp
    have b2: "b2 = b1"
      using f2 sf False by (auto simp: flipDirection_def)
    from fold_keeps_ray [OF wf1 sp(3) f3 [unfolded b2]]
    have c3': "\<forall>i\<ge>1. onBoard ?N (rayCell row col d i) \<longrightarrow>
            cellOf b' (rayCell row col d i) = cellOf b1 (rayCell row col d i)"
      by simp
    have c3: "cellOf b' (rayCell row col d i) = cellOf ?b (rayCell row col d i)"
      if "1 \<le> i" "i < k" for i
      using c3' c1 [of i] ray that by simp
    show ?thesis
      using False sv c3 by (simp add: m)
  qed
qed

lemma occlusion_fields:
  "board occlusionArena = occlusionBoard" "BOARD_SIZE occlusionArena = 6"
  "ignoreOcclusion (stageOf occlusionArena)"
  "board plainArena = occlusionBoard" "BOARD_SIZE plainArena = 6"
  "\<not> ignoreOcclusion (stageOf plainArena)"
  by (simp_all add: occlusionArena_def plainArena_def stageOf_def occlusionStage_def)

lemma wf_occlusionBoard: "wf_board 6 occlusionBoard"
  by (simp add: wf_board_def occlusionBoard_def)

lemma occlusion_row:
  "cellAt occlusionBoard 2 0 = Some EMPTY"
  "cellOf occlusionBoard (2, 1) = Some (Disc WHITE)"
  "cellOf occlusionBoard (2, 2) = Some (Disc WHITE)"
  "cellOf occlusionBoard (2, 3) = Some BLOCKED"
  "cellOf occlusionBoard (2, 4) = Some (Disc WHITE)"
  "cellOf occlusionBoard (2, 5) = Some (Disc BLACK)"
  by (simp_all add: cellOf_def cellAt_def occlusionBoard_def)

lemma occlusion_ray_cells:
  "rayCell 2 0 EE 1 = (2, 1)" "rayCell 2 0 EE 2 = (2, 2)" "rayCell 2 0 EE 3 = (2, 3)"
  "rayCell 2 0 EE 4 = (2, 4)" "rayCell 2 0 EE 5 = (2, 5)" "rayCell 2 0 EE (Suc 0) = (2, 1)"
  by (simp_all add: rayCell_def)

lemma occlusion_between:
  "\<forall>i. 1 \<le> i \<and> i < 5 \<longrightarrow> onBoard 6 (rayCell 2 0 EE i)
     \<and> (cellOf occlusionBoard (rayCell 2 0 EE i) = Some (Disc (opponentOf BLACK))
        \<or> cellOf occlusionBoard (rayCell 2 0 EE i) = Some BLOCKED)"
proof (intro allI impI)
  fix i :: nat
  assume "1 \<le> i \<and> i < 5"
  then consider "i = 1" | "i = 2" | "i = 3" | "i = 4" by linarith
  then show "onBoard 6 (rayCell 2 0 EE i)
     \<and> (cellOf occlusionBoard (rayCell 2 0 EE i) = Some (Disc (opponentOf BLACK))
        \<or> cellOf occlusionBoard (rayCell 2 0 EE i) = Some BLOCKED)"
    by cases
      (simp_all add: occlusion_ray_cells occlusion_row onBoard_def isWithinBoard_def
        opponentOf_def)
qed

lemma occlusion_premises:
  assumes "board A = occlusionBoard" and "BOARD_SIZE A = 6"
  shows "wf_board (BOARD_SIZE A) (board A)"
    and "isWithinBoard (BOARD_SIZE A) 2 0"
    and "cellAt (board A) 2 0 = Some EMPTY"
    and "\<forall>i. 1 \<le> i \<and> i < 5 \<longrightarrow> onBoard (BOARD_SIZE A) (rayCell 2 0 EE i)
           \<and> (cellOf (board A) (rayCell 2 0 EE i) = Some (Disc (opponentOf BLACK))
              \<or> cellOf (board A) (rayCell 2 0 EE i) = Some BLOCKED)"
    and "1 \<le> (1::nat) \<and> (1::nat) < 5
           \<and> cellOf (board A) (rayCell 2 0 EE 1) = Some (Disc (opponentOf BLACK))"
    and "1 \<le> (3::nat) \<and> (3::nat) < 5 \<and> cellOf (board A) (rayCell 2 0 EE 3) = Some BLOCKED"
    and "onBoard (BOARD_SIZE A) (rayCell 2 0 EE 5)"
    and "cellOf (board A) (rayCell 2 0 EE 5) = Some (Disc BLACK)"
  unfolding assms
  using occlusion_between
  by (simp_all add: wf_occlusionBoard occlusion_row occlusion_ray_cells onBoard_def
      isWithinBoard_def opponentOf_def)

theorem occlusion_ray_witness:
  "ignoreOcclusion (stageOf occlusionArena)
   \<and> cellAt (board occlusionArena) 2 0 = Some EMPTY
   \<and> isValidMove occlusionArena 2 0 BLACK (board occlusionArena)
   \<and> snd (makeMove occlusionArena 2 0 BLACK)
   \<and> cellOf (board (fst (makeMove occlusionArena 2 0 BLACK))) (2, 1) = Some (Disc BLACK)
   \<and> cellOf (board (fst (makeMove occlusionArena 2 0 BLACK))) (2, 2) = Some (Disc BLACK)
   \<and> cellOf (board (fst (makeMove occlusionArena 2 0 BLACK))) (2, 3) = Some BLOCKED
   \<and> cellOf (board (fst (makeMove occlusionArena 2 0 BLACK))) (2, 4) = Some (Disc BLACK)
   \<and> \<not> ignoreOcclusion (stageOf plainArena)
   \<and> \<not> scanValid 6 False (board plainArena) BLACK EE 2 1 False False
   \<and> cellOf (board (fst (makeMove plainArena 2 0 BLACK))) (2, 1) = Some (Disc WHITE)
   \<and> cellOf (board (fst (makeMove plainArena 2 0 BLACK))) (2, 4) = Some (Disc WHITE)"
proof -
  note p1 = occlusion_premises [OF occlusion_fields(1,2)]
  note p2 = occlusion_premises [OF occlusion_fields(4,5)]
  have on: "(ignoreOcclusion (stageOf occlusionArena) \<longrightarrow>
            isValidMove occlusionArena 2 0 BLACK (board occlusionArena)
          \<and> snd (makeMove occlusionArena 2 0 BLACK)
          \<and> (\<forall>i. 1 \<le> i \<and> i < 5 \<longrightarrow>
                cellOf (board (fst (makeMove occlusionArena 2 0 BLACK))) (rayCell 2 0 EE i)
                  = Some (if cellOf (board occlusionArena) (rayCell 2 0 EE i) = Some BLOCKED
                          then BLOCKED else Disc BLACK)))
       \<and> (\<not> ignoreOcclusion (stageOf occlusionArena) \<longrightarrow>
            \<not> scanValid (BOARD_SIZE occlusionArena) False (board occlusionArena) BLACK EE
                 (2 + dr EE) (0 + dc EE) False False
          \<and> (\<forall>i. 1 \<le> i \<and> i < 5 \<longrightarrow>
                cellOf (board (fst (makeMove occlusionArena 2 0 BLACK))) (rayCell 2 0 EE i)
                  = cellOf (board occlusionArena) (rayCell 2 0 EE i)))"
    by (rule occlusion_ray [of occlusionArena 2 0 5 EE BLACK 1 3, OF p1])
  have off: "(ignoreOcclusion (stageOf plainArena) \<longrightarrow>
            isValidMove plainArena 2 0 BLACK (board plainArena)
          \<and> snd (makeMove plainArena 2 0 BLACK)
          \<and> (\<forall>i. 1 \<le> i \<and> i < 5 \<longrightarrow>
                cellOf (board (fst (makeMove plainArena 2 0 BLACK))) (rayCell 2 0 EE i)
                  = Some (if cellOf (board plainArena) (rayCell 2 0 EE i) = Some BLOCKED
                          then BLOCKED else Disc BLACK)))
       \<and> (\<not> ignoreOcclusion (stageOf plainArena) \<longrightarrow>
            \<not> scanValid (BOARD_SIZE plainArena) False (board plainArena) BLACK EE
                 (2 + dr EE) (0 + dc EE) False False
          \<and> (\<forall>i. 1 \<le> i \<and> i < 5 \<longrightarrow>
                cellOf (board (fst (makeMove plainArena 2 0 BLACK))) (rayCell 2 0 EE i)
                  = cellOf (board plainArena) (rayCell 2 0 EE i)))"
    by (rule occlusion_ray [of plainArena 2 0 5 EE BLACK 1 3, OF p2])
  from on occlusion_fields(3) have v: "isValidMove occlusionArena 2 0 BLACK (board occlusionArena)"
    and f: "snd (makeMove occlusionArena 2 0 BLACK)"
    and cells: "\<And>i. 1 \<le> i \<and> i < 5 \<Longrightarrow>
                cellOf (board (fst (makeMove occlusionArena 2 0 BLACK))) (rayCell 2 0 EE i)
                  = Some (if cellOf (board occlusionArena) (rayCell 2 0 EE i) = Some BLOCKED
                          then BLOCKED else Disc BLACK)"
    by simp_all
  have c1: "cellOf (board (fst (makeMove occlusionArena 2 0 BLACK))) (2, 1) = Some (Disc BLACK)"
    using cells [of 1] by (simp add: occlusion_ray_cells occlusion_row occlusion_fields)
  have c2: "cellOf (board (fst (makeMove occlusionArena 2 0 BLACK))) (2, 2) = Some (Disc BLACK)"
    using cells [of 2] by (simp add: occlusion_ray_cells occlusion_row occlusion_fields)
  have c3: "cellOf (board (fst (makeMove occlusionArena 2 0 BLACK))) (2, 3) = Some BLOCKED"
    using cells [of 3] by (simp add: occlusion_ray_cells occlusion_row occlusion_fields)
  have c4: "cellOf (board (fst (makeMove occlusionArena 2 0 BLACK))) (2, 4) = Some (Disc BLACK)"
    using cells [of 4] by (simp add: occlusion_ray_cells occlusion_row occlusion_fields)
  from off occlusion_fields(6)
  have s: "\<not> scanValid 6 False (board plainArena) BLACK EE 2 1 False False"
    and same: "\<And>i. 1 \<le> i \<and> i < 5 \<Longrightarrow>
                cellOf (board (fst (makeMove plainArena 2 0 BLACK))) (rayCell 2 0 EE i)
                  = cellOf (board plainArena) (rayCell 2 0 EE i)"
    by (simp_all add: occlusion_fields)
  have d1: "cellOf (board (fst (makeMove plainArena 2 0 BLACK))) (2, 1) = Some (Disc WHITE)"
    using same [of 1] by (simp add: occlusion_ray_cells occlusion_row occlusion_fields)
  have d4: "cellOf (board (fst (makeMove plainArena 2 0 BLACK))) (2, 4) = Some (Disc WHITE)"
    using same [of 4] by (simp add: occlusion_ray_cells occlusion_row occlusion_fields)
  have e: "cellAt (board occlusionArena) 2 0 = Some EMPTY"
    by (simp add: occlusion_fields occlusion_row)
  show ?thesis
    by (intro conjI occlusion_fields(3) e v f c1 c2 c3 c4 occlusion_fields(6) s d1 d4)
qed

section \<open>Fallback moves\<close>

lemma checkTimeLimit_within:
  "timeUsed \<le> MAX_AI_TIME_PER_GAME \<Longrightarrow> checkTimeLimit st p timeUsed = (st, False)"
  by (simp add: checkTimeLimit_def)

lemma executeMove_fields:
  "board (executeMove st m p) = board (fst (makeMove st (fst m) (snd m) p))"
  "moves (executeMove st m p) = moves (fst (makeMove st (fst m) (snd m) p))"
  "blackTimeUsed (executeMove st m p) = blackTimeUsed st"
  "whiteTimeUsed (executeMove st m p) = whiteTimeUsed st"
  "timeUsedOf (executeMove st m p) q = timeUsedOf st q"
  by (auto simp: executeMove_def makeMove_def timeUsedOf_def Let_def split: prod.splits)

text \<open>The engine called with the properties of a move object from \<open>getValidMoves\<close>.\<close>

lemma isWithinBoardJs_int:
  "isWithinBoardJs N (Number (of_int r)) (Number (of_int c)) \<longleftrightarrow> isWithinBoard N r c"
  by (auto simp: isWithinBoardJs_def atLeastZero_def lessThanSize_def isWithinBoard_def)

lemma asIndex_int: "0 \<le> r \<Longrightarrow> asIndex (Number (of_int r)) = Some (nat r)"
  by (simp add: asIndex_def)

lemma guardCell_int:
  assumes "length (board st) = BOARD_SIZE st"
  shows "guardCell st (Number (of_int r)) (Number (of_int c))
     = Inr (if isWithinBoard (BOARD_SIZE st) r c \<and> cellAt (board st) r c = Some EMPTY
            then Some (r, c) else None)"
proof (cases "isWithinBoard (BOARD_SIZE st) r c")
  case True
  then have "0 \<le> r" "0 \<le> c" "nat r < BOARD_SIZE st" by (auto simp: isWithinBoard_def)
  then show ?thesis
    using True assms by (simp add: guardCell_def isWithinBoardJs_int asIndex_int)
next
  case False
  then show ?thesis by (simp add: guardCell_def isWithinBoardJs_int)
qed

lemma makeMoveJs_int:
  assumes "length (board st) = BOARD_SIZE st"
  shows "makeMoveJs st (Number (of_int r)) (Number (of_int c)) p = Inr (makeMove st r c p)"
  by (auto simp: makeMoveJs_def guardCell_int [OF assms] makeMove_def)

lemma executeMoveJs_moveObject:
  assumes "length (board st) = BOARD_SIZE st" and "moveObject m = Some q"
  shows "executeMoveJs st q p = Inr (executeMove st m p)"
proof -
  have q: "q = (Number (of_int (fst m)), Number (of_int (snd m)))"
    using assms(2) by (simp add: moveObject_def)
  show ?thesis
    by (simp add: executeMoveJs_def q makeMoveJs_int [OF assms(1)] executeMove_def
        split: prod.splits)
qed

lemma guardCell_addTime: "guardCell (addTime st p t) row col = guardCell st row col"
  by (simp add: guardCell_def addTime_fields cong: option.case_cong if_cong)

lemma isValidMoveJs_throws:
  "isl (isValidMoveJs st row col p) \<longleftrightarrow> isl (guardCell st row col)"
  by (auto simp: isValidMoveJs_def split: sum.splits option.splits)

text \<open>
  On a board with \<open>BOARD_SIZE\<close> rows the guard throws exactly for coordinates that pass
  \<open>isWithinBoard\<close> with a row that is not an index: \<^verbatim>\<open>null\<close>, or a number that is not
  whole.
\<close>

lemma isValidMoveJs_throws_iff:
  assumes "length (board st) = BOARD_SIZE st"
  shows "isl (isValidMoveJs st row col p)
     \<longleftrightarrow> isWithinBoardJs (BOARD_SIZE st) row col \<and> asIndex row = None"
proof (cases "asIndex row")
  case None
  then show ?thesis by (simp add: isValidMoveJs_throws guardCell_def)
next
  case (Some r)
  then obtain x where x: "row = Number x" "0 \<le> x" "x = of_int \<lfloor>x\<rfloor>" "r = nat \<lfloor>x\<rfloor>"
    by (auto simp: asIndex_def split: property.splits if_splits)
  have "r < BOARD_SIZE st" if "isWithinBoardJs (BOARD_SIZE st) row col"
  proof -
    have "x < real (BOARD_SIZE st)"
      using that x(1) by (simp add: isWithinBoardJs_def lessThanSize_def)
    then have "\<lfloor>x\<rfloor> < int (BOARD_SIZE st)" by linarith
    then show ?thesis using x(2,4) by linarith
  qed
  then show ?thesis
    using Some assms
    by (auto simp: isValidMoveJs_throws guardCell_def split: option.splits)
qed

lemma getValidMoves_addTime: "getValidMoves (addTime st p t) q b = getValidMoves st q b"
proof -
  have a: "BOARD_SIZE (addTime st p t) = BOARD_SIZE st" "stageOf (addTime st p t) = stageOf st"
    by (simp_all add: stageOf_def addTime_fields)
  show ?thesis unfolding getValidMoves_def isValidMove_def a ..
qed

lemma makeMove_addTime:
  "board (fst (makeMove (addTime st p t) row col q)) = board (fst (makeMove st row col q))"
proof -
  have "BOARD_SIZE (addTime st p t) = BOARD_SIZE st" "stageOf (addTime st p t) = stageOf st"
    "board (addTime st p t) = board st"
    by (simp_all add: stageOf_def addTime_fields)
  then show ?thesis by (simp add: makeMove_def Let_def split: prod.splits)
qed

lemma someMatches_objects:
  "someMatches (map moveObject validMoves) q = Inr (Some q \<in> set (map moveObject validMoves))"
  by (induction validMoves) (auto simp: moveObject_def)

lemma pickElement_objects:
  "pickRandom u validMoves = Some m \<Longrightarrow> pickElement u (map moveObject validMoves) = moveObject m"
  by (auto simp: pickElement_def pickRandom_def Let_def split: if_splits)

text \<open>
  The choice of \<^verbatim>\<open>actualMove\<close> for an answer that is not in the list, where the list
  is as \<open>getValidMoves\<close> made it.
\<close>

lemma chooseMove_fallback:
  assumes "move \<notin> set (map moveObject validMoves)"
    and "\<And>q. move = Some q \<Longrightarrow> \<not> isl (isValidMoveJs st (fst q) (snd q) p)"
  shows "chooseMove st p (map moveObject validMoves) move u
     = Inr (pickElement u (map moveObject validMoves))"
proof (cases move)
  case None
  then show ?thesis by (simp add: chooseMove_def)
next
  case (Some q)
  with assms(1) have "someMatches (map moveObject validMoves) q = Inr False"
    by (simp add: someMatches_objects)
  moreover obtain info where "isValidMoveJs st (fst q) (snd q) p = Inr info"
    using assms(2) [OF Some] by (cases "isValidMoveJs st (fst q) (snd q) p") auto
  ultimately show ?thesis using Some by (simp add: chooseMove_def)
qed

lemma chooseMove_throws:
  assumes "Some q \<notin> set (map moveObject validMoves)"
    and "isl (isValidMoveJs st (fst q) (snd q) p)"
  shows "\<exists>e. chooseMove st p (map moveObject validMoves) (Some q) u = Inl e"
proof -
  have "someMatches (map moveObject validMoves) q = Inr False"
    using assms(1) by (simp add: someMatches_objects)
  moreover obtain e where "isValidMoveJs st (fst q) (snd q) p = Inl e"
    using assms(2) by (cases "isValidMoveJs st (fst q) (snd q) p") auto
  ultimately show ?thesis by (simp add: chooseMove_def)
qed

text \<open>
  A ply of a strategy that leaves the state and the list as they were, up to the choice
  of the move.
\<close>

lemma makeAIMove_untouched:
  assumes "gameRunning st" and "\<not> gameOver st"
    and "currentPlayer st = p" and "controllerOf p = AI (Some strategyFn)"
    and "getValidMoves st p (board st) = validMoves" and "validMoves \<noteq> []"
    and "strategyFn st p validMoves rnd = (st, map moveObject validMoves, answer)"
    and "(case answer of Failed \<Rightarrow> None | Resolved m \<Rightarrow> m) = move"
    and "jsAdd (timeUsedOf st p) moveTime \<le> MAX_AI_TIME_PER_GAME"
  shows "makeAIMove st controllerOf rnd moveTime u u'
     = (case chooseMove (addTime st p moveTime) p (map moveObject validMoves) move u of
          Inl e \<Rightarrow> recover (addTime st p moveTime) p u'
        | Inr None \<Rightarrow> useFallbackMove (addTime st p moveTime) p u'
        | Inr (Some actualMove) \<Rightarrow>
            (case executeMoveJs (addTime st p moveTime) actualMove p of
               Inl e \<Rightarrow> recover (addTime st p moveTime) p u'
             | Inr st3 \<Rightarrow> Inr st3))"
proof -
  have t: "checkTimeLimit (addTime st p moveTime) p (timeUsedOf (addTime st p moveTime) p)
      = (addTime st p moveTime, False)"
    using assms(9) by (simp add: checkTimeLimit_within addTime_fields)
  have "makeAIMove st controllerOf rnd moveTime u u'
      = aiTurn st p validMoves strategyFn rnd moveTime u u'"
    using assms(1-6) by (simp add: makeAIMove_def Let_def)
  also have "\<dots> = (case chooseMove (addTime st p moveTime) p (map moveObject validMoves) move u of
          Inl e \<Rightarrow> recover (addTime st p moveTime) p u'
        | Inr None \<Rightarrow> useFallbackMove (addTime st p moveTime) p u'
        | Inr (Some actualMove) \<Rightarrow>
            (case executeMoveJs (addTime st p moveTime) actualMove p of
               Inl e \<Rightarrow> recover (addTime st p moveTime) p u'
             | Inr st3 \<Rightarrow> Inr st3))"
    using assms(1,2) by (simp add: aiTurn_def assms(7) assms(8) Let_def t)
  finally show ?thesis .
qed

text \<open>The inline fallback: the state after a ply whose strategy misbehaved.\<close>

lemma inline_fallback:
  assumes "gameRunning st" and "\<not> gameOver st"
    and "length (board st) = BOARD_SIZE st"
    and "currentPlayer st = p" and "controllerOf p = AI (Some strategyFn)"
    and "getValidMoves st p (board st) = validMoves" and "validMoves \<noteq> []"
    and "strategyFn st p validMoves rnd = (st, map moveObject validMoves, answer)"
    and "(case answer of Failed \<Rightarrow> None | Resolved m \<Rightarrow> m) = move"
    and "move \<notin> set (map moveObject validMoves)"
    and "\<And>q. move = Some q \<Longrightarrow> \<not> isl (isValidMoveJs st (fst q) (snd q) p)"
    and "jsAdd (timeUsedOf st p) moveTime \<le> MAX_AI_TIME_PER_GAME"
    and "0 \<le> u" and "u < 1"
  shows "\<exists>m. m \<in> set validMoves \<and> pickRandom u validMoves = Some m
     \<and> makeAIMove st controllerOf rnd moveTime u u'
         = Inr (executeMove (addTime st p moveTime) m p)"
proof -
  let ?st1 = "addTime st p moveTime"
  from pickRandom_member [OF assms(7,13,14)] obtain m where m:
    "pickRandom u validMoves = Some m" "m \<in> set validMoves"
    by blast
  have quiet: "\<not> isl (isValidMoveJs ?st1 (fst q) (snd q) p)" if "move = Some q" for q
    using assms(11) [OF that] by (simp add: isValidMoveJs_throws guardCell_addTime)
  have c: "chooseMove ?st1 p (map moveObject validMoves) move u = Inr (moveObject m)"
    using chooseMove_fallback [OF assms(10), of ?st1 p u] quiet
    by (simp add: pickElement_objects [OF m(1)])
  obtain q where q: "moveObject m = Some q" by (simp add: moveObject_def)
  have len: "length (board ?st1) = BOARD_SIZE ?st1"
    using assms(3) by (simp add: addTime_fields)
  have "makeAIMove st controllerOf rnd moveTime u u' = Inr (executeMove ?st1 m p)"
    by (simp add: makeAIMove_untouched [where controllerOf = controllerOf
          and strategyFn = strategyFn, OF assms(1,2,4-9,12)] c q
        executeMoveJs_moveObject [OF len q])
  with m show ?thesis by blast
qed

text \<open>
  The fallback after an exception: the \<^verbatim>\<open>catch\<close> block runs \<open>useFallbackMove\<close>, which
  adds the penalty and checks the time again.
\<close>

lemma caught_fallback:
  assumes "gameRunning st" and "\<not> gameOver st"
    and "currentPlayer st = p" and "controllerOf p = AI (Some strategyFn)"
    and "getValidMoves st p (board st) = validMoves" and "validMoves \<noteq> []"
    and "strategyFn st p validMoves rnd = (st, map moveObject validMoves, answer)"
    and "(case answer of Failed \<Rightarrow> None | Resolved m \<Rightarrow> m) = Some q"
    and "Some q \<notin> set (map moveObject validMoves)"
    and "isl (isValidMoveJs st (fst q) (snd q) p)"
    and "jsAdd (timeUsedOf st p) moveTime \<le> MAX_AI_TIME_PER_GAME"
  shows "makeAIMove st controllerOf rnd moveTime u u'
     = (case checkTimeLimit (addTime (addTime st p moveTime) p 100) p
               (jsAdd (jsAdd (timeUsedOf st p) moveTime) 100) of
          (st2, exceeded) \<Rightarrow>
            if exceeded then Inr st2
            else (case pickRandom u' validMoves of
                    None \<Rightarrow> Inl TypeError
                  | Some m \<Rightarrow> Inr (executeMove st2 m p)))"
proof -
  let ?st1 = "addTime st p moveTime"
  have "isl (isValidMoveJs ?st1 (fst q) (snd q) p)"
    using assms(10) by (simp add: isValidMoveJs_throws guardCell_addTime)
  from chooseMove_throws [OF assms(9) this, of u]
  obtain e where c: "chooseMove ?st1 p (map moveObject validMoves) (Some q) u = Inl e"
    by blast
  have t: "checkTimeLimit ?st1 p (timeUsedOf ?st1 p) = (?st1, False)"
    using assms(11) by (simp add: checkTimeLimit_within addTime_fields)
  have v: "getValidMoves ?st1 p (board st) = validMoves"
    using assms(5) by (simp add: getValidMoves_addTime)
  have "makeAIMove st controllerOf rnd moveTime u u' = recover ?st1 p u'"
    by (simp add: makeAIMove_untouched [where controllerOf = controllerOf
          and strategyFn = strategyFn, OF assms(1-8,11)] c)
  also have "\<dots> = useFallbackMove ?st1 p u'"
    by (simp add: recover_def t)
  also have "\<dots> = (case checkTimeLimit (addTime ?st1 p 100) p
               (jsAdd (jsAdd (timeUsedOf st p) moveTime) 100) of
          (st2, exceeded) \<Rightarrow>
            if exceeded then Inr st2
            else (case pickRandom u' validMoves of
                    None \<Rightarrow> Inl TypeError
                  | Some m \<Rightarrow> Inr (executeMove st2 m p)))"
    using assms(6) by (simp add: useFallbackMove_def v Let_def addTime_fields)
  finally show ?thesis .
qed

text \<open>A legal move that the scheduler applies is logged once and takes its cell.\<close>

lemma legal_move_applied:
  assumes "wf_board (BOARD_SIZE s) (board s)" and "m \<in> set (getValidMoves s p (board s))"
  shows "moves (executeMove s m p) = moves s @ [(p, m)]"
    and "cellAt (board (executeMove s m p)) (fst m) (snd m) = Some (Disc p)"
proof -
  have len: "length (board s) = BOARD_SIZE s"
    using assms(1) by (simp add: wf_board_def)
  have v: "isValidMove s (fst m) (snd m) p (board s)"
    using assms(2) set_getValidMoves [of "fst m" "snd m" s p "board s"] by simp
  have w: "isWithinBoard (BOARD_SIZE s) (fst m) (snd m)"
    and e: "cellAt (board s) (fst m) (snd m) = Some EMPTY"
    using isValidMove_within [OF v] isValidMove_empty [OF v] by simp_all
  from makeMove_cells [OF assms(1) w e, of p]
  show "moves (executeMove s m p) = moves s @ [(p, m)]"
    and "cellAt (board (executeMove s m p)) (fst m) (snd m) = Some (Disc p)"
    by (simp_all add: executeMove_fields)
qed

text \<open>
  Claim C2, as amended. In a running game on a well-formed board, let the player to move
  be run by a strategy and have at least one legal move; let the strategy's call leave
  the game state and the list of legal moves as they were, and let its answer be
  \<^verbatim>\<open>null\<close> (returned, or the outcome of an exception or of the timer) or a move that is
  not in the list. The time measured for the call is added to the player's clock, and:

  \<^item> if the clock is then above the budget, the game is forfeited and no move is
    applied;

  \<^item> if the clock is within the budget, and the answer is \<^verbatim>\<open>null\<close> or the diagnostic
    call of \<^verbatim>\<open>isValidMove\<close> on the answer returns, the scheduler draws a member of the
    list and applies that move, once: the state is the one \<open>makeMove\<close> gives for it, the
    move is the one entry added to the log, its cell holds the player's disc, and the
    clock holds no penalty;

  \<^item> if the clock is within the budget and that diagnostic call throws (a row that is
    \<^verbatim>\<open>null\<close> or not a whole number, with both coordinates in range),
    \<open>useFallbackMove\<close> runs: 100 ms are added to the clock, and if the clock is still
    within the budget a member of the list is drawn and applied, once;

  \<^item> and if the clock with the penalty is above the budget, the game is forfeited and
    no move is applied.
\<close>

theorem fallback_replaces_invalid_move:
  assumes "gameRunning st" and "\<not> gameOver st"
    and "wf_board (BOARD_SIZE st) (board st)"
    and "currentPlayer st = p" and "controllerOf p = AI (Some strategyFn)"
    and "getValidMoves st p (board st) = validMoves" and "validMoves \<noteq> []"
    and "strategyFn st p validMoves rnd = (st, map moveObject validMoves, answer)"
    and "(case answer of Failed \<Rightarrow> None | Resolved m \<Rightarrow> m) = move"
    and "move \<notin> set (map moveObject validMoves)"
    and "0 \<le> u" and "u < 1" and "0 \<le> u'" and "u' < 1"
  shows "(MAX_AI_TIME_PER_GAME < jsAdd (timeUsedOf st p) moveTime \<longrightarrow>
            (\<exists>st'. makeAIMove st controllerOf rnd moveTime u u' = Inr st'
               \<and> gameOver st' \<and> \<not> gameRunning st'
               \<and> status st' = Some (Winner (opponentOf p))
               \<and> board st' = map (map (\<lambda>x. if x = BLOCKED then BLOCKED
                                           else Disc (opponentOf p))) (board st)
               \<and> moves st' = []
               \<and> previousGames st' = previousGames st @
                    [\<lparr> savedMoves = moves st, savedCaptured = capturedCounts st,
                       blackScore = discsOf BLACK (board st'),
                       whiteScore = discsOf WHITE (board st') \<rparr>]))
       \<and> (jsAdd (timeUsedOf st p) moveTime \<le> MAX_AI_TIME_PER_GAME
            \<and> (\<forall>q. move = Some q \<longrightarrow> \<not> isl (isValidMoveJs st (fst q) (snd q) p)) \<longrightarrow>
            (\<exists>m st'. m \<in> set validMoves \<and> pickRandom u validMoves = Some m
               \<and> makeAIMove st controllerOf rnd moveTime u u' = Inr st'
               \<and> st' = executeMove (addTime st p moveTime) m p
               \<and> moves st' = moves st @ [(p, m)]
               \<and> cellAt (board st') (fst m) (snd m) = Some (Disc p)
               \<and> board st' = board (fst (makeMove st (fst m) (snd m) p))
               \<and> timeUsedOf st' p = jsAdd (timeUsedOf st p) moveTime))
       \<and> (jsAdd (timeUsedOf st p) moveTime \<le> MAX_AI_TIME_PER_GAME
            \<and> (\<exists>q. move = Some q \<and> isl (isValidMoveJs st (fst q) (snd q) p))
            \<and> jsAdd (jsAdd (timeUsedOf st p) moveTime) 100 \<le> MAX_AI_TIME_PER_GAME \<longrightarrow>
            (\<exists>m st'. m \<in> set validMoves \<and> pickRandom u' validMoves = Some m
               \<and> makeAIMove st controllerOf rnd moveTime u u' = Inr st'
               \<and> st' = executeMove (addTime (addTime st p moveTime) p 100) m p
               \<and> moves st' = moves st @ [(p, m)]
               \<and> cellAt (board st') (fst m) (snd m) = Some (Disc p)
               \<and> board st' = board (fst (makeMove st (fst m) (snd m) p))
               \<and> timeUsedOf st' p = jsAdd (jsAdd (timeUsedOf st p) moveTime) 100))
       \<and> (jsAdd (timeUsedOf st p) moveTime \<le> MAX_AI_TIME_PER_GAME
            \<and> (\<exists>q. move = Some q \<and> isl (isValidMoveJs st (fst q) (snd q) p))
            \<and> MAX_AI_TIME_PER_GAME < jsAdd (jsAdd (timeUsedOf st p) moveTime) 100 \<longrightarrow>
            (\<exists>st'. makeAIMove st controllerOf rnd moveTime u u' = Inr st'
               \<and> gameOver st' \<and> \<not> gameRunning st'
               \<and> status st' = Some (Winner (opponentOf p))
               \<and> board st' = map (map (\<lambda>x. if x = BLOCKED then BLOCKED
                                           else Disc (opponentOf p))) (board st)
               \<and> moves st' = []
               \<and> previousGames st' = previousGames st @
                    [\<lparr> savedMoves = moves st, savedCaptured = capturedCounts st,
                       blackScore = discsOf BLACK (board st'),
                       whiteScore = discsOf WHITE (board st') \<rparr>]))"
proof (intro conjI impI)
  let ?st1 = "addTime st p moveTime"
  let ?st2 = "addTime (addTime st p moveTime) p 100"
  have len: "length (board st) = BOARD_SIZE st"
    using assms(3) by (simp add: wf_board_def)
  have wf1: "wf_board (BOARD_SIZE ?st1) (board ?st1)" "wf_board (BOARD_SIZE ?st2) (board ?st2)"
    using assms(3) by (simp_all add: addTime_fields)
  have vm1: "getValidMoves ?st1 p (board ?st1) = validMoves"
    "getValidMoves ?st2 p (board ?st2) = validMoves"
    using assms(6) by (simp_all add: getValidMoves_addTime addTime_fields)
  {
    assume over: "MAX_AI_TIME_PER_GAME < jsAdd (timeUsedOf st p) moveTime"
    have run: "gameRunning ?st1" using assms(1) by (simp add: addTime_fields)
    have "makeAIMove st controllerOf rnd moveTime u u'
        = aiTurn st p validMoves strategyFn rnd moveTime u u'"
      using assms(1,2,4-7) by (simp add: makeAIMove_def Let_def)
    also have "\<dots> = Inr (fst (checkTimeLimit ?st1 p (jsAdd (timeUsedOf st p) moveTime)))"
      using assms(1,2)
      by (simp add: aiTurn_def assms(8) Let_def addTime_fields checkTimeLimit_over [OF over run])
    finally show "\<exists>st'. makeAIMove st controllerOf rnd moveTime u u' = Inr st'
               \<and> gameOver st' \<and> \<not> gameRunning st'
               \<and> status st' = Some (Winner (opponentOf p))
               \<and> board st' = map (map (\<lambda>x. if x = BLOCKED then BLOCKED
                                           else Disc (opponentOf p))) (board st)
               \<and> moves st' = []
               \<and> previousGames st' = previousGames st @
                    [\<lparr> savedMoves = moves st, savedCaptured = capturedCounts st,
                       blackScore = discsOf BLACK (board st'),
                       whiteScore = discsOf WHITE (board st') \<rparr>]"
      by (simp add: checkTimeLimit_over [OF over run] addTime_fields)
  }
  {
    assume a: "jsAdd (timeUsedOf st p) moveTime \<le> MAX_AI_TIME_PER_GAME
        \<and> (\<forall>q. move = Some q \<longrightarrow> \<not> isl (isValidMoveJs st (fst q) (snd q) p))"
    then have tm: "jsAdd (timeUsedOf st p) moveTime \<le> MAX_AI_TIME_PER_GAME"
      and quiet: "\<forall>q. move = Some q \<longrightarrow> \<not> isl (isValidMoveJs st (fst q) (snd q) p)"
      by simp_all
    from inline_fallback [where controllerOf = controllerOf and strategyFn = strategyFn
        and u' = u', OF assms(1,2) len assms(4-10) _ tm assms(11,12)] quiet
    obtain m where m: "m \<in> set validMoves" "pickRandom u validMoves = Some m"
      "makeAIMove st controllerOf rnd moveTime u u' = Inr (executeMove ?st1 m p)"
      by blast
    have in1: "m \<in> set (getValidMoves ?st1 p (board ?st1))"
      using m(1) by (simp add: vm1)
    have "moves (executeMove ?st1 m p) = moves st @ [(p, m)]"
      and "cellAt (board (executeMove ?st1 m p)) (fst m) (snd m) = Some (Disc p)"
      and "board (executeMove ?st1 m p) = board (fst (makeMove st (fst m) (snd m) p))"
      and "timeUsedOf (executeMove ?st1 m p) p = jsAdd (timeUsedOf st p) moveTime"
      using legal_move_applied [OF wf1(1) in1]
      by (simp_all add: addTime_fields executeMove_fields makeMove_addTime)
    with m show "\<exists>m st'. m \<in> set validMoves \<and> pickRandom u validMoves = Some m
               \<and> makeAIMove st controllerOf rnd moveTime u u' = Inr st'
               \<and> st' = executeMove (addTime st p moveTime) m p
               \<and> moves st' = moves st @ [(p, m)]
               \<and> cellAt (board st') (fst m) (snd m) = Some (Disc p)
               \<and> board st' = board (fst (makeMove st (fst m) (snd m) p))
               \<and> timeUsedOf st' p = jsAdd (timeUsedOf st p) moveTime"
      by blast
  }
  {
    assume a: "jsAdd (timeUsedOf st p) moveTime \<le> MAX_AI_TIME_PER_GAME
        \<and> (\<exists>q. move = Some q \<and> isl (isValidMoveJs st (fst q) (snd q) p))
        \<and> jsAdd (jsAdd (timeUsedOf st p) moveTime) 100 \<le> MAX_AI_TIME_PER_GAME"
    then have tm: "jsAdd (timeUsedOf st p) moveTime \<le> MAX_AI_TIME_PER_GAME" by simp
    from a obtain q where q: "move = Some q" "isl (isValidMoveJs st (fst q) (snd q) p)"
      by blast
    from pickRandom_member [OF assms(7,13,14)] obtain m where m:
      "pickRandom u' validMoves = Some m" "m \<in> set validMoves"
      by blast
    have c: "checkTimeLimit ?st2 p (jsAdd (jsAdd (timeUsedOf st p) moveTime) 100) = (?st2, False)"
      using a by (simp add: checkTimeLimit_within)
    have r: "makeAIMove st controllerOf rnd moveTime u u' = Inr (executeMove ?st2 m p)"
      using caught_fallback [where controllerOf = controllerOf and strategyFn = strategyFn
          and u = u and u' = u', OF assms(1,2,4-8) _ _ q(2) tm] assms(9,10) q(1)
      by (simp add: c m(1))
    have in2: "m \<in> set (getValidMoves ?st2 p (board ?st2))"
      using m(2) by (simp add: vm1)
    have "moves (executeMove ?st2 m p) = moves st @ [(p, m)]"
      and "cellAt (board (executeMove ?st2 m p)) (fst m) (snd m) = Some (Disc p)"
      and "board (executeMove ?st2 m p) = board (fst (makeMove st (fst m) (snd m) p))"
      and "timeUsedOf (executeMove ?st2 m p) p = jsAdd (jsAdd (timeUsedOf st p) moveTime) 100"
      using legal_move_applied [OF wf1(2) in2]
      by (simp_all add: addTime_fields executeMove_fields makeMove_addTime)
    with m r show "\<exists>m st'. m \<in> set validMoves \<and> pickRandom u' validMoves = Some m
               \<and> makeAIMove st controllerOf rnd moveTime u u' = Inr st'
               \<and> st' = executeMove (addTime (addTime st p moveTime) p 100) m p
               \<and> moves st' = moves st @ [(p, m)]
               \<and> cellAt (board st') (fst m) (snd m) = Some (Disc p)
               \<and> board st' = board (fst (makeMove st (fst m) (snd m) p))
               \<and> timeUsedOf st' p = jsAdd (jsAdd (timeUsedOf st p) moveTime) 100"
      by blast
  }
  {
    assume a: "jsAdd (timeUsedOf st p) moveTime \<le> MAX_AI_TIME_PER_GAME
        \<and> (\<exists>q. move = Some q \<and> isl (isValidMoveJs st (fst q) (snd q) p))
        \<and> MAX_AI_TIME_PER_GAME < jsAdd (jsAdd (timeUsedOf st p) moveTime) 100"
    then have tm: "jsAdd (timeUsedOf st p) moveTime \<le> MAX_AI_TIME_PER_GAME" by simp
    from a obtain q where q: "move = Some q" "isl (isValidMoveJs st (fst q) (snd q) p)"
      by blast
    have run: "gameRunning ?st2" using assms(1) by (simp add: addTime_fields)
    have over: "MAX_AI_TIME_PER_GAME < jsAdd (jsAdd (timeUsedOf st p) moveTime) 100"
      using a by simp
    have r: "makeAIMove st controllerOf rnd moveTime u u'
        = Inr (fst (checkTimeLimit ?st2 p (jsAdd (jsAdd (timeUsedOf st p) moveTime) 100)))"
      using caught_fallback [where controllerOf = controllerOf and strategyFn = strategyFn
          and u = u and u' = u', OF assms(1,2,4-8) _ _ q(2) tm] assms(9,10) q(1)
      by (simp add: checkTimeLimit_over [OF over run])
    show "\<exists>st'. makeAIMove st controllerOf rnd moveTime u u' = Inr st'
               \<and> gameOver st' \<and> \<not> gameRunning st'
               \<and> status st' = Some (Winner (opponentOf p))
               \<and> board st' = map (map (\<lambda>x. if x = BLOCKED then BLOCKED
                                           else Disc (opponentOf p))) (board st)
               \<and> moves st' = []
               \<and> previousGames st' = previousGames st @
                    [\<lparr> savedMoves = moves st, savedCaptured = capturedCounts st,
                       blackScore = discsOf BLACK (board st'),
                       whiteScore = discsOf WHITE (board st') \<rparr>]"
      by (simp add: r checkTimeLimit_over [OF over run] addTime_fields)
  }
qed

lemma standardArena_fields:
  "gameRunning standardArena" "\<not> gameOver standardArena" "currentPlayer standardArena = BLACK"
  "board standardArena = standardBoard" "BOARD_SIZE standardArena = 8"
  "blackTimeUsed standardArena = 0" "whiteTimeUsed standardArena = 0"
  "moves standardArena = []" "capturedCounts standardArena = []"
  "previousGames standardArena = []"
  by (simp_all add: standardArena_def)

lemma wf_standardBoard: "wf_board 8 standardBoard"
  by (simp add: wf_board_def standardBoard_def)

lemma pick_first: "pickRandom 0 [(2, 3), (3, 2), (4, 5), (5, 4 :: int)] = Some (2, 3 :: int)"
  by (simp add: pickRandom_def)

lemma blackNearlyOut_fields:
  "gameRunning blackNearlyOut" "\<not> gameOver blackNearlyOut" "currentPlayer blackNearlyOut = BLACK"
  "board blackNearlyOut = standardBoard" "BOARD_SIZE blackNearlyOut = 8"
  "blackTimeUsed blackNearlyOut = 9950"
  "moves blackNearlyOut = []" "capturedCounts blackNearlyOut = []"
  "previousGames blackNearlyOut = []"
  by (simp_all add: blackNearlyOut_def standardArena_def)

lemma blackNearlyOut_moves:
  "getValidMoves blackNearlyOut BLACK standardBoard = [(2, 3), (3, 2), (4, 5), (5, 4)]"
proof -
  have a: "BOARD_SIZE blackNearlyOut = BOARD_SIZE standardArena"
    "stageOf blackNearlyOut = stageOf standardArena"
    by (simp_all add: stageOf_def blackNearlyOut_def)
  have "getValidMoves blackNearlyOut BLACK standardBoard
      = getValidMoves standardArena BLACK standardBoard"
    unfolding getValidMoves_def isValidMove_def a ..
  then show ?thesis by (simp add: standard_black_moves)
qed

lemma half_row_throws:
  "isl (isValidMoveJs standardArena (Number (5 / 2)) (Number 3) BLACK)"
  "isl (isValidMoveJs blackNearlyOut (Number (5 / 2)) (Number 3) BLACK)"
  by (simp_all add: isValidMoveJs_def guardCell_def isWithinBoardJs_def atLeastZero_def
      lessThanSize_def asIndex_def standardArena_fields blackNearlyOut_fields)

lemma half_row_not_listed:
  "Some (Number (5 / 2), Number 3) \<notin> set (map moveObject [(2, 3), (3, 2), (4, 5), (5, 4)])"
  by (simp add: moveObject_def)

lemma first_fallback_fields:
  "moves (executeMove (addTime standardArena BLACK 5) (2, 3) BLACK) = [(BLACK, (2, 3))]"
  "board (executeMove (addTime standardArena BLACK 5) (2, 3) BLACK) = openedBoard"
  "blackTimeUsed (executeMove (addTime standardArena BLACK 5) (2, 3) BLACK) = 5"
  by code_simp+

lemma caught_fallback_fields:
  "moves (executeMove (addTime (addTime standardArena BLACK 5) BLACK 100) (4, 5) BLACK)
     = [(BLACK, (4, 5))]"
  "cellAt (board (executeMove (addTime (addTime standardArena BLACK 5) BLACK 100) (4, 5) BLACK))
     4 5 = Some (Disc BLACK)"
  "cellAt (board (executeMove (addTime (addTime standardArena BLACK 5) BLACK 100) (4, 5) BLACK))
     4 4 = Some (Disc BLACK)"
  "blackTimeUsed (executeMove (addTime (addTime standardArena BLACK 5) BLACK 100) (4, 5) BLACK)
     = 105"
  by code_simp+

lemma standardBoard_forfeited:
  "map (map (\<lambda>x. if x = BLOCKED then BLOCKED else Disc WHITE)) standardBoard
     = replicate 8 (replicate 8 (Disc WHITE))"
  by code_simp

theorem fallback_replaces_invalid_move_witness:
  "gameRunning standardArena \<and> \<not> gameOver standardArena
   \<and> wf_board (BOARD_SIZE standardArena) (board standardArena)
   \<and> nullPlayers BLACK = AI (Some (played nullStrategy))
   \<and> getValidMoves standardArena BLACK (board standardArena) = [(2, 3), (3, 2), (4, 5), (5, 4)]
   \<and> played nullStrategy standardArena BLACK [(2, 3), (3, 2), (4, 5), (5, 4)] 0
       = (standardArena, map moveObject [(2, 3), (3, 2), (4, 5), (5, 4)], Resolved None)
   \<and> MAX_AI_TIME_PER_GAME < jsAdd (timeUsedOf standardArena BLACK) 10001
   \<and> (\<exists>st'. makeAIMove standardArena nullPlayers 0 10001 0 (1 / 2) = Inr st'
          \<and> gameOver st' \<and> \<not> gameRunning st'
          \<and> status st' = Some (Winner WHITE)
          \<and> board st' = replicate 8 (replicate 8 (Disc WHITE))
          \<and> moves st' = []
          \<and> previousGames st' =
               [\<lparr> savedMoves = [], savedCaptured = [], blackScore = 0, whiteScore = 64 \<rparr>])
   \<and> jsAdd (timeUsedOf standardArena BLACK) 5 \<le> MAX_AI_TIME_PER_GAME
   \<and> (\<exists>st'. makeAIMove standardArena nullPlayers 0 5 0 (1 / 2) = Inr st'
          \<and> moves st' = [(BLACK, (2, 3))]
          \<and> board st' = openedBoard
          \<and> blackTimeUsed st' = 5)
   \<and> halfRowStrategy standardArena BLACK [(2, 3), (3, 2), (4, 5), (5, 4)] 0
       = (standardArena, map moveObject [(2, 3), (3, 2), (4, 5), (5, 4)],
          Resolved (Some (Number (5 / 2), Number 3)))
   \<and> Some (Number (5 / 2), Number 3) \<notin> set (map moveObject [(2, 3), (3, 2), (4, 5), (5, 4)])
   \<and> isl (isValidMoveJs standardArena (Number (5 / 2)) (Number 3) BLACK)
   \<and> jsAdd (jsAdd (timeUsedOf standardArena BLACK) 5) 100 \<le> MAX_AI_TIME_PER_GAME
   \<and> (\<exists>st'. makeAIMove standardArena halfRowPlayers 0 5 0 (1 / 2) = Inr st'
          \<and> moves st' = [(BLACK, (4, 5))]
          \<and> cellAt (board st') 4 5 = Some (Disc BLACK)
          \<and> cellAt (board st') 4 4 = Some (Disc BLACK)
          \<and> blackTimeUsed st' = 105)
   \<and> gameRunning blackNearlyOut \<and> \<not> gameOver blackNearlyOut
   \<and> jsAdd (timeUsedOf blackNearlyOut BLACK) 5 \<le> MAX_AI_TIME_PER_GAME
   \<and> MAX_AI_TIME_PER_GAME < jsAdd (jsAdd (timeUsedOf blackNearlyOut BLACK) 5) 100
   \<and> (\<exists>st'. makeAIMove blackNearlyOut halfRowPlayers 0 5 0 (1 / 2) = Inr st'
          \<and> gameOver st' \<and> \<not> gameRunning st'
          \<and> status st' = Some (Winner WHITE)
          \<and> board st' = replicate 8 (replicate 8 (Disc WHITE))
          \<and> moves st' = []
          \<and> previousGames st' =
               [\<lparr> savedMoves = [], savedCaptured = [], blackScore = 0, whiteScore = 64 \<rparr>])"
proof -
  let ?vm = "[(2, 3), (3, 2), (4, 5), (5, 4)] :: pos list"
  have wf: "wf_board (BOARD_SIZE standardArena) (board standardArena)"
    "wf_board (BOARD_SIZE blackNearlyOut) (board blackNearlyOut)"
    by (simp_all add: standardArena_fields blackNearlyOut_fields wf_standardBoard)
  have c: "nullPlayers BLACK = AI (Some (played nullStrategy))"
    "halfRowPlayers BLACK = AI (Some halfRowStrategy)"
    by (simp_all add: nullPlayers_def halfRowPlayers_def)
  have vm: "getValidMoves standardArena BLACK (board standardArena) = ?vm"
    "getValidMoves blackNearlyOut BLACK (board blackNearlyOut) = ?vm"
    by (simp_all add: standardArena_fields standard_black_moves blackNearlyOut_fields
        blackNearlyOut_moves)
  have ne: "?vm \<noteq> []" by simp
  have n: "played nullStrategy standardArena BLACK ?vm 0
      = (standardArena, map moveObject ?vm, Resolved None)"
    by (simp add: played_def nullStrategy_def)
  have h: "halfRowStrategy standardArena BLACK ?vm 0
      = (standardArena, map moveObject ?vm, Resolved (Some (Number (5 / 2), Number 3)))"
    "halfRowStrategy blackNearlyOut BLACK ?vm 0
      = (blackNearlyOut, map moveObject ?vm, Resolved (Some (Number (5 / 2), Number 3)))"
    by (simp_all add: halfRowStrategy_def)
  have mv: "(case Resolved None of Failed \<Rightarrow> None | Resolved m \<Rightarrow> m) = (None :: jsmove)"
    "(case Resolved (Some (Number (5 / 2), Number 3)) of Failed \<Rightarrow> None | Resolved m \<Rightarrow> m)
       = Some (Number (5 / 2), Number 3)"
    by simp_all
  have out: "None \<notin> set (map moveObject ?vm)" by (simp add: moveObject_def)
  have t: "jsAdd (timeUsedOf standardArena BLACK) 5 \<le> MAX_AI_TIME_PER_GAME"
    "jsAdd (jsAdd (timeUsedOf standardArena BLACK) 5) 100 \<le> MAX_AI_TIME_PER_GAME"
    "jsAdd (timeUsedOf blackNearlyOut BLACK) 5 \<le> MAX_AI_TIME_PER_GAME"
    "MAX_AI_TIME_PER_GAME < jsAdd (jsAdd (timeUsedOf blackNearlyOut BLACK) 5) 100"
    "MAX_AI_TIME_PER_GAME < jsAdd (timeUsedOf standardArena BLACK) 10001"
    by (simp_all add: timeUsedOf_def standardArena_fields blackNearlyOut_fields
        jsAdd_examples MAX_AI_TIME_PER_GAME_def)
  have u: "(0 :: real) \<le> 0" "(0 :: real) < 1" "(0 :: real) \<le> 1 / 2" "(1 / 2 :: real) < 1"
    by simp_all
  have half: "pickRandom (1 / 2) ?vm = Some (4, 5)"
    by (simp add: pickRandom_def)
  note a = fallback_replaces_invalid_move [where controllerOf = nullPlayers
      and strategyFn = "played nullStrategy" and st = standardArena and p = BLACK
      and validMoves = ?vm and rnd = 0 and u = 0 and u' = "1 / 2",
      OF standardArena_fields(1,2) wf(1) standardArena_fields(3) c(1) vm(1) ne n mv(1) out u]
  note b = fallback_replaces_invalid_move [where controllerOf = halfRowPlayers
      and strategyFn = halfRowStrategy and st = standardArena and p = BLACK
      and validMoves = ?vm and rnd = 0 and moveTime = 5 and u = 0 and u' = "1 / 2",
      OF standardArena_fields(1,2) wf(1) standardArena_fields(3) c(2) vm(1) ne h(1) mv(2)
        half_row_not_listed u]
  note d = fallback_replaces_invalid_move [where controllerOf = halfRowPlayers
      and strategyFn = halfRowStrategy and st = blackNearlyOut and p = BLACK
      and validMoves = ?vm and rnd = 0 and moveTime = 5 and u = 0 and u' = "1 / 2",
      OF blackNearlyOut_fields(1,2) wf(2) blackNearlyOut_fields(3) c(2) vm(2) ne h(2) mv(2)
        half_row_not_listed u]
  have "\<exists>st'. makeAIMove standardArena nullPlayers 0 10001 0 (1 / 2) = Inr st'
      \<and> gameOver st' \<and> \<not> gameRunning st'
      \<and> status st' = Some (Winner (opponentOf BLACK))
      \<and> board st' = map (map (\<lambda>x. if x = BLOCKED then BLOCKED
                                  else Disc (opponentOf BLACK))) (board standardArena)
      \<and> moves st' = []
      \<and> previousGames st' = previousGames standardArena @
           [\<lparr> savedMoves = moves standardArena, savedCaptured = capturedCounts standardArena,
              blackScore = discsOf BLACK (board st'),
              whiteScore = discsOf WHITE (board st') \<rparr>]"
    by (rule a [where moveTime = 10001, THEN conjunct1, THEN mp]) (rule t(5))
  then have 0: "\<exists>st'. makeAIMove standardArena nullPlayers 0 10001 0 (1 / 2) = Inr st'
          \<and> gameOver st' \<and> \<not> gameRunning st'
          \<and> status st' = Some (Winner WHITE)
          \<and> board st' = replicate 8 (replicate 8 (Disc WHITE))
          \<and> moves st' = []
          \<and> previousGames st' =
               [\<lparr> savedMoves = [], savedCaptured = [], blackScore = 0, whiteScore = 64 \<rparr>]"
    by (simp add: standardArena_fields standardBoard_forfeited full_board_counts opponentOf_def
        cong: if_cong conj_cong)
  have "\<exists>m st'. m \<in> set ?vm \<and> pickRandom 0 ?vm = Some m
      \<and> makeAIMove standardArena nullPlayers 0 5 0 (1 / 2) = Inr st'
      \<and> st' = executeMove (addTime standardArena BLACK 5) m BLACK
      \<and> moves st' = moves standardArena @ [(BLACK, m)]
      \<and> cellAt (board st') (fst m) (snd m) = Some (Disc BLACK)
      \<and> board st' = board (fst (makeMove standardArena (fst m) (snd m) BLACK))
      \<and> timeUsedOf st' BLACK = jsAdd (timeUsedOf standardArena BLACK) 5"
    by (rule a [where moveTime = 5, THEN conjunct2, THEN conjunct1, THEN mp])
       (simp add: t(1))
  then obtain m st' where
    "pickRandom 0 ?vm = Some m"
    "makeAIMove standardArena nullPlayers 0 5 0 (1 / 2) = Inr st'"
    "st' = executeMove (addTime standardArena BLACK 5) m BLACK"
    by (elim exE conjE)
  then have "makeAIMove standardArena nullPlayers 0 5 0 (1 / 2)
      = Inr (executeMove (addTime standardArena BLACK 5) (2, 3) BLACK)"
    by (simp add: pick_first)
  then have 1: "\<exists>st'. makeAIMove standardArena nullPlayers 0 5 0 (1 / 2) = Inr st'
          \<and> moves st' = [(BLACK, (2, 3))]
          \<and> board st' = openedBoard
          \<and> blackTimeUsed st' = 5"
    by (simp add: first_fallback_fields)
  have thr: "\<exists>q. Some (Number (5 / 2), Number 3) = Some q
      \<and> isl (isValidMoveJs standardArena (fst q) (snd q) BLACK)"
    "\<exists>q. Some (Number (5 / 2), Number 3) = Some q
      \<and> isl (isValidMoveJs blackNearlyOut (fst q) (snd q) BLACK)"
    using half_row_throws by simp_all
  have "\<exists>m st'. m \<in> set ?vm \<and> pickRandom (1 / 2) ?vm = Some m
      \<and> makeAIMove standardArena halfRowPlayers 0 5 0 (1 / 2) = Inr st'
      \<and> st' = executeMove (addTime (addTime standardArena BLACK 5) BLACK 100) m BLACK
      \<and> moves st' = moves standardArena @ [(BLACK, m)]
      \<and> cellAt (board st') (fst m) (snd m) = Some (Disc BLACK)
      \<and> board st' = board (fst (makeMove standardArena (fst m) (snd m) BLACK))
      \<and> timeUsedOf st' BLACK = jsAdd (jsAdd (timeUsedOf standardArena BLACK) 5) 100"
    by (rule b [THEN conjunct2, THEN conjunct2, THEN conjunct1, THEN mp])
       (intro conjI t(1) thr(1) t(2))
  then obtain m st' where
    "pickRandom (1 / 2) ?vm = Some m"
    "makeAIMove standardArena halfRowPlayers 0 5 0 (1 / 2) = Inr st'"
    "st' = executeMove (addTime (addTime standardArena BLACK 5) BLACK 100) m BLACK"
    by (elim exE conjE)
  then have "makeAIMove standardArena halfRowPlayers 0 5 0 (1 / 2)
      = Inr (executeMove (addTime (addTime standardArena BLACK 5) BLACK 100) (4, 5) BLACK)"
    by (simp add: half)
  then have 2: "\<exists>st'. makeAIMove standardArena halfRowPlayers 0 5 0 (1 / 2) = Inr st'
          \<and> moves st' = [(BLACK, (4, 5))]
          \<and> cellAt (board st') 4 5 = Some (Disc BLACK)
          \<and> cellAt (board st') 4 4 = Some (Disc BLACK)
          \<and> blackTimeUsed st' = 105"
    by (simp add: caught_fallback_fields)
  have "\<exists>st'. makeAIMove blackNearlyOut halfRowPlayers 0 5 0 (1 / 2) = Inr st'
      \<and> gameOver st' \<and> \<not> gameRunning st'
      \<and> status st' = Some (Winner (opponentOf BLACK))
      \<and> board st' = map (map (\<lambda>x. if x = BLOCKED then BLOCKED
                                  else Disc (opponentOf BLACK))) (board blackNearlyOut)
      \<and> moves st' = []
      \<and> previousGames st' = previousGames blackNearlyOut @
           [\<lparr> savedMoves = moves blackNearlyOut, savedCaptured = capturedCounts blackNearlyOut,
              blackScore = discsOf BLACK (board st'),
              whiteScore = discsOf WHITE (board st') \<rparr>]"
    by (rule d [THEN conjunct2, THEN conjunct2, THEN conjunct2, THEN mp])
       (intro conjI t(3) thr(2) t(4))
  then have 3: "\<exists>st'. makeAIMove blackNearlyOut halfRowPlayers 0 5 0 (1 / 2) = Inr st'
          \<and> gameOver st' \<and> \<not> gameRunning st'
          \<and> status st' = Some (Winner WHITE)
          \<and> board st' = replicate 8 (replicate 8 (Disc WHITE))
          \<and> moves st' = []
          \<and> previousGames st' =
               [\<lparr> savedMoves = [], savedCaptured = [], blackScore = 0, whiteScore = 64 \<rparr>]"
    by (simp add: blackNearlyOut_fields standardBoard_forfeited full_board_counts opponentOf_def
        cong: if_cong conj_cong)
  show ?thesis
    by (intro conjI standardArena_fields(1,2) wf(1) c(1) vm(1) n t(5) 0 t(1) 1 h(1)
        half_row_not_listed half_row_throws(1) t(2) 2 blackNearlyOut_fields(1,2) t(3) t(4) 3)
qed

text \<open>
  Claim C2 as it was stated says that whenever the strategy's answer is \<^verbatim>\<open>null\<close> or
  not in the list, a member of the list is substituted and exactly one move is applied
  in the ply. Two plies on the opening position show otherwise. A strategy that
  returns \<^verbatim>\<open>null\<close> after 10001 ms: the time check comes first, the game is forfeited,
  and no move is applied. A strategy that calls the \<^verbatim>\<open>makeMove\<close> it is handed, at row 2,
  column 3, and returns \<^verbatim>\<open>null\<close> after 5 ms: the scheduler then applies the fallback
  move at row 4, column 5, and two moves are logged in the ply.
\<close>

theorem fallback_replaces_invalid_move_counterexample:
  "played nullStrategy standardArena BLACK [(2, 3), (3, 2), (4, 5), (5, 4)] 0
     = (standardArena, map moveObject [(2, 3), (3, 2), (4, 5), (5, 4)], Resolved None)
   \<and> (\<exists>st'. makeAIMove standardArena nullPlayers 0 10001 0 0 = Inr st'
          \<and> gameOver st' \<and> \<not> gameRunning st'
          \<and> status st' = Some (Winner WHITE)
          \<and> board st' = replicate 8 (replicate 8 (Disc WHITE))
          \<and> moves st' = []
          \<and> previousGames st' =
               [\<lparr> savedMoves = [], savedCaptured = [], blackScore = 0, whiteScore = 64 \<rparr>])
   \<and> eagerStrategy standardArena BLACK [(2, 3), (3, 2), (4, 5), (5, 4)] 0
       = (fst (makeMove standardArena 2 3 BLACK),
          map moveObject [(2, 3), (3, 2), (4, 5), (5, 4)], Resolved None)
   \<and> (\<exists>st'. makeAIMove standardArena eagerPlayers 0 5 (1 / 2) 0 = Inr st'
          \<and> gameRunning st'
          \<and> moves st' = [(BLACK, (2, 3)), (BLACK, (4, 5))]
          \<and> capturedCounts st' = [1, 1]
          \<and> discsOf BLACK (board st') = 6 \<and> discsOf WHITE (board st') = 0)"
proof -
  have n: "played nullStrategy standardArena BLACK [(2, 3), (3, 2), (4, 5), (5, 4)] 0
     = (standardArena, map moveObject [(2, 3), (3, 2), (4, 5), (5, 4)], Resolved None)"
    by (simp add: played_def nullStrategy_def)
  have e: "eagerStrategy standardArena BLACK [(2, 3), (3, 2), (4, 5), (5, 4)] 0
       = (fst (makeMove standardArena 2 3 BLACK),
          map moveObject [(2, 3), (3, 2), (4, 5), (5, 4)], Resolved None)"
    by (simp add: eagerStrategy_def)
  have 1: "\<not> isl (makeAIMove standardArena nullPlayers 0 10001 0 0)"
    "gameOver (projr (makeAIMove standardArena nullPlayers 0 10001 0 0))"
    "\<not> gameRunning (projr (makeAIMove standardArena nullPlayers 0 10001 0 0))"
    "status (projr (makeAIMove standardArena nullPlayers 0 10001 0 0)) = Some (Winner WHITE)"
    "board (projr (makeAIMove standardArena nullPlayers 0 10001 0 0))
       = replicate 8 (replicate 8 (Disc WHITE))"
    "moves (projr (makeAIMove standardArena nullPlayers 0 10001 0 0)) = []"
    "previousGames (projr (makeAIMove standardArena nullPlayers 0 10001 0 0))
       = [\<lparr> savedMoves = [], savedCaptured = [], blackScore = 0, whiteScore = 64 \<rparr>]"
    by code_simp+
  have 2: "\<not> isl (makeAIMove standardArena eagerPlayers 0 5 (1 / 2) 0)"
    "gameRunning (projr (makeAIMove standardArena eagerPlayers 0 5 (1 / 2) 0))"
    "moves (projr (makeAIMove standardArena eagerPlayers 0 5 (1 / 2) 0))
       = [(BLACK, (2, 3)), (BLACK, (4, 5))]"
    "capturedCounts (projr (makeAIMove standardArena eagerPlayers 0 5 (1 / 2) 0)) = [1, 1]"
    "discsOf BLACK (board (projr (makeAIMove standardArena eagerPlayers 0 5 (1 / 2) 0))) = 6"
    "discsOf WHITE (board (projr (makeAIMove standardArena eagerPlayers 0 5 (1 / 2) 0))) = 0"
    by code_simp+
  have a: "\<exists>st'. makeAIMove standardArena nullPlayers 0 10001 0 0 = Inr st'
          \<and> gameOver st' \<and> \<not> gameRunning st'
          \<and> status st' = Some (Winner WHITE)
          \<and> board st' = replicate 8 (replicate 8 (Disc WHITE))
          \<and> moves st' = []
          \<and> previousGames st' =
               [\<lparr> savedMoves = [], savedCaptured = [], blackScore = 0, whiteScore = 64 \<rparr>]"
    using 1 by (cases "makeAIMove standardArena nullPlayers 0 10001 0 0") simp_all
  have b: "\<exists>st'. makeAIMove standardArena eagerPlayers 0 5 (1 / 2) 0 = Inr st'
          \<and> gameRunning st'
          \<and> moves st' = [(BLACK, (2, 3)), (BLACK, (4, 5))]
          \<and> capturedCounts st' = [1, 1]
          \<and> discsOf BLACK (board st') = 6 \<and> discsOf WHITE (board st') = 0"
    using 2 by (cases "makeAIMove standardArena eagerPlayers 0 5 (1 / 2) 0") simp_all
  show ?thesis by (intro conjI n a e b)
qed

text \<open>
  Claim C7. The claim is that a fallback move for a strategy that returned \<^verbatim>\<open>null\<close>
  or a move outside the list comes with a penalty of 100 ms. On the opening position,
  with a strategy that returns \<^verbatim>\<open>null\<close> after 5 ms, \<open>makeAIMove\<close> plays a fallback move
  and Black's time is 5 ms: nothing has been added. \<open>useFallbackMove\<close>, on the same
  position, does add the 100 ms.
\<close>

theorem inline_fallback_no_penalty:
  "makeAIMove standardArena nullPlayers 0 5 0 0
     = Inr (executeMove (addTime standardArena BLACK 5) (2, 3) BLACK)
   \<and> blackTimeUsed (executeMove (addTime standardArena BLACK 5) (2, 3) BLACK) = 5
   \<and> blackTimeUsed (projr (useFallbackMove standardArena BLACK 0)) = 100"
proof -
  let ?vm = "[(2, 3), (3, 2), (4, 5), (5, 4)] :: pos list"
  have len: "length (board standardArena) = BOARD_SIZE standardArena"
    by (simp add: standardArena_fields standardBoard_def)
  have c: "nullPlayers BLACK = AI (Some (played nullStrategy))"
    by (simp add: nullPlayers_def)
  have vm: "getValidMoves standardArena BLACK (board standardArena) = ?vm"
    by (simp add: standardArena_fields standard_black_moves)
  have ne: "?vm \<noteq> []" by simp
  have n: "played nullStrategy standardArena BLACK ?vm 0
      = (standardArena, map moveObject ?vm, Resolved None)"
    by (simp add: played_def nullStrategy_def)
  have mv: "(case Resolved None of Failed \<Rightarrow> None | Resolved m \<Rightarrow> m) = (None :: jsmove)"
    by simp
  have out: "None \<notin> set (map moveObject ?vm)" by (simp add: moveObject_def)
  have t: "jsAdd (timeUsedOf standardArena BLACK) 5 \<le> MAX_AI_TIME_PER_GAME"
    by (simp add: timeUsedOf_def standardArena_fields jsAdd_examples MAX_AI_TIME_PER_GAME_def)
  from inline_fallback [where controllerOf = nullPlayers and strategyFn = "played nullStrategy"
      and st = standardArena and p = BLACK and validMoves = ?vm and rnd = 0 and moveTime = 5
      and u = 0 and u' = 0 and move = None,
      OF standardArena_fields(1,2) len standardArena_fields(3) c vm ne n mv out _ t]
  obtain m where
    "pickRandom 0 ?vm = Some m"
    "makeAIMove standardArena nullPlayers 0 5 0 0
       = Inr (executeMove (addTime standardArena BLACK 5) m BLACK)"
    by auto
  then have 1: "makeAIMove standardArena nullPlayers 0 5 0 0
     = Inr (executeMove (addTime standardArena BLACK 5) (2, 3) BLACK)"
    by (simp add: pick_first)
  have 2: "blackTimeUsed (executeMove (addTime standardArena BLACK 5) (2, 3) BLACK) = 5"
    by (simp add: first_fallback_fields)
  have t2: "checkTimeLimit (addTime standardArena BLACK 100) BLACK
              (timeUsedOf (addTime standardArena BLACK 100) BLACK)
            = (addTime standardArena BLACK 100, False)"
    by (rule checkTimeLimit_within)
       (simp add: addTime_def timeUsedOf_def standardArena_fields jsAdd_examples
          MAX_AI_TIME_PER_GAME_def)
  have "useFallbackMove standardArena BLACK 0
          = Inr (executeMove (addTime standardArena BLACK 100) (2, 3) BLACK)"
    using vm t2 by (simp add: useFallbackMove_def Let_def standardArena_fields pick_first)
  then have 3: "blackTimeUsed (projr (useFallbackMove standardArena BLACK 0)) = 100"
    by (simp add: executeMove_fields addTime_def standardArena_fields jsAdd_examples)
  show ?thesis using 1 2 3 by simp
qed

theorem inline_fallback_no_penalty_witness:
  "blackTimeUsed (executeMove (addTime standardArena BLACK 5) (2, 3) BLACK) = 5"
  using inline_fallback_no_penalty by simp

end
